(* ===== verification/Prelude.thy ===== *)
theory Prelude
  imports Main "HOL-Library.Sublist"
begin

text \<open>
  Shared vocabulary of the development: the type synonyms, the theorem collections and the
  generic list lemmas that the component theories rest on.  Nothing here is specific to the
  host scanner.

  Go strings and byte slices are both lists of 8-bit characters (\<open>string\<close>).  A Go pair
  \<open>(v, err)\<close> where exactly one of the two is set is a sum \<open>goerr + 'a\<close> (theory
  \<open>Host_OS\<close>); a nilable pointer or slice is an \<open>option\<close>.
\<close>

named_theorems go_lib \<open>definitions of the Go library layer, unfolded by evaluation\<close>
named_theorems scanner_defs \<open>definitions of the scanner's operations, unfolded on demand\<close>

type_synonym bytes = string

abbreviation colon :: char where "colon \<equiv> CHR '':''"
abbreviation slash :: char where "slash \<equiv> CHR ''/''"
abbreviation NL :: char where "NL \<equiv> CHR 0x0A"
abbreviation CR :: char where "CR \<equiv> CHR 0x0D"
abbreviation NUL :: char where "NUL \<equiv> CHR 0x00"


subsection \<open>First success in a list\<close>

text \<open>A \<open>for range\<close> loop whose body returns on the first hit.\<close>

fun first_some :: "('a \<Rightarrow> 'b option) \<Rightarrow> 'a list \<Rightarrow> 'b option" where
  "first_some f [] = None"
| "first_some f (x # xs) = (case f x of Some y \<Rightarrow> Some y | None \<Rightarrow> first_some f xs)"

lemma first_some_append:
  "first_some f (xs @ ys) =
     (case first_some f xs of Some y \<Rightarrow> Some y | None \<Rightarrow> first_some f ys)"
  by (induction xs) (auto split: option.splits)

lemma first_some_None_iff: "first_some f xs = None \<longleftrightarrow> (\<forall>x \<in> set xs. f x = None)"
  by (induction xs) (auto split: option.splits)

lemma first_some_SomeD:
  "first_some f xs = Some y \<Longrightarrow>
     \<exists>pre x post. xs = pre @ x # post \<and> f x = Some y \<and> (\<forall>z \<in> set pre. f z = None)"
proof (induction xs)
  case Nil
  then show ?case by simp
next
  case (Cons x xs)
  show ?case
  proof (cases "f x")
    case None
    with Cons obtain pre x' post
      where "xs = pre @ x' # post" "f x' = Some y" "\<forall>z \<in> set pre. f z = None" by auto
    with None have "x # xs = (x # pre) @ x' # post \<and> f x' = Some y \<and>
        (\<forall>z \<in> set (x # pre). f z = None)" by simp
    then show ?thesis by blast
  next
    case (Some z)
    with Cons.prems have "x # xs = [] @ x # xs \<and> f x = Some y \<and> (\<forall>z \<in> set []. f z = None)"
      by simp
    then show ?thesis by blast
  qed
qed

lemma first_some_skip:
  "\<forall>z \<in> set pre. f z = None \<Longrightarrow> first_some f (pre @ xs) = first_some f xs"
  by (induction pre) auto

lemma first_some_cong [fundef_cong]:
  "xs = ys \<Longrightarrow> (\<And>x. x \<in> set ys \<Longrightarrow> f x = g x) \<Longrightarrow> first_some f xs = first_some g ys"
  by (induction xs arbitrary: ys) (auto split: option.splits)

lemma first_some_map: "first_some f (map g xs) = first_some (f \<circ> g) xs"
  by (induction xs) (auto split: option.splits)


subsection \<open>Loops that carry a state and may leave early\<close>

text \<open>
  A \<open>for range\<close> loop over a list with loop-carried state: each pass either continues with a
  new state (\<open>Inr\<close>) or leaves the enclosing function (\<open>Inl\<close>).
\<close>

fun loop_list :: "('s \<Rightarrow> 'a \<Rightarrow> 'r + 's) \<Rightarrow> 's \<Rightarrow> 'a list \<Rightarrow> 'r + 's" where
  "loop_list body s [] = Inr s"
| "loop_list body s (x # xs) =
     (case body s x of Inl r \<Rightarrow> Inl r | Inr s' \<Rightarrow> loop_list body s' xs)"

lemma loop_list_append:
  "loop_list body s (xs @ ys) =
     (case loop_list body s xs of Inl r \<Rightarrow> Inl r | Inr s' \<Rightarrow> loop_list body s' ys)"
  by (induction xs arbitrary: s) (auto split: sum.splits)

lemma loop_list_invariant:
  assumes "loop_list body s xs = Inr s'" and "I s"
    and "\<And>s x s'. x \<in> set xs \<Longrightarrow> I s \<Longrightarrow> body s x = Inr s' \<Longrightarrow> I s'"
  shows "I s'"
  using assms
proof (induction xs arbitrary: s)
  case Nil
  then show ?case by simp
next
  case (Cons x xs)
  from Cons.prems(1) obtain s1 where "body s x = Inr s1" "loop_list body s1 xs = Inr s'"
    by (auto split: sum.splits)
  with Cons show ?case by (metis list.set_intros)
qed

lemma loop_list_cong [fundef_cong]:
  "xs = ys \<Longrightarrow> s = t \<Longrightarrow> (\<And>x u. x \<in> set ys \<Longrightarrow> f u x = g u x) \<Longrightarrow>
     loop_list f s xs = loop_list g t ys"
proof (induction xs arbitrary: ys s t)
  case Nil
  then show ?case by auto
next
  case (Cons x xs)
  then show ?case by (auto split: sum.splits)
qed

lemma loop_list_total:
  "(\<And>s x. x \<in> set xs \<Longrightarrow> \<exists>s'. body s x = Inr s') \<Longrightarrow> \<exists>s'. loop_list body s xs = Inr s'"
proof (induction xs arbitrary: s)
  case (Cons x xs)
  then obtain s1 where "body s x = Inr s1" by (meson list.set_intros)
  with Cons show ?case by simp
qed simp

text \<open>A loop over a list of batches, each visited in its own loop, is one loop over all.\<close>

lemma loop_list_concat:
  "loop_list (\<lambda>s b. loop_list body s (ord b)) s bs = loop_list body s (concat (map ord bs))"
  by (induction bs arbitrary: s) (auto simp: loop_list_append split: sum.splits)

text \<open>A stateless search is the special case whose body returns the first hit.\<close>

lemma loop_list_first_some:
  "loop_list (\<lambda>u x. case f x of Some y \<Rightarrow> Inl y | None \<Rightarrow> Inr u) s xs =
     (case first_some f xs of Some y \<Rightarrow> Inl y | None \<Rightarrow> Inr s)"
proof (induction xs)
  case (Cons x xs)
  then show ?case by (cases "f x") simp_all
qed simp


subsection \<open>Cutting a list into batches\<close>

function chunks :: "nat \<Rightarrow> 'a list \<Rightarrow> 'a list list" where
  "chunks n xs = (if n = 0 \<or> xs = [] then [] else take n xs # chunks n (drop n xs))"
  by pat_completeness auto
termination
  by (relation "measure (length \<circ> snd)") auto

declare chunks.simps [simp del]

lemma chunks_Nil [simp]: "chunks n [] = []"
  by (subst chunks.simps) simp

lemma chunks_step: "0 < n \<Longrightarrow> xs \<noteq> [] \<Longrightarrow> chunks n xs = take n xs # chunks n (drop n xs)"
  by (subst chunks.simps) simp

lemma concat_chunks [simp]: "0 < n \<Longrightarrow> concat (chunks n xs) = xs"
proof (induction n xs rule: chunks.induct)
  case (1 n xs)
  show ?case
  proof (cases "xs = []")
    case False
    with 1 have "concat (chunks n (drop n xs)) = drop n xs" by simp
    with 1(2) False show ?thesis by (subst chunks_step) simp_all
  qed simp
qed

lemma chunks_single: "xs \<noteq> [] \<Longrightarrow> length xs \<le> n \<Longrightarrow> chunks n xs = [xs]"
  by (cases "n = 0", simp) (subst chunks_step, simp_all)

lemma chunks_le: "b \<in> set (chunks n xs) \<Longrightarrow> length b \<le> n"
proof (induction n xs rule: chunks.induct)
  case (1 n xs)
  show ?case
  proof (cases "n = 0 \<or> xs = []")
    case True
    then have "chunks n xs = []" by (subst chunks.simps) simp
    with 1 show ?thesis by simp
  next
    case False
    then have "chunks n xs = take n xs # chunks n (drop n xs)" by (simp add: chunks_step)
    with 1 False show ?thesis by auto
  qed
qed


subsection \<open>Association lists as Go maps\<close>

text \<open>\<open>m[k] = v\<close> on a Go map.\<close>

fun map_set :: "string \<Rightarrow> 'v \<Rightarrow> (string \<times> 'v) list \<Rightarrow> (string \<times> 'v) list" where
  "map_set k v [] = [(k, v)]"
| "map_set k v ((k', v') # m) = (if k' = k then (k, v) # m else (k', v') # map_set k v m)"

lemma map_of_map_set [simp]: "map_of (map_set k v m) k' = (if k' = k then Some v else map_of m k')"
  by (induction m) auto

lemma map_set_same [simp]: "map_set k v (map_set k v' m) = map_set k v m"
  by (induction m) auto

lemma map_set_id: "map_of m k = Some v \<Longrightarrow> map_set k v m = m"
  by (induction m) (auto split: if_splits)

end
