(* ===== verification/Go_Strings.thy ===== *)
theory Go_Strings
  imports Prelude
begin

text \<open>
  The functions of Go's \<open>strings\<close>, \<open>bytes\<close> and \<open>strconv\<close> packages that the scanner calls,
  on byte strings.  A definition is named after its package and function.  Go's \<open>int\<close> is the
  64-bit one of the platforms the scanner is built for (linux/amd64 and linux/arm64).
\<close>

subsection \<open>Searching and cutting\<close>

definition strings_HasPrefix :: "string \<Rightarrow> string \<Rightarrow> bool" where
  [go_lib]: "strings_HasPrefix s p = prefix p s"

definition strings_HasSuffix :: "string \<Rightarrow> string \<Rightarrow> bool" where
  [go_lib]: "strings_HasSuffix s p = suffix p s"

definition strings_Contains :: "string \<Rightarrow> string \<Rightarrow> bool" where
  [go_lib]: "strings_Contains s p = sublist p s"

text \<open>\<open>bytes.Count\<close> with a one-byte separator.\<close>

definition bytes_Count :: "bytes \<Rightarrow> char \<Rightarrow> nat" where
  [go_lib]: "bytes_Count s c = count_list s c"

text \<open>\<open>strings.Cut(s, sep)\<close>, first component, with a one-byte separator.\<close>

definition strings_CutBefore :: "string \<Rightarrow> char \<Rightarrow> string" where
  [go_lib]: "strings_CutBefore s c = takeWhile (\<lambda>x. x \<noteq> c) s"

text \<open>\<open>bytes.Split\<close> and \<open>strings.Split\<close> with a one-byte separator: never the empty list.\<close>

fun split_on :: "char \<Rightarrow> string \<Rightarrow> string list" where
  "split_on c [] = [[]]"
| "split_on c (x # xs) =
     (if x = c then [] # split_on c xs
      else (case split_on c xs of [] \<Rightarrow> [[x]] | p # ps \<Rightarrow> (x # p) # ps))"

text \<open>\<open>strings.SplitN(s, sep, n)\<close> with a one-byte separator: at most \<open>n\<close> parts, the last of
  which is the unsplit rest.\<close>

fun strings_SplitN :: "char \<Rightarrow> string \<Rightarrow> nat \<Rightarrow> string list" where
  "strings_SplitN c s 0 = []"
| "strings_SplitN c s (Suc 0) = [s]"
| "strings_SplitN c s (Suc (Suc n)) =
     (case dropWhile (\<lambda>x. x \<noteq> c) s of
        [] \<Rightarrow> [s]
      | _ # rest \<Rightarrow> takeWhile (\<lambda>x. x \<noteq> c) s # strings_SplitN c rest (Suc n))"

fun strings_Join :: "string list \<Rightarrow> string \<Rightarrow> string" where
  "strings_Join [] sep = []"
| "strings_Join [p] sep = p"
| "strings_Join (p # q # ps) sep = p @ sep @ strings_Join (q # ps) sep"

lemma split_on_nonempty [simp]: "split_on c s \<noteq> []"
  by (induction s) (auto split: list.splits)

lemma split_on_no_sep [simp]: "c \<notin> set s \<Longrightarrow> split_on c s = [s]"
  by (induction s) auto

lemma split_on_append_sep:
  "split_on c (s @ c # t) = split_on c s @ split_on c t"
proof (induction s)
  case (Cons x s)
  then show ?case by (cases "split_on c s") auto
qed simp

lemma split_on_parts_no_sep: "p \<in> set (split_on c s) \<Longrightarrow> c \<notin> set p"
proof (induction s arbitrary: p)
  case (Cons x s)
  then show ?case by (cases "split_on c s") (auto split: if_splits)
qed simp

lemma length_split_on: "length (split_on c s) = Suc (count_list s c)"
proof (induction s)
  case (Cons x s)
  then show ?case by (cases "split_on c s") auto
qed simp

text \<open>Joining the parts with a one-byte separator rebuilds the string with the separators
  replaced.\<close>

lemma strings_Join_Cons:
  "ps \<noteq> [] \<Longrightarrow> strings_Join (p # ps) sep = p @ sep @ strings_Join ps sep"
  by (cases ps) auto

lemma strings_Join_split_on:
  "strings_Join (split_on c s) [d] = map (\<lambda>x. if x = c then d else x) s"
proof (induction s)
  case (Cons x s)
  obtain p ps where split: "split_on c s = p # ps" by (cases "split_on c s") auto
  with Cons show ?case by (cases ps) (auto simp: strings_Join_Cons)
qed simp

lemma split_on_strings_Join:
  "ps \<noteq> [] \<Longrightarrow> \<forall>p \<in> set ps. c \<notin> set p \<Longrightarrow> split_on c (strings_Join ps [c]) = ps"
proof (induction ps "[c]" rule: strings_Join.induct)
  case (3 p q ps)
  then show ?case by (simp add: split_on_append_sep)
qed auto


subsection \<open>SplitN and truncation\<close>

lemma dropWhile_sep_append:
  "c \<in> set s \<Longrightarrow> dropWhile (\<lambda>x. x \<noteq> c) (s @ t) = dropWhile (\<lambda>x. x \<noteq> c) s @ t"
  by (induction s) auto

lemma takeWhile_sep_append:
  "c \<in> set s \<Longrightarrow> takeWhile (\<lambda>x. x \<noteq> c) (s @ t) = takeWhile (\<lambda>x. x \<noteq> c) s"
  by (induction s) auto

lemma dropWhile_sep_Cons:
  assumes "c \<in> set s"
  obtains rest where "dropWhile (\<lambda>x. x \<noteq> c) s = c # rest"
    and "s = takeWhile (\<lambda>x. x \<noteq> c) s @ c # rest"
    and "count_list s c = Suc (count_list rest c)"
  using assms
proof (induction s arbitrary: thesis)
  case (Cons x s)
  show ?case
  proof (cases "x = c")
    case True
    then show ?thesis by (auto intro: Cons.prems(1))
  next
    case False
    with Cons.prems(2) have "c \<in> set s" by simp
    from Cons.IH [OF _ this] obtain rest where
      "dropWhile (\<lambda>x. x \<noteq> c) s = c # rest" "s = takeWhile (\<lambda>x. x \<noteq> c) s @ c # rest"
      "count_list s c = Suc (count_list rest c)" by blast
    with False show ?thesis by (intro Cons.prems(1)) auto
  qed
qed simp

lemma count_list_0_takeWhile [simp]: "c \<notin> set s \<Longrightarrow> takeWhile (\<lambda>x. x \<noteq> c) s = s"
  by (induction s) auto

lemma length_SplitN: "n \<le> count_list s c \<Longrightarrow> length (strings_SplitN c s (Suc n)) = Suc n"
proof (induction n arbitrary: s)
  case (Suc n)
  then have "c \<in> set s" by (metis count_list_0_iff not_less_eq_eq zero_le)
  then obtain rest where "dropWhile (\<lambda>x. x \<noteq> c) s = c # rest"
    and "count_list s c = Suc (count_list rest c)" by (rule dropWhile_sep_Cons) blast
  with Suc show ?case by simp
qed simp

text \<open>With at least \<open>n\<close> separators in \<open>s\<close>, the first \<open>n\<close> parts do not see what follows \<open>s\<close>.\<close>

lemma SplitN_append:
  "n \<le> count_list s c \<Longrightarrow>
     take n (strings_SplitN c (s @ t) (Suc n)) = take n (strings_SplitN c s (Suc n))"
proof (induction n arbitrary: s)
  case (Suc n)
  then have c: "c \<in> set s" by (metis count_list_0_iff not_less_eq_eq zero_le)
  then obtain rest where "dropWhile (\<lambda>x. x \<noteq> c) s = c # rest"
    and "count_list s c = Suc (count_list rest c)" by (rule dropWhile_sep_Cons) blast
  with Suc c show ?case
    by (simp add: dropWhile_sep_append takeWhile_sep_append)
qed simp

lemma SplitN_nth_append:
  assumes "n \<le> count_list s c" and "i < n"
  shows "strings_SplitN c (s @ t) (Suc n) ! i = strings_SplitN c s (Suc n) ! i"
proof -
  have "take n (strings_SplitN c (s @ t) (Suc n)) ! i = take n (strings_SplitN c s (Suc n)) ! i"
    using SplitN_append [OF assms(1)] by simp
  with assms(2) show ?thesis by simp
qed

text \<open>A part other than the first and the last sits between two separators.\<close>

lemma SplitN_nth_infix:
  "Suc i < n \<Longrightarrow> n \<le> count_list s c \<Longrightarrow>
     sublist (c # strings_SplitN c s (Suc n) ! Suc i @ [c]) s"
proof (induction n arbitrary: s i)
  case (Suc n)
  then have "c \<in> set s" by (metis count_list_0_iff not_less_eq_eq zero_le)
  then obtain rest where d: "dropWhile (\<lambda>x. x \<noteq> c) s = c # rest"
    and s: "s = takeWhile (\<lambda>x. x \<noteq> c) s @ c # rest"
    and cnt: "count_list s c = Suc (count_list rest c)" by (rule dropWhile_sep_Cons) blast
  from Suc.prems have n: "n \<le> count_list rest c" "0 < n" using cnt by auto
  have nth: "strings_SplitN c s (Suc (Suc n)) ! Suc i = strings_SplitN c rest (Suc n) ! i"
    using d by simp
  show ?case
  proof (cases i)
    case 0
    from n have "c \<in> set rest" by (metis count_list_0_iff le_0_eq less_not_refl)
    then obtain rest' where d': "dropWhile (\<lambda>x. x \<noteq> c) rest = c # rest'"
      and r: "rest = takeWhile (\<lambda>x. x \<noteq> c) rest @ c # rest'" by (rule dropWhile_sep_Cons) blast
    from n(2) obtain m where "n = Suc m" by (cases n) auto
    with d' have "strings_SplitN c rest (Suc n) ! 0 = takeWhile (\<lambda>x. x \<noteq> c) rest" by simp
    moreover have "s = takeWhile (\<lambda>x. x \<noteq> c) s @ (c # takeWhile (\<lambda>x. x \<noteq> c) rest @ [c]) @ rest'"
      using s r by (metis append.assoc append_Cons append_Nil)
    ultimately show ?thesis using nth 0 unfolding sublist_def by metis
  next
    case (Suc j)
    have "sublist (c # strings_SplitN c rest (Suc n) ! Suc j @ [c]) rest"
      using Suc.IH [of j rest] Suc.prems Suc n by simp
    moreover have "sublist rest s" using s unfolding sublist_def by (metis append_Cons append_Nil append_Nil2 append.assoc)
    ultimately show ?thesis using nth Suc by (metis sublist_order.order_trans)
  qed
qed simp


subsection \<open>Trimming white space\<close>

text \<open>
  \<open>bytes.TrimSpace\<close> removes Unicode white space at both ends.  A white-space rune is one of the
  byte sequences below: the ASCII blanks, U+0085, U+00A0, U+1680, U+2000 to U+200A, U+2028,
  U+2029, U+202F, U+205F and U+3000 in UTF-8.  No sequence is a prefix of another, and UTF-8 is
  self-synchronising from both ends, so removing such sequences one after another is what the
  rune-wise scan does; bytes that are not valid UTF-8 are not white space.
\<close>

definition space_runes :: "string list" where
  "space_runes =
     [[CHR 0x09], [NL], [CHR 0x0B], [CHR 0x0C], [CR], [CHR 0x20],
      [CHR 0xC2, CHR 0x85], [CHR 0xC2, CHR 0xA0], [CHR 0xE1, CHR 0x9A, CHR 0x80],
      [CHR 0xE2, CHR 0x80, CHR 0x80], [CHR 0xE2, CHR 0x80, CHR 0x81],
      [CHR 0xE2, CHR 0x80, CHR 0x82], [CHR 0xE2, CHR 0x80, CHR 0x83],
      [CHR 0xE2, CHR 0x80, CHR 0x84], [CHR 0xE2, CHR 0x80, CHR 0x85],
      [CHR 0xE2, CHR 0x80, CHR 0x86], [CHR 0xE2, CHR 0x80, CHR 0x87],
      [CHR 0xE2, CHR 0x80, CHR 0x88], [CHR 0xE2, CHR 0x80, CHR 0x89],
      [CHR 0xE2, CHR 0x80, CHR 0x8A], [CHR 0xE2, CHR 0x80, CHR 0xA8],
      [CHR 0xE2, CHR 0x80, CHR 0xA9], [CHR 0xE2, CHR 0x80, CHR 0xAF],
      [CHR 0xE2, CHR 0x81, CHR 0x9F], [CHR 0xE3, CHR 0x80, CHR 0x80]]"

text \<open>Remove sequences of \<open>W\<close> from the front as long as one is there.\<close>

function strip :: "string list \<Rightarrow> string \<Rightarrow> string" where
  "strip W s =
     (case find (\<lambda>w. w \<noteq> [] \<and> prefix w s) W of
        None \<Rightarrow> s
      | Some w \<Rightarrow> strip W (drop (length w) s))"
  by pat_completeness auto
termination
  by (relation "measure (length \<circ> snd)")
     (auto simp: find_Some_iff prefix_def)

declare strip.simps [simp del]

definition trim_left :: "string \<Rightarrow> string" where
  "trim_left s = strip space_runes s"

definition trim_right :: "string \<Rightarrow> string" where
  "trim_right s = rev (strip (map rev space_runes) (rev s))"

definition bytes_TrimSpace :: "bytes \<Rightarrow> bytes" where
  "bytes_TrimSpace s = trim_right (trim_left s)"

lemma strip_None: "find (\<lambda>w. w \<noteq> [] \<and> prefix w s) W = None \<Longrightarrow> strip W s = s"
  by (subst strip.simps) simp

lemma strip_Some:
  "find (\<lambda>w. w \<noteq> [] \<and> prefix w s) W = Some w \<Longrightarrow> strip W s = strip W (drop (length w) s)"
  by (subst strip.simps) simp

lemma strip_Nil [simp]: "strip W [] = []"
  by (subst strip.simps) (auto split: option.splits simp: find_Some_iff)

lemma find_cong_pred:
  "(\<And>w. w \<in> set W \<Longrightarrow> P w = Q w) \<Longrightarrow> find P W = find Q W"
  by (induction W) auto

text \<open>A byte that occurs in no sequence stops the stripping, whatever follows it.\<close>

lemma prefix_append_stop:
  "c \<notin> set w \<Longrightarrow> prefix w (y @ c # z) = prefix w y"
  by (auto simp: prefix_append prefix_Cons)

lemma strip_append_stop:
  assumes "\<forall>w \<in> set W. c \<notin> set w"
  shows "strip W (y @ c # z) = strip W y @ c # z"
  using assms
proof (induction W y rule: strip.induct)
  case (1 W y)
  have eq: "find (\<lambda>w. w \<noteq> [] \<and> prefix w (y @ c # z)) W = find (\<lambda>w. w \<noteq> [] \<and> prefix w y) W"
    by (rule find_cong_pred) (use 1(2) prefix_append_stop [of c _ y z] in blast)
  show ?case
  proof (cases "find (\<lambda>w. w \<noteq> [] \<and> prefix w y) W")
    case None
    then show ?thesis using eq by (simp add: strip_None)
  next
    case (Some w)
    then have "length w \<le> length y" by (auto simp: find_Some_iff dest: prefix_length_le)
    then show ?thesis using eq Some 1 by (simp add: strip_Some)
  qed
qed

lemma space_runes_no_colon: "\<forall>w \<in> set space_runes. colon \<notin> set w"
  by (simp add: space_runes_def)

lemma space_runes_no_colon_rev: "\<forall>w \<in> set (map rev space_runes). colon \<notin> set w"
  using space_runes_no_colon by simp

lemma trim_left_colon: "trim_left (y @ colon # z) = trim_left y @ colon # z"
  by (simp add: trim_left_def strip_append_stop space_runes_no_colon)

lemma trim_right_colon: "trim_right (y @ colon # z) = y @ colon # trim_right z"
  using strip_append_stop [OF space_runes_no_colon_rev, of "rev z" "rev y"]
  by (simp add: trim_right_def)

lemma TrimSpace_colon: "bytes_TrimSpace (y @ colon # z) = trim_left y @ colon # trim_right z"
  by (simp add: bytes_TrimSpace_def trim_left_colon trim_right_colon)

text \<open>Stripping only removes a front part, so trimming keeps the number of colons.\<close>

lemma strip_suffix: "suffix (strip W s) s"
proof (induction W s rule: strip.induct)
  case (1 W s)
  show ?case
  proof (cases "find (\<lambda>w. w \<noteq> [] \<and> prefix w s) W")
    case (Some w)
    with 1 have "suffix (strip W (drop (length w) s)) (drop (length w) s)" by blast
    with Some show ?thesis by (metis strip_Some suffix_drop suffix_order.order_trans)
  qed (simp add: strip_None)
qed

lemma count_list_rev [simp]: "count_list (rev s) c = count_list s c"
  by (induction s) auto

lemma strip_no_byte: "count_list s c = 0 \<Longrightarrow> count_list (strip W s) c = 0"
  using strip_suffix [of W s] by (metis add_is_0 count_list_append suffix_def)

lemma first_occurrence:
  assumes "count_list s c \<noteq> 0"
  obtains y z where "s = y @ c # z" "count_list y c = 0"
  using assms by (metis count_list_0_iff split_list_first)

lemma count_strip_stop:
  assumes "\<forall>w \<in> set W. c \<notin> set w" shows "count_list (strip W s) c = count_list s c"
proof (cases "count_list s c = 0")
  case False
  then obtain y z where s: "s = y @ c # z" and y: "count_list y c = 0" by (rule first_occurrence)
  have "strip W s = strip W y @ c # z" using s strip_append_stop [OF assms] by simp
  with s y strip_no_byte [OF y] show ?thesis by (simp add: count_list_append)
qed (simp add: strip_no_byte)

lemma count_trim_left: "count_list (trim_left s) colon = count_list s colon"
  by (simp add: trim_left_def count_strip_stop space_runes_no_colon)

lemma count_trim_right: "count_list (trim_right s) colon = count_list s colon"
  by (simp only: trim_right_def count_list_rev count_strip_stop [OF space_runes_no_colon_rev])

lemma count_TrimSpace [simp]: "count_list (bytes_TrimSpace s) colon = count_list s colon"
  by (simp only: bytes_TrimSpace_def count_trim_right count_trim_left)

text \<open>Cutting at the \<open>n\<close>-th separator.\<close>

lemma split_at_count:
  "n < count_list s c \<Longrightarrow> \<exists>y z. s = y @ c # z \<and> count_list y c = n"
proof (induction n arbitrary: s)
  case 0
  then have "count_list s c \<noteq> 0" by simp
  then obtain y z where "s = y @ c # z" "count_list y c = 0" by (rule first_occurrence)
  then show ?case by blast
next
  case (Suc n)
  then have "count_list s c \<noteq> 0" by simp
  then obtain y z where s: "s = y @ c # z" "count_list y c = 0" by (rule first_occurrence)
  with Suc.prems have "n < count_list z c" by (simp add: count_list_append)
  then obtain y' z' where "z = y' @ c # z'" "count_list y' c = n" using Suc.IH by blast
  with s have "s = (y @ c # y') @ c # z' \<and> count_list (y @ c # y') c = Suc n"
    by (simp add: count_list_append)
  then show ?case by (intro exI)
qed

text \<open>Trimming a line and a prefix of it with \<open>n\<close> colons: the same first \<open>n\<close> columns.\<close>

lemma TrimSpace_truncate:
  assumes "n < count_list p colon"
  obtains u t t' where "bytes_TrimSpace p = u @ t" "bytes_TrimSpace (p @ q) = u @ t'"
    "count_list u colon = Suc n"
proof -
  obtain y z where p: "p = y @ colon # z" and y: "count_list y colon = n"
    using split_at_count [OF assms] by blast
  show thesis
    by (rule that [of "trim_left y @ [colon]" "trim_right z" "trim_right (z @ q)"])
       (simp_all add: p y TrimSpace_colon count_list_append count_trim_left)
qed

text \<open>A one-byte blank that occurs in no other sequence can be dropped from the end.\<close>

lemma find_stop_byte:
  assumes "[c] \<in> set W" and "\<forall>w \<in> set W. c \<in> set w \<longrightarrow> w = [c]"
  shows "find (\<lambda>w. w \<noteq> [] \<and> prefix w (c # s)) W = Some [c]"
proof (cases "find (\<lambda>w. w \<noteq> [] \<and> prefix w (c # s)) W")
  case None
  with assms(1) show ?thesis by (auto simp: find_None_iff)
next
  case (Some w)
  then have w: "w \<in> set W" "w \<noteq> []" "prefix w (c # s)" by (auto simp: find_Some_iff)
  from w(2,3) have "c \<in> set w" by (cases w) simp_all
  with w(1) assms(2) have "w = [c]" by blast
  with Some show ?thesis by simp
qed

lemma strip_Cons_stop_byte:
  assumes "[c] \<in> set W" and "\<forall>w \<in> set W. c \<in> set w \<longrightarrow> w = [c]"
  shows "strip W (c # s) = strip W s"
  using find_stop_byte [OF assms] by (simp add: strip_Some)

lemma prefix_snoc_stop_byte:
  assumes "c \<in> set w \<longrightarrow> w = [c]" and "y \<noteq> []"
  shows "(w \<noteq> [] \<and> prefix w (y @ [c])) = (w \<noteq> [] \<and> prefix w y)"
proof (cases "c \<in> set w")
  case True
  with assms show ?thesis by (cases y) auto
next
  case False
  then show ?thesis by auto
qed

lemma strip_snoc_stop_byte:
  assumes "[c] \<in> set W" and "\<forall>w \<in> set W. c \<in> set w \<longrightarrow> w = [c]"
  shows "strip W (y @ [c]) = (if strip W y = [] then [] else strip W y @ [c])"
  using assms
proof (induction W y rule: strip.induct)
  case (1 W y)
  show ?case
  proof (cases "y = []")
    case True
    with strip_Cons_stop_byte [OF 1(2,3), of "[]"] show ?thesis by simp
  next
    case False
    have eq: "find (\<lambda>w. w \<noteq> [] \<and> prefix w (y @ [c])) W = find (\<lambda>w. w \<noteq> [] \<and> prefix w y) W"
      by (rule find_cong_pred) (rule prefix_snoc_stop_byte [OF _ False], use 1(3) in simp)
    show ?thesis
    proof (cases "find (\<lambda>w. w \<noteq> [] \<and> prefix w y) W")
      case None
      with eq False show ?thesis by (simp add: strip_None)
    next
      case (Some w)
      then have le: "length w \<le> length y" by (auto simp: find_Some_iff dest: prefix_length_le)
      have "strip W (y @ [c]) = strip W (drop (length w) y @ [c])"
        using strip_Some [of "y @ [c]" W w] eq Some le by simp
      also have "\<dots> = (if strip W (drop (length w) y) = [] then []
          else strip W (drop (length w) y) @ [c])"
        by (rule 1(1) [OF Some 1(2,3)])
      finally show ?thesis using strip_Some [OF Some] by simp
    qed
  qed
qed

lemma CR_space_rune: "[CR] \<in> set space_runes"
  "\<forall>w \<in> set space_runes. CR \<in> set w \<longrightarrow> w = [CR]"
  by (simp_all add: space_runes_def)

lemma CR_space_rune_rev: "[CR] \<in> set (map rev space_runes)"
  "\<forall>w \<in> set (map rev space_runes). CR \<in> set w \<longrightarrow> w = [CR]"
  by (simp_all add: space_runes_def)

lemma TrimSpace_snoc_CR [simp]: "bytes_TrimSpace (s @ [CR]) = bytes_TrimSpace s"
proof -
  have "trim_right (t @ [CR]) = trim_right t" for t
    by (simp add: trim_right_def strip_Cons_stop_byte [OF CR_space_rune_rev])
  moreover have "trim_left (s @ [CR]) = (if trim_left s = [] then [] else trim_left s @ [CR])"
    unfolding trim_left_def by (rule strip_snoc_stop_byte [OF CR_space_rune])
  ultimately show ?thesis by (simp add: bytes_TrimSpace_def)
qed

lemma TrimSpace_Nil [simp]: "bytes_TrimSpace [] = []"
  by (simp add: bytes_TrimSpace_def trim_left_def trim_right_def)

text \<open>A comment keeps its first character.\<close>

lemma TrimSpace_comment:
  assumes "colon \<in> set s"
  shows "bytes_TrimSpace (CHR ''#'' # s) \<noteq> [] \<and> hd (bytes_TrimSpace (CHR ''#'' # s)) = CHR ''#''"
proof -
  obtain y z where "s = y @ colon # z" using assms by (meson split_list)
  then have "bytes_TrimSpace (CHR ''#'' # s) = trim_left (CHR ''#'' # y) @ colon # trim_right z"
    using TrimSpace_colon [of "CHR ''#'' # y" z] by simp
  moreover have "\<forall>w \<in> set space_runes. CHR ''#'' \<notin> set w" by code_simp
  then have "trim_left (CHR ''#'' # y) = CHR ''#'' # y"
    using strip_append_stop [of space_runes "CHR ''#''" "[]" y] by (simp add: trim_left_def)
  ultimately show ?thesis by simp
qed

end
