(* ===== verification/Go_Strconv.thy ===== *)
theory Go_Strconv
  imports Go_Strings
begin

text \<open>
  Decimal conversion of Go's \<open>strconv\<close>: \<open>Itoa\<close> and \<open>FormatInt(_, 10)\<close> print, \<open>Atoi\<close> and
  \<open>ParseInt(_, 10, 0)\<close> read back.  Both readers accept a sign, need at least one digit, accept
  digits only and reject values outside the 64-bit range; the scanner looks at no more than
  whether they failed, so their error is \<open>None\<close>.
\<close>

definition digit_char :: "nat \<Rightarrow> char" where
  "digit_char n = char_of (48 + n)"

definition is_digit :: "char \<Rightarrow> bool" where
  "is_digit c \<longleftrightarrow> 48 \<le> (of_char c :: nat) \<and> (of_char c :: nat) \<le> 57"

definition digit_val :: "char \<Rightarrow> nat" where
  "digit_val c = of_char c - 48"

fun format_nat :: "nat \<Rightarrow> string" where
  "format_nat n =
     (if n < 10 then [digit_char n] else format_nat (n div 10) @ [digit_char (n mod 10)])"

declare format_nat.simps [simp del]

definition strconv_Itoa :: "int \<Rightarrow> string" where
  "strconv_Itoa i = (if i < 0 then CHR ''-'' # format_nat (nat (- i)) else format_nat (nat i))"

definition parse_digits :: "string \<Rightarrow> nat" where
  "parse_digits ds = foldl (\<lambda>a c. 10 * a + digit_val c) 0 ds"

definition in_int64 :: "int \<Rightarrow> bool" where
  "in_int64 v \<longleftrightarrow> - 9223372036854775808 \<le> v \<and> v \<le> 9223372036854775807"

text \<open>The sign, when there is one, and the rest.\<close>

fun cut_sign :: "string \<Rightarrow> bool \<times> string" where
  "cut_sign [] = (False, [])"
| "cut_sign (c # cs) =
     (if c = CHR ''-'' then (True, cs) else if c = CHR ''+'' then (False, cs) else (False, c # cs))"

definition strconv_Atoi :: "string \<Rightarrow> int option" where
  "strconv_Atoi s =
     (case cut_sign s of (neg, ds) \<Rightarrow>
        if ds = [] \<or> \<not> list_all is_digit ds then None
        else let v = (if neg then - int (parse_digits ds) else int (parse_digits ds))
             in if in_int64 v then Some v else None)"

lemma of_char_digit_char: "n < 10 \<Longrightarrow> of_char (digit_char n) = 48 + n"
  by (simp add: digit_char_def)

lemma is_digit_digit_char [simp]: "n < 10 \<Longrightarrow> is_digit (digit_char n)"
  by (simp add: is_digit_def of_char_digit_char)

lemma digit_val_digit_char [simp]: "n < 10 \<Longrightarrow> digit_val (digit_char n) = n"
  by (simp add: digit_val_def of_char_digit_char)

lemma format_nat_nonempty [simp]: "format_nat n \<noteq> []"
  by (subst format_nat.simps) simp

lemma format_nat_digits [simp]: "list_all is_digit (format_nat n)"
proof (induction n rule: format_nat.induct)
  case (1 n)
  then show ?case by (subst format_nat.simps) simp
qed

lemma parse_format_nat [simp]: "parse_digits (format_nat n) = n"
proof (induction n rule: format_nat.induct)
  case (1 n)
  show ?case
  proof (cases "n < 10")
    case True
    then show ?thesis by (subst format_nat.simps) (simp add: parse_digits_def)
  next
    case False
    with 1 have "parse_digits (format_nat (n div 10)) = n div 10" by simp
    with False show ?thesis by (subst format_nat.simps) (simp add: parse_digits_def)
  qed
qed

lemma digit_not_sign: "is_digit c \<Longrightarrow> c \<noteq> CHR ''-'' \<and> c \<noteq> CHR ''+'' \<and> c \<noteq> colon \<and> c \<noteq> slash \<and> c \<noteq> CHR ''.''"
  by (auto simp: is_digit_def)

lemma cut_sign_digits: "ds \<noteq> [] \<Longrightarrow> list_all is_digit ds \<Longrightarrow> cut_sign ds = (False, ds)"
  by (cases ds) (auto dest: digit_not_sign)

text \<open>The reader undoes the printer on every 64-bit value.\<close>

lemma Atoi_Itoa [simp]: "in_int64 i \<Longrightarrow> strconv_Atoi (strconv_Itoa i) = Some i"
  by (auto simp: strconv_Atoi_def strconv_Itoa_def cut_sign_digits)

lemma Itoa_inj:
  assumes "in_int64 i" "in_int64 j" "strconv_Itoa i = strconv_Itoa j" shows "i = j"
  using assms by (metis Atoi_Itoa option.inject)

lemma Atoi_range: "strconv_Atoi s = Some v \<Longrightarrow> in_int64 v"
  by (auto simp: strconv_Atoi_def Let_def split: prod.splits if_splits)

lemma Atoi_Nil [simp]: "strconv_Atoi [] = None"
  by (simp add: strconv_Atoi_def)

lemma Itoa_chars:
  "c \<in> set (strconv_Itoa i) \<Longrightarrow> is_digit c \<or> c = CHR ''-''"
  using format_nat_digits by (auto simp: strconv_Itoa_def list_all_iff split: if_splits)

lemma Itoa_nonempty [simp]: "strconv_Itoa i \<noteq> []"
  by (simp add: strconv_Itoa_def)

lemma Itoa_no_slash [simp]: "slash \<notin> set (strconv_Itoa i)" "CHR ''.'' \<notin> set (strconv_Itoa i)"
  using Itoa_chars digit_not_sign by fastforce+

end
