(* ===== verification/Go_Json.thy ===== *)
theory Go_Json
  imports Go_Strconv
begin

text \<open>
  What the replies use of Go's \<open>encoding/json\<close> and \<open>encoding/base64\<close>: the tree of a value, its
  compact text with the default HTML escaping, and the text of a byte slice.  A reader of that
  text is the specification the writer is checked against: it undoes the writer on every value,
  up to the bytes that are no UTF-8.
\<close>

subsection \<open>Runes\<close>

text \<open>
  One step of \<open>utf8.DecodeRuneInString\<close>: a byte below 128, the bytes of a longer code point, or a
  byte that starts no code point.
\<close>

datatype rune = Ascii char | Wide bytes | BadByte

abbreviation char_nat :: "char \<Rightarrow> nat" where "char_nat c \<equiv> of_char c"

definition in_range :: "nat \<Rightarrow> nat \<Rightarrow> char \<Rightarrow> bool" where
  "in_range lo hi c \<longleftrightarrow> lo \<le> char_nat c \<and> char_nat c \<le> hi"

text \<open>
  The ranges that the bytes after the first byte of a longer code point have to be in (the table
  \<open>acceptRanges\<close> of \<open>unicode/utf8\<close>); empty for a byte that starts none.
\<close>

definition tail_ranges :: "char \<Rightarrow> (nat \<times> nat) list" where
  "tail_ranges b =
     (let n = char_nat b; cont = (0x80, 0xBF)
      in if n < 0xC2 then []
         else if n < 0xE0 then [cont]
         else if n = 0xE0 then [(0xA0, 0xBF), cont]
         else if n = 0xED then [(0x80, 0x9F), cont]
         else if n < 0xF0 then [cont, cont]
         else if n = 0xF0 then [(0x90, 0xBF), cont, cont]
         else if n < 0xF4 then [cont, cont, cont]
         else if n = 0xF4 then [(0x80, 0x8F), cont, cont]
         else [])"

fun accepts :: "(nat \<times> nat) list \<Rightarrow> bytes \<Rightarrow> bool" where
  "accepts [] s = True"
| "accepts (r # rs) [] = False"
| "accepts (r # rs) (c # s) = (in_range (fst r) (snd r) c \<and> accepts rs s)"

text \<open>How many bytes after \<open>b\<close> belong to its code point, 0 when there is none.\<close>

definition wide_size :: "char \<Rightarrow> bytes \<Rightarrow> nat" where
  "wide_size b s = (if accepts (tail_ranges b) s then length (tail_ranges b) else 0)"

function runes :: "bytes \<Rightarrow> rune list" where
  "runes [] = []"
| "runes (b # s) =
     (if char_nat b < 128 then Ascii b # runes s
      else if wide_size b s = 0 then BadByte # runes s
      else Wide (b # take (wide_size b s) s) # runes (drop (wide_size b s) s))"
  by pat_completeness auto
termination by (relation "measure length") auto

definition replacement :: bytes where
  "replacement = [CHR 0xEF, CHR 0xBF, CHR 0xBD]"

fun rune_text :: "rune \<Rightarrow> bytes" where
  "rune_text (Ascii c) = [c]"
| "rune_text (Wide bs) = bs"
| "rune_text BadByte = replacement"

text \<open>The string with the replacement character for each byte that is no UTF-8.\<close>

definition to_valid :: "bytes \<Rightarrow> bytes" where
  "to_valid s = concat (map rune_text (runes s))"

definition valid_utf8 :: "bytes \<Rightarrow> bool" where
  "valid_utf8 s \<longleftrightarrow> BadByte \<notin> set (runes s)"

text \<open>What \<open>runes\<close> can give.\<close>

fun wf_rune :: "rune \<Rightarrow> bool" where
  "wf_rune (Ascii c) \<longleftrightarrow> char_nat c < 128"
| "wf_rune (Wide bs) \<longleftrightarrow> bs \<noteq> [] \<and> (\<forall>c \<in> set bs. 128 \<le> char_nat c)"
| "wf_rune BadByte \<longleftrightarrow> True"

lemma tail_ranges_high: "r \<in> set (tail_ranges b) \<Longrightarrow> 128 \<le> fst r"
  by (auto simp: tail_ranges_def Let_def split: if_splits)

lemma accepts_high:
  "accepts rs s \<Longrightarrow> \<forall>r \<in> set rs. 128 \<le> fst r \<Longrightarrow> c \<in> set (take (length rs) s) \<Longrightarrow> 128 \<le> char_nat c"
  by (induction rs s rule: accepts.induct) (auto simp: in_range_def)

lemma wide_size_bytes: "c \<in> set (take (wide_size b s) s) \<Longrightarrow> 128 \<le> char_nat c"
  using accepts_high [of "tail_ranges b" s c] tail_ranges_high by (auto simp: wide_size_def split: if_splits)

lemma wf_runes: "r \<in> set (runes s) \<Longrightarrow> wf_rune r"
proof (induction s rule: runes.induct)
  case (2 b s)
  then show ?case using wide_size_bytes [of _ b s] by (auto split: if_splits)
qed simp

lemma to_valid_id: "valid_utf8 s \<Longrightarrow> to_valid s = s"
proof (induction s rule: runes.induct)
  case (2 b s)
  then show ?case
    by (auto simp: to_valid_def valid_utf8_def split: if_splits)
qed (simp add: to_valid_def)

lemma runes_ascii: "\<forall>c \<in> set s. char_nat c < 128 \<Longrightarrow> runes s = map Ascii s"
  by (induction s) auto

lemma to_valid_ascii: "\<forall>c \<in> set s. char_nat c < 128 \<Longrightarrow> to_valid s = s"
  by (rule to_valid_id) (auto simp: valid_utf8_def runes_ascii)


subsection \<open>Strings\<close>

definition hex_digit :: "nat \<Rightarrow> char" where
  "hex_digit n = ''0123456789abcdef'' ! n"

definition dquote :: char where "dquote = CHR 0x22"
definition backslash :: char where "backslash = CHR 0x5C"

text \<open>The loop body of \<open>appendString\<close> with \<open>escapeHTML\<close>.\<close>

definition html_safe :: "char \<Rightarrow> bool" where
  "html_safe c \<longleftrightarrow> 32 \<le> char_nat c \<and> char_nat c < 128 \<and> c \<notin> {dquote, backslash, CHR ''<'', CHR ''>'', CHR ''&''}"

definition escape_char :: "char \<Rightarrow> bytes" where
  "escape_char c =
     (if html_safe c then [c]
      else if c = backslash \<or> c = dquote then [backslash, c]
      else if c = CHR 0x08 then [backslash, CHR ''b'']
      else if c = CHR 0x0C then [backslash, CHR ''f'']
      else if c = CHR 0x0A then [backslash, CHR ''n'']
      else if c = CHR 0x0D then [backslash, CHR ''r'']
      else if c = CHR 0x09 then [backslash, CHR ''t'']
      else backslash # ''u00'' @ [hex_digit (char_nat c div 16), hex_digit (char_nat c mod 16)])"

definition line_separator :: bytes where "line_separator = [CHR 0xE2, CHR 0x80, CHR 0xA8]"
definition paragraph_separator :: bytes where "paragraph_separator = [CHR 0xE2, CHR 0x80, CHR 0xA9]"

fun escape_rune :: "rune \<Rightarrow> bytes" where
  "escape_rune (Ascii c) = escape_char c"
| "escape_rune (Wide bs) =
     (if bs = line_separator then backslash # ''u2028''
      else if bs = paragraph_separator then backslash # ''u2029''
      else bs)"
| "escape_rune BadByte = backslash # ''ufffd''"

definition json_escape :: "bytes \<Rightarrow> bytes" where
  "json_escape s = concat (map escape_rune (runes s))"

definition json_quote :: "bytes \<Rightarrow> bytes" where
  "json_quote s = dquote # json_escape s @ [dquote]"


subsection \<open>Reading strings back\<close>

definition hex_val :: "char \<Rightarrow> nat option" where
  "hex_val c =
     (if is_digit c then Some (char_nat c - 48)
      else if in_range 97 102 c then Some (char_nat c - 87)
      else if in_range 65 70 c then Some (char_nat c - 55)
      else None)"

text \<open>UTF-8 of a code point of the basic plane; surrogates are not read.\<close>

definition utf8_bmp :: "nat \<Rightarrow> bytes option" where
  "utf8_bmp n =
     (if n < 0x80 then Some [char_of n]
      else if n < 0x800 then Some [char_of (0xC0 + n div 64), char_of (0x80 + n mod 64)]
      else if 0xD800 \<le> n \<and> n < 0xE000 then None
      else if n < 0x10000 then
        Some [char_of (0xE0 + n div 4096), char_of (0x80 + n div 64 mod 64), char_of (0x80 + n mod 64)]
      else None)"

definition read_u :: "char \<Rightarrow> char \<Rightarrow> char \<Rightarrow> char \<Rightarrow> bytes option" where
  "read_u h3 h2 h1 h0 =
     (case (hex_val h3, hex_val h2, hex_val h1, hex_val h0) of
        (Some a, Some b, Some c, Some d) \<Rightarrow> utf8_bmp (((a * 16 + b) * 16 + c) * 16 + d)
      | _ \<Rightarrow> None)"

definition simple_escapes :: "(char \<times> char) list" where
  "simple_escapes =
     [(dquote, dquote), (backslash, backslash), (slash, slash), (CHR ''b'', CHR 0x08),
      (CHR ''f'', CHR 0x0C), (CHR ''n'', CHR 0x0A), (CHR ''r'', CHR 0x0D), (CHR ''t'', CHR 0x09)]"

text \<open>The string up to its closing quote, and what follows.\<close>

definition prepend :: "bytes \<Rightarrow> (bytes \<times> bytes) option \<Rightarrow> (bytes \<times> bytes) option" where
  "prepend t r = map_option (apfst ((@) t)) r"

fun read_string :: "bytes \<Rightarrow> (bytes \<times> bytes) option" where
  "read_string [] = None"
| "read_string (c # s) =
     (if c = dquote then Some ([], s)
      else if c = backslash then
        (case s of
           [] \<Rightarrow> None
         | e # s1 \<Rightarrow>
             (if e = CHR ''u'' then
                (case s1 of
                   h3 # h2 # h1 # h0 # s2 \<Rightarrow>
                     (case read_u h3 h2 h1 h0 of None \<Rightarrow> None | Some t \<Rightarrow> prepend t (read_string s2))
                 | _ \<Rightarrow> None)
              else (case map_of simple_escapes e of
                      None \<Rightarrow> None
                    | Some x \<Rightarrow> prepend [x] (read_string s1))))
      else if char_nat c < 32 then None
      else prepend [c] (read_string s))"

lemma prepend_prepend [simp]: "prepend t (prepend u r) = prepend (t @ u) r"
  by (cases r) (auto simp: prepend_def)

lemma prepend_Some [simp]: "prepend t (Some (u, r)) = Some (t @ u, r)"
  by (simp add: prepend_def)

lemma prepend_Nil [simp]: "prepend [] r = r"
  by (cases r) (auto simp: prepend_def)

text \<open>Reading an escaped character gives the character; 128 cases that evaluate.\<close>

definition ascii_chars :: "char list" where "ascii_chars = map char_of [0 ..< (128 :: nat)]"

lemma ascii_charsI: "char_nat c < 128 \<Longrightarrow> c \<in> set ascii_chars"
proof -
  assume "char_nat c < 128"
  moreover have "c = char_of (char_nat c)" by simp
  ultimately show ?thesis by (metis ascii_chars_def atLeastLessThan_iff image_eqI list.set_map set_upt zero_le)
qed

fun reads_as :: "bytes \<Rightarrow> char \<Rightarrow> bool" where
  "reads_as [x] c = (x = c \<and> x \<noteq> dquote \<and> x \<noteq> backslash \<and> 32 \<le> char_nat x)"
| "reads_as [b, e] c = (b = backslash \<and> e \<noteq> CHR ''u'' \<and> map_of simple_escapes e = Some c)"
| "reads_as [b, u, h3, h2, h1, h0] c = (b = backslash \<and> u = CHR ''u'' \<and> read_u h3 h2 h1 h0 = Some [c])"
| "reads_as _ c = False"

lemma escapes_read_back: "\<forall>c \<in> set ascii_chars. reads_as (escape_char c) c"
  by code_simp

lemma backslash_not_dquote [simp]: "backslash \<noteq> dquote" "dquote \<noteq> backslash"
  by (simp_all add: backslash_def dquote_def)

lemma read_escape_char: "reads_as xs c \<Longrightarrow> read_string (xs @ t) = prepend [c] (read_string t)"
  by (cases "(xs, c)" rule: reads_as.cases) simp_all

lemma high_not_special: "128 \<le> char_nat c \<Longrightarrow> c \<noteq> dquote \<and> c \<noteq> backslash \<and> \<not> char_nat c < 32"
  by (auto simp: dquote_def backslash_def)

lemma read_high_bytes:
  "\<forall>c \<in> set bs. 128 \<le> char_nat c \<Longrightarrow> read_string (bs @ t) = prepend bs (read_string t)"
  by (induction bs) (auto dest: high_not_special)

lemma read_u_separators:
  "read_u CHR ''2'' CHR ''0'' CHR ''2'' CHR ''8'' = Some line_separator"
  "read_u CHR ''2'' CHR ''0'' CHR ''2'' CHR ''9'' = Some paragraph_separator"
  "read_u CHR ''f'' CHR ''f'' CHR ''f'' CHR ''d'' = Some replacement"
  by (simp_all add: read_u_def hex_val_def is_digit_def in_range_def utf8_bmp_def line_separator_def
      paragraph_separator_def replacement_def char_of_eq_iff)

lemma read_escape_rune:
  assumes "wf_rune r"
  shows "read_string (escape_rune r @ t) = prepend (rune_text r) (read_string t)"
proof (cases r)
  case (Ascii c)
  then show ?thesis
    using assms escapes_read_back ascii_charsI [of c] by (simp add: read_escape_char)
next
  case (Wide bs)
  then show ?thesis using assms by (auto simp: read_high_bytes read_u_separators)
next
  case BadByte
  then show ?thesis by (simp add: read_u_separators)
qed

lemma read_json_quote:
  "read_string (json_escape s @ dquote # t) = Some (to_valid s, t)"
proof -
  have "\<forall>r \<in> set rs. wf_rune r \<Longrightarrow>
      read_string (concat (map escape_rune rs) @ dquote # t) = Some (concat (map rune_text rs), t)" for rs
    by (induction rs) (auto simp: read_escape_rune)
  then show ?thesis using wf_runes by (simp add: json_escape_def to_valid_def)
qed


subsection \<open>Values\<close>

datatype json =
    JNull
  | JBool bool
  | JInt int
  | JStr bytes
  | JArr "json list"
  | JObj "(bytes \<times> json) list"

fun json_text :: "json \<Rightarrow> bytes" where
  "json_text JNull = ''null''"
| "json_text (JBool b) = (if b then ''true'' else ''false'')"
| "json_text (JInt i) = strconv_Itoa i"
| "json_text (JStr s) = json_quote s"
| "json_text (JArr vs) = CHR ''['' # strings_Join (map json_text vs) '','' @ '']''"
| "json_text (JObj kvs) =
     CHR ''{'' # strings_Join (map (\<lambda>(k, v). json_quote k @ colon # json_text v) kvs) '','' @ ''}''"

text \<open>The value with the strings as they can be read back.\<close>

fun json_valid_text :: "json \<Rightarrow> json" where
  "json_valid_text (JStr s) = JStr (to_valid s)"
| "json_valid_text (JArr vs) = JArr (map json_valid_text vs)"
| "json_valid_text (JObj kvs) = JObj (map (\<lambda>(k, v). (to_valid k, json_valid_text v)) kvs)"
| "json_valid_text v = v"

text \<open>The number of steps that the reader takes for the text of a value.\<close>

fun json_fuel :: "json \<Rightarrow> nat" where
  "json_fuel (JArr vs) = Suc (sum_list (map (\<lambda>v. Suc (json_fuel v)) vs))"
| "json_fuel (JObj kvs) = Suc (sum_list (map (\<lambda>(k, v). Suc (json_fuel v)) kvs))"
| "json_fuel v = 1"

text \<open>
  The reader of compact JSON.  Every call spends one unit of fuel; a text has at least as many
  bytes as its reading has steps.
\<close>

definition read_literal :: "bytes \<Rightarrow> json \<Rightarrow> bytes \<Rightarrow> (json \<times> bytes) option" where
  "read_literal lit v s = (if strings_HasPrefix s lit then Some (v, drop (length lit) s) else None)"

definition read_number :: "bytes \<Rightarrow> (json \<times> bytes) option" where
  "read_number s =
     (let (neg, t) = (if s \<noteq> [] \<and> hd s = CHR ''-'' then (True, tl s) else (False, s));
          ds = takeWhile is_digit t;
          n = int (parse_digits ds)
      in if ds = [] then None else Some (JInt (if neg then - n else n), dropWhile is_digit t))"

fun read_value :: "nat \<Rightarrow> bytes \<Rightarrow> (json \<times> bytes) option"
  and read_elems :: "nat \<Rightarrow> bytes \<Rightarrow> (json list \<times> bytes) option"
  and read_members :: "nat \<Rightarrow> bytes \<Rightarrow> ((bytes \<times> json) list \<times> bytes) option" where
  "read_value 0 s = None"
| "read_value (Suc n) s =
     (case s of
        [] \<Rightarrow> None
      | c # t \<Rightarrow>
          if c = dquote then map_option (apfst JStr) (read_string t)
          else if c = CHR ''['' then
            (if t \<noteq> [] \<and> hd t = CHR '']'' then Some (JArr [], tl t) else map_option (apfst JArr) (read_elems n t))
          else if c = CHR ''{'' then
            (if t \<noteq> [] \<and> hd t = CHR ''}'' then Some (JObj [], tl t) else map_option (apfst JObj) (read_members n t))
          else if c = CHR ''n'' then read_literal ''null'' JNull s
          else if c = CHR ''t'' then read_literal ''true'' (JBool True) s
          else if c = CHR ''f'' then read_literal ''false'' (JBool False) s
          else read_number s)"
| "read_elems 0 s = None"
| "read_elems (Suc n) s =
     (case read_value n s of
        Some (v, c # t) \<Rightarrow>
          if c = CHR '']'' then Some ([v], t)
          else if c = CHR '','' then map_option (apfst ((#) v)) (read_elems n t)
          else None
      | _ \<Rightarrow> None)"
| "read_members 0 s = None"
| "read_members (Suc n) s =
     (case s of
        q # t \<Rightarrow>
          (if q \<noteq> dquote then None
           else (case read_string t of
              Some (k, c1 # t1) \<Rightarrow>
                if c1 \<noteq> colon then None
                else (case read_value n t1 of
                   Some (v, c # t2) \<Rightarrow>
                     if c = CHR ''}'' then Some ([(k, v)], t2)
                     else if c = CHR '','' then map_option (apfst ((#) (k, v))) (read_members n t2)
                     else None
                 | _ \<Rightarrow> None)
            | _ \<Rightarrow> None))
      | [] \<Rightarrow> None)"

text \<open>A whole document: one value and the newline of the encoder.\<close>

definition json_read :: "bytes \<Rightarrow> json option" where
  "json_read s =
     (case read_value (length s) s of
        Some (v, rest) \<Rightarrow> if rest = [] \<or> rest = [NL] then Some v else None
      | None \<Rightarrow> None)"

subsection \<open>The reader undoes the writer\<close>

definition ends_number :: "bytes \<Rightarrow> bool" where
  "ends_number rest \<longleftrightarrow> rest = [] \<or> \<not> is_digit (hd rest)"

lemma ends_number_simps [simp]:
  "ends_number []" "ends_number (CHR '','' # s)" "ends_number (CHR '']'' # s)" "ends_number (CHR ''}'' # s)"
  "ends_number (NL # s)"
  by (simp_all add: ends_number_def is_digit_def)

lemma takeWhile_digits:
  assumes "list_all is_digit ds" "ends_number rest"
  shows "takeWhile is_digit (ds @ rest) = ds \<and> dropWhile is_digit (ds @ rest) = rest"
  using assms by (cases rest) (auto simp: list_all_iff ends_number_def takeWhile_append2 dropWhile_append2)

lemma format_nat_head: "\<exists>c cs. format_nat n = c # cs \<and> is_digit c"
  using format_nat_digits [of n] by (cases "format_nat n") auto

lemma read_number_Itoa:
  assumes "ends_number rest"
  shows "read_number (strconv_Itoa i @ rest) = Some (JInt i, rest)"
proof -
  obtain c cs where "format_nat (nat i) = c # cs" "is_digit c" using format_nat_head by blast
  then have "hd (format_nat (nat i) @ rest) \<noteq> CHR ''-''" by (auto dest: digit_not_sign)
  then show ?thesis
    using takeWhile_digits [OF format_nat_digits assms]
    by (auto simp: read_number_def strconv_Itoa_def Let_def)
qed

lemma Itoa_head: "\<exists>c cs. strconv_Itoa i = c # cs \<and> (is_digit c \<or> c = CHR ''-'')"
  using Itoa_chars [of _ i] by (cases "strconv_Itoa i") auto

lemma digit_or_minus_first:
  "is_digit c \<or> c = CHR ''-'' \<Longrightarrow>
     c \<noteq> dquote \<and> c \<noteq> CHR ''['' \<and> c \<noteq> CHR ''{'' \<and> c \<noteq> CHR '']'' \<and> c \<noteq> CHR ''}'' \<and>
     c \<noteq> CHR ''n'' \<and> c \<noteq> CHR ''t'' \<and> c \<noteq> CHR ''f''"
  by (auto simp: is_digit_def dquote_def)

lemma read_value_number:
  assumes "ends_number rest"
  shows "read_value (Suc n) (strconv_Itoa i @ rest) = Some (JInt i, rest)"
proof -
  obtain c cs where "strconv_Itoa i = c # cs" "is_digit c \<or> c = CHR ''-''"
    using Itoa_head [of i] by auto
  with digit_or_minus_first [of c] read_number_Itoa [OF assms, of i] show ?thesis by simp
qed

lemma dquote_neq [simp]: "dquote \<noteq> CHR '']''" "dquote \<noteq> CHR ''}''" "dquote \<noteq> CHR ''[''" "dquote \<noteq> CHR ''{''"
  "CHR ''['' \<noteq> dquote" "CHR ''{'' \<noteq> dquote" "CHR ''n'' \<noteq> dquote" "CHR ''t'' \<noteq> dquote" "CHR ''f'' \<noteq> dquote"
  by (simp_all add: dquote_def)

lemma json_text_head: "\<exists>c cs. json_text v = c # cs \<and> c \<noteq> CHR '']''"
  using Itoa_head [of "case v of JInt i \<Rightarrow> i"] digit_or_minus_first
  by (cases v) (auto simp: json_quote_def)

definition reads_back :: "json \<Rightarrow> bool" where
  "reads_back v \<longleftrightarrow>
     (\<forall>n rest. json_fuel v \<le> n \<longrightarrow> ends_number rest \<longrightarrow>
        read_value n (json_text v @ rest) = Some (json_valid_text v, rest))"

lemma reads_backD:
  "reads_back v \<Longrightarrow> json_fuel v \<le> n \<Longrightarrow> ends_number rest \<Longrightarrow>
     read_value n (json_text v @ rest) = Some (json_valid_text v, rest)"
  by (simp add: reads_back_def)

lemma read_elems_text:
  assumes "\<forall>v \<in> set vs. reads_back v" "vs \<noteq> []" "(\<Sum>v\<leftarrow>vs. Suc (json_fuel v)) \<le> n"
  shows "read_elems n (strings_Join (map json_text vs) '','' @ CHR '']'' # rest) =
    Some (map json_valid_text vs, rest)"
  using assms
proof (induction vs arbitrary: n)
  case (Cons v vs)
  then obtain m where n: "n = Suc m" "json_fuel v \<le> m" "(\<Sum>v\<leftarrow>vs. Suc (json_fuel v)) \<le> m"
    by (cases n) auto
  have v: "ends_number t \<Longrightarrow> read_value m (json_text v @ t) = Some (json_valid_text v, t)" for t
    using Cons.prems n by (simp add: reads_backD)
  show ?case
  proof (cases vs)
    case Nil
    with v n show ?thesis by simp
  next
    case (Cons v' vs')
    with Cons.IH [of m] Cons.prems n
    have "read_elems m (strings_Join (map json_text vs) '','' @ CHR '']'' # rest) =
        Some (map json_valid_text vs, rest)" by simp
    with v n Cons show ?thesis by simp
  qed
qed simp

lemma read_members_text:
  assumes "\<forall>(k, v) \<in> set kvs. reads_back v" "kvs \<noteq> []" "(\<Sum>(k, v)\<leftarrow>kvs. Suc (json_fuel v)) \<le> n"
  shows "read_members n (strings_Join (map (\<lambda>(k, v). json_quote k @ colon # json_text v) kvs) '','' @ CHR ''}'' # rest) =
    Some (map (\<lambda>(k, v). (to_valid k, json_valid_text v)) kvs, rest)"
  using assms
proof (induction kvs arbitrary: n)
  case (Cons kv kvs)
  obtain k v where kv: "kv = (k, v)" by fastforce
  with Cons.prems obtain m where n: "n = Suc m" "json_fuel v \<le> m" "(\<Sum>(k, v)\<leftarrow>kvs. Suc (json_fuel v)) \<le> m"
    by (cases n) auto
  have v: "ends_number t \<Longrightarrow> read_value m (json_text v @ t) = Some (json_valid_text v, t)" for t
    using Cons.prems n kv by (simp add: reads_backD)
  show ?case
  proof (cases kvs)
    case Nil
    with v n kv show ?thesis by (simp add: json_quote_def read_json_quote)
  next
    case (Cons kv' kvs')
    with Cons.IH [of m] Cons.prems n
    have "read_members m (strings_Join (map (\<lambda>(k, v). json_quote k @ colon # json_text v) kvs) '','' @ CHR ''}'' # rest) =
        Some (map (\<lambda>(k, v). (to_valid k, json_valid_text v)) kvs, rest)" by simp
    with v n kv Cons show ?thesis by (simp add: json_quote_def read_json_quote)
  qed
qed simp

lemma all_read_back: "reads_back v"
proof (induction v)
  case (JInt i)
  show ?case
    unfolding reads_back_def
  proof (intro allI impI)
    fix n rest assume "json_fuel (JInt i) \<le> n" and rest: "ends_number rest"
    then obtain m where "n = Suc m" by (cases n) auto
    with read_value_number [OF rest, of m i]
    show "read_value n (json_text (JInt i) @ rest) = Some (json_valid_text (JInt i), rest)"
      by (simp del: read_value.simps)
  qed
next
  case (JArr vs)
  show ?case
    unfolding reads_back_def
  proof (intro allI impI)
    fix n rest assume n: "json_fuel (JArr vs) \<le> n" and rest: "ends_number rest"
    then obtain m where m: "n = Suc m" "(\<Sum>v\<leftarrow>vs. Suc (json_fuel v)) \<le> m" by (cases n) auto
    show "read_value n (json_text (JArr vs) @ rest) = Some (json_valid_text (JArr vs), rest)"
    proof (cases vs)
      case Nil
      with m show ?thesis by simp
    next
      case (Cons v vs')
      obtain c cs where "json_text v = c # cs" "c \<noteq> CHR '']''" using json_text_head by blast
      with Cons have "hd (strings_Join (map json_text vs) '','' @ CHR '']'' # rest) \<noteq> CHR '']''"
        by (cases vs') auto
      with m read_elems_text [of vs m rest] JArr.IH Cons show ?thesis by simp
    qed
  qed
next
  case (JObj kvs)
  show ?case
    unfolding reads_back_def
  proof (intro allI impI)
    fix n rest assume n: "json_fuel (JObj kvs) \<le> n" and rest: "ends_number rest"
    then obtain m where m: "n = Suc m" "(\<Sum>(k, v)\<leftarrow>kvs. Suc (json_fuel v)) \<le> m" by (cases n) auto
    show "read_value n (json_text (JObj kvs) @ rest) = Some (json_valid_text (JObj kvs), rest)"
    proof (cases kvs)
      case Nil
      with m show ?thesis by simp
    next
      case (Cons kv kvs')
      let ?t = "strings_Join (map (\<lambda>(k, v). json_quote k @ colon # json_text v) kvs) '','' @ CHR ''}'' # rest"
      from Cons have "hd ?t = dquote" by (cases kv; cases kvs') (auto simp: json_quote_def)
      moreover have "\<forall>(k, v) \<in> set kvs. reads_back v" using JObj.IH by fastforce
      ultimately show ?thesis using m read_members_text [of kvs m rest] Cons by simp
    qed
  qed
qed (auto simp: reads_back_def read_literal_def strings_HasPrefix_def json_quote_def read_json_quote
    read_value_number Suc_le_eq gr0_conv_Suc)

lemma join_length: "length (strings_Join ts '','') = sum_list (map length ts) + (length ts - 1)"
  by (induction ts rule: induct_list012) auto

lemma Itoa_length: "1 \<le> length (strconv_Itoa i)"
  by (cases "strconv_Itoa i") auto

lemma fuel_le_length: "json_fuel v \<le> length (json_text v)"
proof (induction v)
  case (JInt i)
  then show ?case using Itoa_length [of i] by simp
next
  case (JArr vs)
  then have "(\<Sum>v\<leftarrow>vs. Suc (json_fuel v)) \<le> (\<Sum>v\<leftarrow>vs. Suc (length (json_text v)))"
    by (intro sum_list_mono) simp
  also have "\<dots> = sum_list (map (length \<circ> json_text) vs) + length vs" by (induction vs) auto
  finally show ?case by (cases vs) (auto simp: join_length)
next
  case (JObj kvs)
  let ?f = "\<lambda>(k, v). json_quote k @ colon # json_text v"
  have "(\<Sum>(k, v)\<leftarrow>kvs. Suc (json_fuel v)) \<le> (\<Sum>kv\<leftarrow>kvs. length (?f kv))"
    using JObj.IH by (intro sum_list_mono) (fastforce simp: json_quote_def)
  then show ?case by (cases kvs) (auto simp: join_length comp_def)
qed (simp_all add: json_quote_def)

text \<open>A document that was written is read as the value with its strings made UTF-8.\<close>

lemma json_read_text: "json_read (json_text v @ [NL]) = Some (json_valid_text v)"
  using fuel_le_length [of v] by (simp add: json_read_def reads_backD [OF all_read_back] del: read_value.simps)

text \<open>Values all of whose strings are UTF-8 are read back as they are.\<close>

fun json_utf8 :: "json \<Rightarrow> bool" where
  "json_utf8 (JStr s) = valid_utf8 s"
| "json_utf8 (JArr vs) = (\<forall>v \<in> set vs. json_utf8 v)"
| "json_utf8 (JObj kvs) = (\<forall>(k, v) \<in> set kvs. valid_utf8 k \<and> json_utf8 v)"
| "json_utf8 _ = True"

lemma json_valid_text_id: "json_utf8 v \<Longrightarrow> json_valid_text v = v"
proof (induction v)
  case (JArr vs)
  then show ?case by (simp add: map_idI)
next
  case (JObj kvs)
  then show ?case by (auto simp: to_valid_id intro!: map_idI)
qed (simp_all add: to_valid_id)

lemma ascii_valid: "\<forall>c \<in> set s. char_nat c < 128 \<Longrightarrow> valid_utf8 s"
  by (auto simp: valid_utf8_def runes_ascii)


subsection \<open>Byte slices\<close>

text \<open>\<open>base64.StdEncoding\<close>, which the JSON encoder uses for a byte slice.\<close>

definition base64_alphabet :: string where
  "base64_alphabet = ''ABCDEFGHIJKLMNOPQRSTUVWXYZabcdefghijklmnopqrstuvwxyz0123456789+/''"

definition b64 :: "nat \<Rightarrow> char" where
  "b64 n = base64_alphabet ! (n mod 64)"

fun base64_encode :: "bytes \<Rightarrow> bytes" where
  "base64_encode [] = []"
| "base64_encode [a] = [b64 (char_nat a div 4), b64 (char_nat a mod 4 * 16), CHR ''='', CHR ''='']"
| "base64_encode [a, b] =
     [b64 (char_nat a div 4), b64 (char_nat a mod 4 * 16 + char_nat b div 16), b64 (char_nat b mod 16 * 4), CHR ''='']"
| "base64_encode (a # b # c # s) =
     b64 (char_nat a div 4) # b64 (char_nat a mod 4 * 16 + char_nat b div 16) #
     b64 (char_nat b mod 16 * 4 + char_nat c div 64) # b64 (char_nat c mod 64) # base64_encode s"

definition unb64 :: "char \<Rightarrow> nat option" where
  "unb64 c = map_of (zip base64_alphabet [0 ..< 64]) c"

fun base64_decode :: "bytes \<Rightarrow> bytes option" where
  "base64_decode [] = Some []"
| "base64_decode (p # q # r # t # s) =
     (case (unb64 p, unb64 q, unb64 r, unb64 t) of
        (Some w, Some x, Some y, Some z) \<Rightarrow>
          map_option (\<lambda>rest. char_of (w * 4 + x div 16) # char_of (x mod 16 * 16 + y div 4) #
             char_of (y mod 4 * 64 + z) # rest) (base64_decode s)
      | (Some w, Some x, Some y, None) \<Rightarrow>
          if t = CHR ''='' \<and> s = [] then Some [char_of (w * 4 + x div 16), char_of (x mod 16 * 16 + y div 4)] else None
      | (Some w, Some x, None, None) \<Rightarrow>
          if r = CHR ''='' \<and> t = CHR ''='' \<and> s = [] then Some [char_of (w * 4 + x div 16)] else None
      | _ \<Rightarrow> None)"
| "base64_decode _ = None"

lemma unb64_b64 [simp]: "n < 64 \<Longrightarrow> unb64 (b64 n) = Some n"
proof -
  have "\<forall>n \<in> set [0 ..< 64]. unb64 (b64 n) = Some n" by code_simp
  then show "n < 64 \<Longrightarrow> unb64 (b64 n) = Some n" by simp
qed

lemma unb64_pad [simp]: "unb64 CHR ''='' = None"
  by code_simp

lemma code_less [simp]: "char_nat c < 256"
  using of_char_of [where 'a = nat, of "char_nat c"] by (simp add: take_bit_eq_mod)

text \<open>The cut of three bytes into four groups of six bits, and back.\<close>

lemma sixes:
  fixes a b c :: nat
  assumes "a < 256" "b < 256" "c < 256"
  shows "a div 4 < 64" "a mod 4 * 16 + b div 16 < 64" "b mod 16 * 4 + c div 64 < 64" "c mod 64 < 64"
    "a mod 4 * 16 < 64" "b mod 16 * 4 < 64"
    "a div 4 * 4 + (a mod 4 * 16 + b div 16) div 16 = a"
    "(a mod 4 * 16 + b div 16) mod 16 * 16 + (b mod 16 * 4 + c div 64) div 4 = b"
    "(a mod 4 * 16 + b div 16) mod 16 * 16 + (b mod 16 * 4) div 4 = b"
    "(b mod 16 * 4 + c div 64) mod 4 * 64 + c mod 64 = c"
    "a div 4 * 4 + (a mod 4 * 16) div 16 = a"
proof -
  have bounds: "b div 16 < 16" "c div 64 < 4" using assms by (simp_all add: less_mult_imp_div_less)
  have mods: "a mod 4 < 4" "b mod 16 < 16" by simp_all
  show "a div 4 < 64" "c mod 64 < 64" using assms by (simp_all add: less_mult_imp_div_less)
  show "a mod 4 * 16 + b div 16 < 64" "b mod 16 * 4 + c div 64 < 64" "a mod 4 * 16 < 64" "b mod 16 * 4 < 64"
    using bounds mods by linarith+
  have "(a mod 4 * 16 + b div 16) div 16 = a mod 4" "(a mod 4 * 16 + b div 16) mod 16 = b div 16"
    "(b mod 16 * 4 + c div 64) div 4 = b mod 16" "(b mod 16 * 4 + c div 64) mod 4 = c div 64"
    using bounds by simp_all
  then show "a div 4 * 4 + (a mod 4 * 16 + b div 16) div 16 = a"
    "(a mod 4 * 16 + b div 16) mod 16 * 16 + (b mod 16 * 4 + c div 64) div 4 = b"
    "(a mod 4 * 16 + b div 16) mod 16 * 16 + (b mod 16 * 4) div 4 = b"
    "(b mod 16 * 4 + c div 64) mod 4 * 64 + c mod 64 = c"
    "a div 4 * 4 + (a mod 4 * 16) div 16 = a"
    by simp_all
qed

lemma base64_decode_encode: "base64_decode (base64_encode s) = Some s"
proof (induction s rule: base64_encode.induct)
  case (2 a)
  with sixes [of "char_nat a" "char_nat a" "char_nat a", OF code_less code_less code_less] show ?case by simp
next
  case (3 a b)
  with sixes [of "char_nat a" "char_nat b" "char_nat b", OF code_less code_less code_less] show ?case by simp
next
  case (4 a b c s)
  with sixes [of "char_nat a" "char_nat b" "char_nat c", OF code_less code_less code_less] show ?case by simp
qed simp

text \<open>The text of a byte slice needs no escapes.\<close>

lemma base64_chars: "c \<in> set (base64_encode s) \<Longrightarrow> c \<in> set base64_alphabet \<or> c = CHR ''=''"
proof -
  have "length base64_alphabet = 64" by code_simp
  then have "b64 n \<in> set base64_alphabet" for n by (simp add: b64_def)
  then show "c \<in> set (base64_encode s) \<Longrightarrow> c \<in> set base64_alphabet \<or> c = CHR ''=''"
    by (induction s rule: base64_encode.induct) auto
qed

lemma base64_safe:
  assumes "c \<in> set (base64_encode s)" shows "html_safe c"
proof -
  have "\<forall>c \<in> set base64_alphabet \<union> {CHR ''=''}. html_safe c" by code_simp
  with base64_chars [OF assms] show ?thesis by auto
qed

lemma safe_valid: "\<forall>c \<in> set s. html_safe c \<Longrightarrow> valid_utf8 s"
  by (rule ascii_valid) (auto simp: html_safe_def)

lemma safe_not_escaped: "\<forall>c \<in> set s. html_safe c \<Longrightarrow> json_escape s = s"
  by (induction s) (auto simp: json_escape_def html_safe_def escape_char_def)

lemma base64_valid [simp]: "valid_utf8 (base64_encode s)"
  using base64_safe safe_valid by blast

lemma base64_not_escaped: "json_escape (base64_encode s) = base64_encode s"
  using base64_safe safe_not_escaped by blast

end
