(* ===== verification/Go_Path.thy ===== *)
theory Go_Path
  imports Go_Strings
begin

text \<open>
  Go's \<open>path.Clean\<close> and \<open>path.Join\<close>.  \<open>Clean\<close> is the lexical algorithm on path components: it
  drops empty and \<open>.\<close> components, lets \<open>..\<close> cancel the component before it, and drops \<open>..\<close> at
  the root of an absolute path.  The second half of the theory says when joining stays below
  the directory it joins to: that is what the scanner's use of \<open>path.Join\<close> as a change of root
  relies on.
\<close>

definition dotdot :: string where "dotdot = ''..''"

text \<open>One component against the stack of the components kept so far (top first).\<close>

fun clean_step :: "bool \<Rightarrow> string list \<Rightarrow> string \<Rightarrow> string list" where
  "clean_step rooted st c =
     (if c = [] \<or> c = ''.'' then st
      else if c = dotdot then
        (case st of
           [] \<Rightarrow> if rooted then [] else [dotdot]
         | t # st' \<Rightarrow> if t = dotdot then dotdot # t # st' else st')
      else c # st)"

definition path_Clean :: "string \<Rightarrow> string" where
  "path_Clean p =
     (if p = [] then ''.''
      else let rooted = (hd p = slash);
               st = rev (foldl (clean_step rooted) [] (split_on slash p))
           in if rooted then slash # strings_Join st [slash]
              else if st = [] then ''.'' else strings_Join st [slash])"

definition path_Join :: "string list \<Rightarrow> string" where
  "path_Join es =
     (let es' = filter (\<lambda>e. e \<noteq> []) es
      in if es' = [] then [] else path_Clean (strings_Join es' [slash]))"


subsection \<open>Paths without \<open>..\<close>\<close>

text \<open>The components that count, and the absence of a \<open>..\<close> component.\<close>

definition comps :: "string \<Rightarrow> string list" where
  "comps p = filter (\<lambda>c. c \<noteq> [] \<and> c \<noteq> ''.'') (split_on slash p)"

definition no_dotdot :: "string \<Rightarrow> bool" where
  "no_dotdot p \<longleftrightarrow> dotdot \<notin> set (split_on slash p)"

definition abs_path :: "string list \<Rightarrow> string" where
  "abs_path cs = slash # strings_Join cs [slash]"

lemma foldl_clean_no_dotdot:
  "dotdot \<notin> set cs \<Longrightarrow>
     foldl (clean_step r) st cs = rev (filter (\<lambda>c. c \<noteq> [] \<and> c \<noteq> ''.'') cs) @ st"
  by (induction cs arbitrary: st) auto

lemma comps_Nil [simp]: "comps [] = []"
  by (simp add: comps_def)

lemma comps_append_slash: "comps (p @ slash # q) = comps p @ comps q"
  by (simp add: comps_def split_on_append_sep)

lemma comps_Cons_slash [simp]: "comps (slash # q) = comps q"
  by (simp add: comps_def)

lemma no_dotdot_append_slash: "no_dotdot (p @ slash # q) \<longleftrightarrow> no_dotdot p \<and> no_dotdot q"
  by (auto simp: no_dotdot_def split_on_append_sep)

lemma no_dotdot_Cons_slash [simp]: "no_dotdot (slash # q) \<longleftrightarrow> no_dotdot q"
  by (auto simp: no_dotdot_def dotdot_def)

lemma no_dotdot_Nil [simp]: "no_dotdot []"
  by (simp add: no_dotdot_def dotdot_def)

lemma comps_parts: "c \<in> set (comps p) \<Longrightarrow> c \<noteq> [] \<and> c \<noteq> ''.'' \<and> slash \<notin> set c"
  using split_on_parts_no_sep by (auto simp: comps_def)

lemma no_dotdot_comps: "no_dotdot p \<Longrightarrow> dotdot \<notin> set (comps p)"
  by (auto simp: no_dotdot_def comps_def)

text \<open>A plain name: one component that is not special.\<close>

definition plain_name :: "string \<Rightarrow> bool" where
  "plain_name c \<longleftrightarrow> c \<noteq> [] \<and> c \<noteq> ''.'' \<and> c \<noteq> dotdot \<and> slash \<notin> set c"

lemma plain_name_comps [simp]: "plain_name c \<Longrightarrow> comps c = [c]"
  by (simp add: plain_name_def comps_def)

lemma plain_name_no_dotdot [simp]: "plain_name c \<Longrightarrow> no_dotdot c"
  by (auto simp: plain_name_def no_dotdot_def)

lemma comps_abs_path [simp]:
  assumes "\<forall>c \<in> set cs. c \<noteq> [] \<and> c \<noteq> ''.'' \<and> slash \<notin> set c"
  shows "comps (abs_path cs) = cs"
proof (cases cs)
  case Nil
  then show ?thesis by (simp add: abs_path_def)
next
  case (Cons a as)
  then have "split_on slash (strings_Join cs [slash]) = cs"
    using assms by (intro split_on_strings_Join) auto
  moreover have "filter (\<lambda>c. c \<noteq> [] \<and> c \<noteq> ''.'') cs = cs"
    using assms by (simp add: filter_id_conv)
  ultimately show ?thesis by (simp add: abs_path_def comps_def)
qed

lemma abs_path_comps [simp]: "comps (abs_path (comps p)) = comps p"
  by (rule comps_abs_path) (use comps_parts in blast)

lemma comps_abs_path_append [simp]: "comps (abs_path (comps p @ comps q)) = comps p @ comps q"
  by (rule comps_abs_path) (use comps_parts in auto)

lemma no_dotdot_abs_path:
  assumes "dotdot \<notin> set cs" and "\<forall>c \<in> set cs. slash \<notin> set c"
  shows "no_dotdot (abs_path cs)"
proof (cases cs)
  case Nil
  then show ?thesis by (simp add: abs_path_def)
next
  case (Cons a as)
  then have "split_on slash (strings_Join cs [slash]) = cs"
    using assms(2) by (intro split_on_strings_Join) auto
  then show ?thesis using assms(1) by (simp add: abs_path_def) (simp add: no_dotdot_def)
qed

lemma path_Clean_rooted:
  "no_dotdot (slash # p) \<Longrightarrow> path_Clean (slash # p) = abs_path (comps p)"
  by (simp add: path_Clean_def no_dotdot_def foldl_clean_no_dotdot comps_def abs_path_def Let_def)

lemma strings_Join_Cons_head:
  "strings_Join ((x # xs) # ys) sep = x # strings_Join (xs # ys) sep"
  by (cases ys) auto

lemma comps_strings_Join: "comps (strings_Join es [slash]) = concat (map comps es)"
  by (induction es "[slash]" rule: strings_Join.induct) (auto simp: comps_append_slash)

lemma no_dotdot_strings_Join:
  "no_dotdot (strings_Join es [slash]) \<longleftrightarrow> (\<forall>e \<in> set es. no_dotdot e)"
  by (induction es "[slash]" rule: strings_Join.induct) (auto simp: no_dotdot_append_slash)

lemma concat_map_comps_nonempty:
  "concat (map comps (filter (\<lambda>e. e \<noteq> []) es)) = concat (map comps es)"
  by (induction es) auto

lemma path_Join_rooted_nonempty: "path_Join ((slash # r) # es) \<noteq> []"
  by (simp add: path_Join_def path_Clean_def strings_Join_Cons_head Let_def)

text \<open>
  The main fact: joining to an absolute first element, with no \<open>..\<close> anywhere, gives the
  absolute path of all the components in order.
\<close>

lemma path_Join_rooted:
  assumes "no_dotdot r" and "\<forall>e \<in> set es. no_dotdot e"
  shows "path_Join ((slash # r) # es) = abs_path (comps r @ concat (map comps es))"
proof -
  let ?es = "filter (\<lambda>e. e \<noteq> []) es"
  have "strings_Join ((slash # r) # ?es) [slash] = slash # strings_Join (r # ?es) [slash]"
    by (rule strings_Join_Cons_head)
  moreover have "no_dotdot (slash # strings_Join (r # ?es) [slash])"
    using assms by (simp add: no_dotdot_strings_Join)
  ultimately show ?thesis
    by (simp add: path_Join_def path_Clean_rooted comps_strings_Join concat_map_comps_nonempty)
qed

text \<open>A path below a directory: equal to it or continuing it after a slash.\<close>

definition below :: "string \<Rightarrow> string \<Rightarrow> bool" where
  "below d p \<longleftrightarrow> p = d \<or> prefix (d @ [slash]) p"

lemma strings_Join_append:
  "ps \<noteq> [] \<Longrightarrow> qs \<noteq> [] \<Longrightarrow>
     strings_Join (ps @ qs) sep = strings_Join ps sep @ sep @ strings_Join qs sep"
proof (induction ps sep rule: strings_Join.induct)
  case (2 p sep)
  then show ?case by (simp add: strings_Join_Cons)
qed auto

lemma below_abs_path: "cs \<noteq> [] \<Longrightarrow> below (abs_path cs) (abs_path (cs @ ds))"
  by (cases "ds = []") (simp_all add: below_def abs_path_def strings_Join_append)

lemma path_Join_below:
  assumes "no_dotdot r" "comps r \<noteq> []" "no_dotdot p"
  shows "below (abs_path (comps r)) (path_Join [slash # r, p])"
  using assms by (simp add: path_Join_rooted below_abs_path)

lemma foldl_clean_idem:
  "\<forall>c \<in> set cs. c \<noteq> [] \<and> c \<noteq> ''.'' \<Longrightarrow> dotdot \<notin> set cs \<Longrightarrow> foldl (clean_step r) st cs = rev cs @ st"
  by (induction cs arbitrary: st) auto

end
