(* ===== verification/Host_OS.thy ===== *)
theory Host_OS
  imports Go_Strconv Go_Path "HOL-Library.Word" "HOL-Library.Char_ord" "HOL-Library.List_Lexorder"
begin

unbundle bit_operations_syntax

text \<open>
  What the scanner sees of the operating system, through Go's \<open>os\<close> package.  A value of
  \<open>os_view\<close> answers \<open>stat\<close> and \<open>open\<close> for every path; nothing ties the two answers together,
  so a file that a directory lists may fail to open, and one that opens may fail to be read.
  An operation of the scanner is a function of such a view: the host is a snapshot while one
  operation runs.  Two operations may run on different views.
\<close>

subsection \<open>Errors\<close>

datatype errno = ENOENT | EACCES | EPERM | ENOTDIR | EISDIR | EIO | EOTHER string

fun errno_text :: "errno \<Rightarrow> string" where
  "errno_text ENOENT = ''no such file or directory''"
| "errno_text EACCES = ''permission denied''"
| "errno_text EPERM = ''operation not permitted''"
| "errno_text ENOTDIR = ''not a directory''"
| "errno_text EISDIR = ''is a directory''"
| "errno_text EIO = ''input/output error''"
| "errno_text (EOTHER msg) = msg"

text \<open>
  The errors the program makes or passes on: \<open>io.EOF\<close>, \<open>*fs.PathError\<close>, texts of
  \<open>errors.New\<close> and of \<open>fmt.Errorf\<close> without \<open>%w\<close>, \<open>fmt.Errorf\<close> with \<open>%w\<close> (its text and
  the wrapped error), the two unknown-id errors of \<open>os/user\<close>, and the scanner's own
  \<open>*SenseError\<close> (\<open>sensor/error.go\<close>).
\<close>

datatype goerr =
    EOF
  | PathError (Op: string) (Path_of: string) (Err_of: errno)
  | ErrText string
  | WrapErr string goerr
  | UnknownUserIdError int
  | UnknownGroupIdError string
  | SenseError (wrapped: "goerr option") (Massage: string) (Function_of: string) (Code: int)

text \<open>The \<open>Error()\<close> method; the last equation is \<open>(*SenseError).Error\<close>.\<close>

fun err_text :: "goerr \<Rightarrow> string" where
  "err_text EOF = ''EOF''"
| "err_text (PathError op p e) = op @ '' '' @ p @ '': '' @ errno_text e"
| "err_text (ErrText s) = s"
| "err_text (WrapErr s e) = s"
| "err_text (UnknownUserIdError i) = ''user: unknown userid '' @ strconv_Itoa i"
| "err_text (UnknownGroupIdError g) = ''group: unknown groupid '' @ g"
| "err_text (SenseError w m f c) =
     m @ '' '' @ (case w of None \<Rightarrow> [] | Some e \<Rightarrow> err_text e)"

type_synonym 'a result = "goerr + 'a"

text \<open>\<open>fmt.Errorf\<close> with a final \<open>%w\<close>: its text ends with the wrapped error's.\<close>

definition wrap_err :: "string \<Rightarrow> goerr \<Rightarrow> goerr" where
  "wrap_err msg e = WrapErr (msg @ err_text e) e"

text \<open>\<open>errors.Is\<close> for a target that is no \<open>*SenseError\<close>: equality along the \<open>Unwrap\<close> chain.\<close>

fun errors_Is :: "goerr \<Rightarrow> goerr \<Rightarrow> bool" where
  "errors_Is (WrapErr s e) t \<longleftrightarrow> WrapErr s e = t \<or> errors_Is e t"
| "errors_Is (SenseError (Some e) m f c) t \<longleftrightarrow> SenseError (Some e) m f c = t \<or> errors_Is e t"
| "errors_Is e t \<longleftrightarrow> e = t"


subsection \<open>File metadata\<close>

text \<open>\<open>os.FileInfo\<close>: the \<open>FileMode\<close> word, and the owner when \<open>Sys()\<close> is a \<open>*syscall.Stat_t\<close>.\<close>

record FileStat =
  Mode :: "32 word"
  Sys :: "(32 word \<times> 32 word) option"

definition ModeDir :: "32 word" where "ModeDir = 0x80000000"

text \<open>\<open>fs.ModeType\<close>: directory, symlink, named pipe, socket, device, char device, irregular.\<close>

definition ModeType :: "32 word" where "ModeType = 0x8F280000"

definition mode_IsDir :: "32 word \<Rightarrow> bool" where
  "mode_IsDir m \<longleftrightarrow> m AND ModeDir \<noteq> 0"

definition mode_IsRegular :: "32 word \<Rightarrow> bool" where
  "mode_IsRegular m \<longleftrightarrow> m AND ModeType = 0"

definition mode_Perm :: "32 word \<Rightarrow> 32 word" where
  "mode_Perm m = m AND 0x1FF"

lemma mode_Perm_le: "unat (mode_Perm m) \<le> 511"
proof -
  have "unat (m AND 0x1FF) \<le> unat (0x1FF :: 32 word)"
    by (rule word_and_le1 [THEN word_le_nat_alt [THEN iffD1]])
  then show ?thesis by (simp add: mode_Perm_def)
qed

lemma dir_not_regular: "mode_IsDir m \<Longrightarrow> \<not> mode_IsRegular m"
proof -
  assume "mode_IsDir m"
  moreover have "m AND ModeDir = (m AND ModeType) AND ModeDir"
    by (simp add: ModeDir_def ModeType_def and.assoc)
  ultimately show ?thesis by (auto simp: mode_IsDir_def mode_IsRegular_def)
qed


subsection \<open>Files and directories\<close>

text \<open>
  An open file: its bytes and how reading them ends (\<open>None\<close> for end of file), its directory
  entries in directory order and how listing them ends, and its \<open>fstat\<close>.
\<close>

record handle =
  h_data :: bytes
  h_read_end :: "errno option"
  h_names :: "string list"
  h_list_end :: "errno option"
  h_stat :: "errno + FileStat"

record os_view =
  view_stat :: "string \<Rightarrow> errno + FileStat"
  view_open :: "string \<Rightarrow> errno + handle"

definition os_Stat :: "os_view \<Rightarrow> string \<Rightarrow> FileStat result" where
  "os_Stat os p = (case view_stat os p of Inl e \<Rightarrow> Inl (PathError ''stat'' p e) | Inr s \<Rightarrow> Inr s)"

definition os_Open :: "os_view \<Rightarrow> string \<Rightarrow> handle result" where
  "os_Open os p = (case view_open os p of Inl e \<Rightarrow> Inl (PathError ''open'' p e) | Inr h \<Rightarrow> Inr h)"

definition os_ReadFile :: "os_view \<Rightarrow> string \<Rightarrow> bytes result" where
  "os_ReadFile os p =
     (case os_Open os p of
        Inl e \<Rightarrow> Inl e
      | Inr h \<Rightarrow>
          (case h_read_end h of
             None \<Rightarrow> Inr (h_data h)
           | Some e \<Rightarrow> Inl (PathError ''read'' p e)))"

text \<open>\<open>os.IsNotExist\<close>.\<close>

fun os_IsNotExist :: "goerr \<Rightarrow> bool" where
  "os_IsNotExist (PathError op p e) = (e = ENOENT)"
| "os_IsNotExist _ = False"

text \<open>\<open>os.ReadDir\<close>: the entry names sorted, and the error that ended the listing, if any.\<close>

definition os_ReadDir :: "os_view \<Rightarrow> string \<Rightarrow> string list \<times> goerr option" where
  "os_ReadDir os p =
     (case os_Open os p of
        Inl e \<Rightarrow> ([], Some e)
      | Inr h \<Rightarrow> (sort (h_names h), map_option (PathError ''readdirent'' p) (h_list_end h)))"


subsection \<open>Readdirnames\<close>

text \<open>
  A directory being read: its path, the names not yet returned and how the listing ends.
  \<open>Readdirnames n\<close> returns \<open>n\<close> names while there are as many; then the rest, and after that
  \<open>io.EOF\<close>.  When the listing fails, the names read since the last full batch come back
  together with the error.
\<close>

type_synonym dirstream = "string \<times> string list \<times> errno option"

definition dir_stream :: "string \<Rightarrow> handle \<Rightarrow> dirstream" where
  "dir_stream p h = (p, h_names h, h_list_end h)"

fun os_Readdirnames :: "nat \<Rightarrow> dirstream \<Rightarrow> (string list \<times> goerr option) \<times> dirstream" where
  "os_Readdirnames n (p, names, t) =
     (if n \<le> length names then ((take n names, None), (p, drop n names, t))
      else (case t of
              Some e \<Rightarrow> ((names, Some (PathError ''readdirent'' p e)), (p, [], t))
            | None \<Rightarrow> ((names, if names = [] then Some EOF else None), (p, [], t))))"

definition list_end_err :: "string \<Rightarrow> errno option \<Rightarrow> goerr" where
  "list_end_err p t = (case t of None \<Rightarrow> EOF | Some e \<Rightarrow> PathError ''readdirent'' p e)"

text \<open>
  The loop the scanner writes four times:
  \<^verbatim>\<open>for names, err = d.Readdirnames(100); err == nil; names, err = d.Readdirnames(100) { body }\<close>
  Its result is the early return of the body, or the final state with the error that ended the
  loop.
\<close>

definition batch_size :: nat where "batch_size = 100"

lemma batch_size_pos [simp]: "0 < batch_size"
  by (simp add: batch_size_def)

lemma Readdirnames_shorter:
  "os_Readdirnames batch_size d = ((names, None), d') \<Longrightarrow>
     length (fst (snd d')) < length (fst (snd d))"
  by (cases d) (auto simp: batch_size_def split: if_splits option.splits)

function readdir_loop ::
  "('s \<Rightarrow> string list \<Rightarrow> 'r + 's) \<Rightarrow> 's \<Rightarrow> dirstream \<Rightarrow> 'r + ('s \<times> goerr)" where
  "readdir_loop body s d =
     (case os_Readdirnames batch_size d of
        ((names, Some e), d') \<Rightarrow> Inr (s, e)
      | ((names, None), d') \<Rightarrow>
          (case body s names of
             Inl r \<Rightarrow> Inl r
           | Inr s' \<Rightarrow> readdir_loop body s' d'))"
  by pat_completeness auto
termination
  by (relation "measure (\<lambda>(body, s, d). length (fst (snd d)))")
     (auto dest!: sym [THEN Readdirnames_shorter] simp del: os_Readdirnames.simps)

declare readdir_loop.simps [simp del]

text \<open>The batches the body of the loop gets to see.\<close>

definition dir_batches :: "string list \<Rightarrow> errno option \<Rightarrow> string list list" where
  "dir_batches names t =
     (case t of
        None \<Rightarrow> chunks batch_size names
      | Some e \<Rightarrow> chunks batch_size (take (batch_size * (length names div batch_size)) names))"

lemma dir_batches_full:
  "batch_size \<le> length names \<Longrightarrow>
     dir_batches names t = take batch_size names # dir_batches (drop batch_size names) t"
proof -
  assume le: "batch_size \<le> length names"
  then have ne: "names \<noteq> []" using batch_size_pos by fastforce
  have "length names div batch_size = Suc ((length names - batch_size) div batch_size)"
    using le by (simp add: le_div_geq)
  then have "take (batch_size * (length names div batch_size)) names =
      take batch_size names @ take (batch_size * ((length names - batch_size) div batch_size))
        (drop batch_size names)" by (simp add: take_add)
  then show ?thesis using le ne by (cases t) (simp_all add: dir_batches_def chunks_step)
qed

lemma dir_batches_short:
  "length names < batch_size \<Longrightarrow>
     dir_batches names t = (if t = None \<and> names \<noteq> [] then [names] else [])"
  by (auto simp: dir_batches_def chunks_single split: option.splits)

theorem readdir_loop_batches:
  "readdir_loop body s (p, names, t) =
     (case loop_list body s (dir_batches names t) of
        Inl r \<Rightarrow> Inl r
      | Inr s' \<Rightarrow> Inr (s', list_end_err p t))"
proof (induction "length names" arbitrary: names s rule: less_induct)
  case less
  show ?case
  proof (cases "batch_size \<le> length names")
    case True
    moreover from True have "length (drop batch_size names) < length names"
      using batch_size_pos by (simp add: batch_size_def)
    ultimately show ?thesis
      using less by (subst readdir_loop.simps) (simp add: dir_batches_full split: sum.splits)
  next
    case False
    show ?thesis
    proof (cases "t = None \<and> names \<noteq> []")
      case True
      have empty: "readdir_loop body u (p, [], t) = Inr (u, EOF)" for u
        using True by (subst readdir_loop.simps) (simp add: batch_size_def)
      show ?thesis using True False empty
        by (subst readdir_loop.simps)
           (simp add: dir_batches_short list_end_err_def split: sum.splits)
    next
      case other: False
      with False show ?thesis
        by (subst readdir_loop.simps)
           (auto simp: dir_batches_short list_end_err_def split: option.splits)
    qed
  qed
qed

text \<open>
  When the body visits the names of a batch one by one (in the order \<open>ord\<close> puts them), the
  two nested loops are one loop over \<open>listed ord\<close>.
\<close>

definition listed :: "(string list \<Rightarrow> string list) \<Rightarrow> string list \<Rightarrow> errno option \<Rightarrow> string list" where
  "listed ord names t = concat (map ord (dir_batches names t))"

lemma readdir_loop_listed:
  "readdir_loop (\<lambda>s b. loop_list visit s (ord b)) s (p, names, t) =
     (case loop_list visit s (listed ord names t) of
        Inl r \<Rightarrow> Inl r
      | Inr s' \<Rightarrow> Inr (s', list_end_err p t))"
  by (simp add: readdir_loop_batches loop_list_concat listed_def)

lemma concat_dir_batches_None: "concat (dir_batches names None) = names"
  by (simp add: dir_batches_def)

lemma listed_id_None [simp]: "listed id names None = names"
  by (simp add: listed_def concat_dir_batches_None)

lemma set_listed_subset:
  assumes "\<And>b. set (ord b) = set b" shows "set (listed ord names t) \<subseteq> set names"
proof -
  have "set (listed ord names t) = set (concat (dir_batches names t))"
    using assms by (auto simp: listed_def)
  also have "\<dots> \<subseteq> set names"
    by (cases t) (auto simp: dir_batches_def dest: in_set_takeD)
  finally show ?thesis .
qed

lemma listed_sort_small:
  "length names \<le> batch_size \<Longrightarrow> listed sort names None = sort names"
  by (cases "names = []") (simp_all add: listed_def dir_batches_def chunks_single)

text \<open>The loop of a search: return at the first name that \<open>f\<close> accepts.\<close>

definition search_body :: "('a \<Rightarrow> 'b option) \<Rightarrow> unit \<Rightarrow> 'a list \<Rightarrow> 'b + unit" where
  "search_body f u names =
     loop_list (\<lambda>u name. case f name of Some y \<Rightarrow> Inl y | None \<Rightarrow> Inr u) u names"

lemma readdir_loop_search:
  "readdir_loop (search_body f) u (p, names, t) =
     (case first_some f (listed id names t) of
        Some y \<Rightarrow> Inl y
      | None \<Rightarrow> Inr (u, list_end_err p t))"
proof -
  have eq: "search_body f = (\<lambda>s b. loop_list
      (\<lambda>u name. case f name of Some y \<Rightarrow> Inl y | None \<Rightarrow> Inr u) s (id b))"
    by (simp add: search_body_def fun_eq_iff)
  show ?thesis
    unfolding eq unfolding readdir_loop_listed unfolding loop_list_first_some
    by (simp split: option.splits)
qed


subsection \<open>Concrete hosts\<close>

text \<open>A view given by a table of its files and directories; everything else does not exist.\<close>

type_synonym node = "FileStat \<times> handle"

definition file_node :: "32 word \<Rightarrow> 32 word \<times> 32 word \<Rightarrow> bytes \<Rightarrow> node" where
  "file_node perm owner content =
     (let st = \<lparr>Mode = perm, Sys = Some owner\<rparr>
      in (st, \<lparr>h_data = content, h_read_end = None, h_names = [], h_list_end = Some ENOTDIR,
               h_stat = Inr st\<rparr>))"

definition dir_node :: "string list \<Rightarrow> node" where
  "dir_node names =
     (let st = \<lparr>Mode = 0x800001ED, Sys = Some (0, 0)\<rparr>
      in (st, \<lparr>h_data = [], h_read_end = Some EISDIR, h_names = names, h_list_end = None,
               h_stat = Inr st\<rparr>))"

definition host_of :: "(string \<times> node) list \<Rightarrow> os_view" where
  "host_of t =
     \<lparr>view_stat = (\<lambda>p. case map_of t p of None \<Rightarrow> Inl ENOENT | Some n \<Rightarrow> Inr (fst n)),
      view_open = (\<lambda>p. case map_of t p of None \<Rightarrow> Inl ENOENT | Some n \<Rightarrow> Inr (snd n))\<rparr>"

end
