(* ===== verification/Go_Bufio.thy ===== *)
theory Go_Bufio
  imports Host_OS
begin

text \<open>
  Go's \<open>bufio.Reader.ReadLine\<close> over an open file, with the default buffer of 4096 bytes.  A
  reader is the bytes not yet returned and the error that will follow them.  \<open>ReadLine\<close> returns
  a line without its end-of-line bytes when the newline is within the next 4096 bytes;
  otherwise it returns a full buffer and \<open>isPrefix\<close>, holding back a final carriage return so
  that a \<open>\r\n\<close> split by the buffer is still recognised.  An unterminated last line is
  returned as it is, and only the call after it reports the error.
\<close>

type_synonym reader = "bytes \<times> goerr"

definition bufio_size :: nat where "bufio_size = 4096"

definition drop_CR :: "bytes \<Rightarrow> bytes" where
  "drop_CR l = (if l \<noteq> [] \<and> last l = CR then butlast l else l)"

fun bufio_ReadLine :: "reader \<Rightarrow> (bytes \<times> bool \<times> goerr option) \<times> reader" where
  "bufio_ReadLine (bs, e) =
     (let line = takeWhile (\<lambda>c. c \<noteq> NL) bs in
      if length line < bufio_size \<and> length line < length bs then
        ((drop_CR line, False, None), (drop (Suc (length line)) bs, e))
      else if bufio_size \<le> length bs then
        (let chunk = take bufio_size bs in
         if last chunk = CR then ((butlast chunk, True, None), (drop (bufio_size - 1) bs, e))
         else ((chunk, True, None), (drop bufio_size bs, e)))
      else if bs = [] then (([], False, Some e), ([], e))
      else ((bs, False, None), ([], e)))"

declare bufio_ReadLine.simps [simp del]

text \<open>The current line of a byte sequence, and what follows its newline.\<close>

definition cur_line :: "bytes \<Rightarrow> bytes" where
  "cur_line bs = takeWhile (\<lambda>c. c \<noteq> NL) bs"

definition next_lines :: "bytes \<Rightarrow> bytes" where
  "next_lines bs = drop (Suc (length (cur_line bs))) bs"

lemma cur_line_le: "length (cur_line bs) \<le> length bs"
  by (simp add: cur_line_def length_takeWhile_le)

lemma cur_line_append: "NL \<notin> set p \<Longrightarrow> cur_line (p @ q) = p @ cur_line q"
  by (induction p) (auto simp: cur_line_def)

lemma next_lines_append: "NL \<notin> set p \<Longrightarrow> next_lines (p @ q) = next_lines q"
  by (simp add: next_lines_def cur_line_append)

lemma cur_line_no_NL: "NL \<notin> set (cur_line bs)"
  by (auto simp: cur_line_def dest: set_takeWhileD)

lemma take_cur_line: "take (length (cur_line bs)) bs = cur_line bs"
  by (simp add: cur_line_def takeWhile_eq_take [symmetric])

lemma take_within_line: "n \<le> length (cur_line bs) \<Longrightarrow> NL \<notin> set (take n bs)"
  using take_cur_line [of bs] cur_line_no_NL [of bs]
  by (metis in_set_takeD min.absorb1 take_take)

text \<open>What one call does, as four cases.\<close>

lemma ReadLine_cases:
  obtains (line) "length (cur_line bs) < length bs"
      "bufio_ReadLine (bs, e) = ((drop_CR (cur_line bs), False, None), (next_lines bs, e))"
  | (chunk) p q where "bs = p @ q" "p \<noteq> []" "NL \<notin> set p" "bufio_size \<le> length (cur_line bs)"
      "bufio_ReadLine (bs, e) = ((p, True, None), (q, e))"
  | (at_end) "bs = []" "bufio_ReadLine (bs, e) = (([], False, Some e), ([], e))"
  | (rest) "bs \<noteq> []" "NL \<notin> set bs"
      "bufio_ReadLine (bs, e) = ((bs, False, None), ([], e))"
proof -
  consider (A) "length (cur_line bs) < bufio_size \<and> length (cur_line bs) < length bs"
    | (B) "\<not> (length (cur_line bs) < bufio_size \<and> length (cur_line bs) < length bs)"
        "bufio_size \<le> length bs"
    | (C) "\<not> length (cur_line bs) < length bs" "\<not> bufio_size \<le> length bs"
    by linarith
  then show thesis
  proof cases
    case A
    then show thesis
      by (intro line) (auto simp: bufio_ReadLine.simps cur_line_def next_lines_def Let_def)
  next
    case B
    then have long: "bufio_size \<le> length (cur_line bs)" using cur_line_le [of bs] by linarith
    define n where "n = (if last (take bufio_size bs) = CR then bufio_size - 1 else bufio_size)"
    have n: "0 < n" "n \<le> bufio_size" by (auto simp: n_def bufio_size_def)
    have "bufio_ReadLine (bs, e) = ((take n bs, True, None), (drop n bs, e))"
      using B by (auto simp: bufio_ReadLine.simps cur_line_def n_def Let_def butlast_take
          bufio_size_def)
    moreover have "NL \<notin> set (take n bs)" using n long by (intro take_within_line) linarith
    moreover have "take n bs \<noteq> []" using n B(2) by (auto simp: bufio_size_def)
    ultimately show thesis by (intro chunk [of "take n bs" "drop n bs"]) (use long in auto)
  next
    case C
    then have "cur_line bs = bs" using take_cur_line [of bs] by simp
    then have noNL: "NL \<notin> set bs" using cur_line_no_NL [of bs] by simp
    show thesis
    proof (cases "bs = []")
      case True
      then show thesis by (intro at_end) (auto simp: bufio_ReadLine.simps bufio_size_def)
    next
      case False
      then show thesis using C noNL
        by (intro rest) (auto simp: bufio_ReadLine.simps cur_line_def Let_def)
    qed
  qed
qed

text \<open>A full buffer without a newline is returned as it is.\<close>

lemma ReadLine_full:
  assumes "length p = bufio_size" "NL \<notin> set p" "last p \<noteq> CR"
  shows "bufio_ReadLine (p @ rest, e) = ((p, True, None), (rest, e))"
proof -
  have "takeWhile (\<lambda>c. c \<noteq> NL) (p @ rest) = p @ cur_line rest"
    using cur_line_append [OF assms(2), of rest] by (simp add: cur_line_def)
  then show ?thesis using assms(1,3) by (simp add: bufio_ReadLine.simps Let_def)
qed

lemma ReadLine_shorter:
  assumes "bufio_ReadLine rd = ((l, p, None), rd')"
  shows "length (fst rd') < length (fst rd)"
proof -
  obtain bs e where rd: "rd = (bs, e)" by (cases rd)
  show ?thesis
    using assms unfolding rd
    by (cases bs e rule: ReadLine_cases) (auto simp: next_lines_def)
qed

lemma ReadLine_error:
  "bufio_ReadLine (bs, e) = ((l, p, Some x), rd') \<Longrightarrow> bs = [] \<and> l = [] \<and> \<not> p \<and> x = e \<and> rd' = ([], e)"
  by (cases bs e rule: ReadLine_cases) auto

lemma ReadLine_at_end [simp]: "bufio_ReadLine ([], e) = (([], False, Some e), ([], e))"
  by (cases "[] :: bytes" e rule: ReadLine_cases) auto

text \<open>The lines of a file: separated by newlines, the last one possibly unterminated.\<close>

function file_lines :: "bytes \<Rightarrow> bytes list" where
  "file_lines bs =
     (if bs = [] then [] else cur_line bs # file_lines (next_lines bs))"
  by pat_completeness auto
termination
  by (relation "measure length") (auto simp: next_lines_def)

declare file_lines.simps [simp del]

lemma file_lines_Nil [simp]: "file_lines [] = []"
  by (subst file_lines.simps) simp

lemma file_lines_step: "bs \<noteq> [] \<Longrightarrow> file_lines bs = cur_line bs # file_lines (next_lines bs)"
  by (subst file_lines.simps) simp

end
