(* ===== verification/Colon_File.thy ===== *)
theory Colon_File
  imports Go_Bufio
begin

text \<open>
  \<open>readColonFile\<close> of \<open>sensor/internal/utils/osuserswrapper.go\<close>: reading a file in the style of
  \<open>/etc/passwd\<close> line by line through a bounded buffer.  The second part gives the contract of
  a line function (locale \<open>colon_line_func\<close>) under which the chunked reader is equivalent to a
  scan over the whole lines of the file.
\<close>

subsection \<open>readColonFile\<close>

text \<open>A line function returns \<open>(v, err)\<close>; a nil \<open>v\<close> and a nil \<open>err\<close> mean no match.\<close>

type_synonym 'a lineFunc = "bytes \<Rightarrow> 'a option \<times> goerr option"

text \<open>At the end of the file the error is cleared: end of file without a match is no error.\<close>

definition clear_EOF :: "goerr \<Rightarrow> goerr option" where
  "clear_EOF e = (if e = EOF then None else Some e)"

text \<open>The inner loop: collect chunks until the line is complete or has enough columns.\<close>

function read_chunks ::
  "nat \<Rightarrow> reader \<Rightarrow> bytes \<Rightarrow> (goerr option + bytes \<times> bool) \<times> reader" where
  "read_chunks readCols rd wholeLine =
     (case bufio_ReadLine rd of
        ((line, isPrefix, Some e), rd') \<Rightarrow> (Inl (clear_EOF e), rd')
      | ((line, isPrefix, None), rd') \<Rightarrow>
          (if \<not> isPrefix \<and> length wholeLine = 0 then (Inr (line, isPrefix), rd')
           else let wholeLine' = wholeLine @ line in
             if \<not> isPrefix \<or> bytes_Count wholeLine' colon \<ge> readCols
             then (Inr (wholeLine', isPrefix), rd')
             else read_chunks readCols rd' wholeLine'))"
  by pat_completeness auto
termination
  by (relation "measure (\<lambda>(c, rd, w). length (fst rd))") (auto dest!: sym [THEN ReadLine_shorter])

declare read_chunks.simps [simp del]

text \<open>Skipping the rest of a line that was cut short: \<open>Inl\<close> leaves the function.\<close>

function skip_rest :: "bool \<Rightarrow> goerr option \<Rightarrow> reader \<Rightarrow> goerr option + reader" where
  "skip_rest isPrefix err rd =
     (if \<not> isPrefix then Inr rd
      else (case err of
              Some e \<Rightarrow> Inl (clear_EOF e)
            | None \<Rightarrow>
                (case bufio_ReadLine rd of
                   ((_, isPrefix', err'), rd') \<Rightarrow> skip_rest isPrefix' err' rd')))"
  by pat_completeness auto
termination
  by (relation "measure (\<lambda>(p, err, rd). if p \<and> err = None then Suc (length (fst rd)) else 0)")
     (auto dest!: sym [THEN ReadLine_shorter])

declare skip_rest.simps [simp del]

lemma read_chunks_shorter:
  "read_chunks c rd w = (Inr r, rd') \<Longrightarrow> length (fst rd') < length (fst rd)"
proof (induction c rd w rule: read_chunks.induct)
  case (1 c rd w)
  obtain l p err rd1 where rl: "bufio_ReadLine rd = ((l, p, err), rd1)" by (metis prod.collapse)
  show ?case
  proof (cases err)
    case None
    with rl have lt: "length (fst rd1) < length (fst rd)" by (auto dest: ReadLine_shorter)
    with 1 rl None show ?thesis
      by (subst (asm) (2) read_chunks.simps) (fastforce simp: Let_def split: if_splits)
  next
    case (Some e)
    with 1(2) rl show ?thesis by (subst (asm) read_chunks.simps) simp
  qed
qed

lemma skip_rest_le: "skip_rest p err rd = Inr rd' \<Longrightarrow> length (fst rd') \<le> length (fst rd)"
proof (induction p err rd rule: skip_rest.induct)
  case (1 p err rd)
  show ?case
  proof (cases "p \<and> err = None")
    case True
    obtain l p1 err1 rd1 where rl: "bufio_ReadLine rd = ((l, p1, err1), rd1)"
      by (metis prod.collapse)
    have "length (fst rd1) \<le> length (fst rd)"
    proof (cases err1)
      case None
      with rl show ?thesis by (auto dest: ReadLine_shorter)
    next
      case (Some e)
      with rl show ?thesis by (cases rd) (auto dest: ReadLine_error)
    qed
    moreover from 1 True rl have "length (fst rd') \<le> length (fst rd1)"
      by (subst (asm) (2) skip_rest.simps) simp
    ultimately show ?thesis by simp
  next
    case False
    with 1(2) show ?thesis by (subst (asm) skip_rest.simps) (auto split: if_splits option.splits)
  qed
qed

function readColonFile :: "'a lineFunc \<Rightarrow> nat \<Rightarrow> reader \<Rightarrow> 'a option \<times> goerr option" where
  "readColonFile fn readCols rd =
     (case read_chunks readCols rd [] of
        (Inl err, rd') \<Rightarrow> (None, err)
      | (Inr (wholeLine, isPrefix), rd') \<Rightarrow>
          let line = bytes_TrimSpace wholeLine in
          if length line = 0 \<or> hd line = CHR ''#'' then readColonFile fn readCols rd'
          else (case fn line of
                  (None, None) \<Rightarrow>
                    (case skip_rest isPrefix None rd' of
                       Inl err \<Rightarrow> (None, err)
                     | Inr rd'' \<Rightarrow> readColonFile fn readCols rd'')
                | r \<Rightarrow> r))"
  by pat_completeness auto
termination
proof (relation "measure (\<lambda>(fn, c, rd). length (fst rd))", goal_cases)
  case 2
  then show ?case by (auto dest!: sym [THEN read_chunks_shorter])
next
  case 3
  then show ?case by (auto dest!: sym [THEN read_chunks_shorter] skip_rest_le)
qed simp

declare readColonFile.simps [simp del]


subsection \<open>What readColonFile does: an equivalent scan over the lines\<close>

text \<open>
  The chunked reader is equivalent to a scan over the lines of the file, for every line function
  that looks at no more than the first \<open>cols\<close> columns.
\<close>

definition is_comment :: "bytes \<Rightarrow> bool" where
  "is_comment l \<longleftrightarrow> (let t = bytes_TrimSpace l in t \<noteq> [] \<and> hd t = CHR ''#'')"

fun scan_lines :: "'a lineFunc \<Rightarrow> goerr option \<Rightarrow> bytes list \<Rightarrow> 'a option \<times> goerr option" where
  "scan_lines fn e [] = (None, e)"
| "scan_lines fn e (l # ls) =
     (let t = bytes_TrimSpace l in
      if t = [] \<or> hd t = CHR ''#'' then scan_lines fn e ls
      else (case fn t of (None, None) \<Rightarrow> scan_lines fn e ls | r \<Rightarrow> r))"

text \<open>
  The one condition the equivalence needs: no comment is cut short by the reader, which
  happens to a comment of at least 4096 bytes with \<open>cols\<close> colons.
\<close>

definition comments_fit :: "nat \<Rightarrow> bytes \<Rightarrow> bool" where
  "comments_fit cols bs \<longleftrightarrow>
     (\<forall>l \<in> set (file_lines bs).
        is_comment l \<longrightarrow> length l < bufio_size \<or> count_list l colon < cols)"

lemma TrimSpace_drop_CR: "bytes_TrimSpace (w @ drop_CR l) = bytes_TrimSpace (w @ l)"
proof (cases "l \<noteq> [] \<and> last l = CR")
  case True
  then have "l = butlast l @ [CR]" by (metis append_butlast_last_id)
  then have "bytes_TrimSpace (w @ l) = bytes_TrimSpace (w @ butlast l)"
    by (metis TrimSpace_snoc_CR append.assoc)
  with True show ?thesis by (simp add: drop_CR_def)
qed (auto simp: drop_CR_def)

lemma next_lines_no_NL: "NL \<notin> set bs \<Longrightarrow> next_lines bs = [] \<and> cur_line bs = bs"
  using cur_line_append [of bs "[]"] by (simp add: next_lines_def cur_line_def)

lemma read_chunks_result:
  assumes "NL \<notin> set w" and "count_list w colon < cols"
  shows "(\<exists>l'. bs \<noteq> [] \<and> read_chunks cols (bs, e) w = (Inr (l', False), (next_lines bs, e)) \<and>
             bytes_TrimSpace l' = bytes_TrimSpace (w @ cur_line bs)) \<or>
         (\<exists>p q. bs = p @ q \<and> NL \<notin> set p \<and> cols \<le> count_list (w @ p) colon \<and>
             bufio_size \<le> length (w @ cur_line bs) \<and>
             read_chunks cols (bs, e) w = (Inr (w @ p, True), (q, e))) \<or>
         (NL \<notin> set bs \<and> count_list (w @ bs) colon < cols \<and>
             read_chunks cols (bs, e) w = (Inl (clear_EOF e), ([], e)))"
  using assms
proof (induction "length bs" arbitrary: bs w rule: less_induct)
  case less
  show ?case
  proof (cases bs e rule: ReadLine_cases)
    case line
    then have "\<exists>l'. bs \<noteq> [] \<and> read_chunks cols (bs, e) w = (Inr (l', False), (next_lines bs, e)) \<and>
        bytes_TrimSpace l' = bytes_TrimSpace (w @ cur_line bs)"
      by (subst read_chunks.simps) (auto simp: Let_def TrimSpace_drop_CR TrimSpace_drop_CR [of "[]", simplified])
    then show ?thesis by blast
  next
    case (chunk p q)
    show ?thesis
    proof (cases "cols \<le> count_list (w @ p) colon")
      case True
      with chunk have "read_chunks cols (bs, e) w = (Inr (w @ p, True), (q, e))"
        by (subst read_chunks.simps) (simp add: Let_def bytes_Count_def)
      with chunk True show ?thesis by fastforce
    next
      case False
      with chunk have rec: "read_chunks cols (bs, e) w = read_chunks cols (q, e) (w @ p)"
        by (subst read_chunks.simps) (simp add: Let_def bytes_Count_def)
      have "length q < length bs" "NL \<notin> set (w @ p)" "count_list (w @ p) colon < cols"
        using chunk False less.prems by auto
      from less.hyps [OF this] consider
        (a) l' where "q \<noteq> []" "read_chunks cols (q, e) (w @ p) = (Inr (l', False), (next_lines q, e))"
            "bytes_TrimSpace l' = bytes_TrimSpace ((w @ p) @ cur_line q)"
        | (b) p' q' where "q = p' @ q'" "NL \<notin> set p'" "cols \<le> count_list ((w @ p) @ p') colon"
            "read_chunks cols (q, e) (w @ p) = (Inr ((w @ p) @ p', True), (q', e))"
        | (c) "NL \<notin> set q" "count_list ((w @ p) @ q) colon < cols"
            "read_chunks cols (q, e) (w @ p) = (Inl (clear_EOF e), ([], e))" by blast
      then show ?thesis
      proof cases
        case a
        then show ?thesis using chunk rec by (auto simp: cur_line_append next_lines_append)
      next
        case b
        then have "bs = (p @ p') @ q' \<and> NL \<notin> set (p @ p') \<and>
            cols \<le> count_list (w @ p @ p') colon \<and> bufio_size \<le> length (w @ cur_line bs) \<and>
            read_chunks cols (bs, e) w = (Inr (w @ p @ p', True), (q', e))"
          using chunk rec by auto
        then show ?thesis by blast
      next
        case c
        then show ?thesis using chunk rec by auto
      qed
    qed
  next
    case at_end
    then have "read_chunks cols (bs, e) w = (Inl (clear_EOF e), ([], e))"
      by (subst read_chunks.simps) simp
    with at_end less.prems show ?thesis by simp
  next
    case rest
    then have "read_chunks cols (bs, e) w = (Inr (w @ bs, False), (next_lines bs, e))"
      by (subst read_chunks.simps) (auto simp: Let_def next_lines_no_NL)
    with rest show ?thesis by (auto simp: next_lines_no_NL)
  qed
qed

text \<open>Skipping the rest of a line always gets to the next one: its error exit is dead code.\<close>

lemma skip_rest_False [simp]: "skip_rest False err rd = Inr rd"
  by (subst skip_rest.simps) simp

lemma skip_rest_True: "skip_rest True None (q, e) = Inr (next_lines q, e)"
proof (induction "length q" arbitrary: q rule: less_induct)
  case less
  show ?case
  proof (cases q e rule: ReadLine_cases)
    case (chunk p' q')
    then have "length q' < length q" by simp
    from less.hyps [OF this] chunk show ?thesis
      by (subst skip_rest.simps) (simp add: next_lines_append)
  qed (subst skip_rest.simps, simp add: next_lines_no_NL next_lines_def [of "[]"])+
qed

locale colon_line_func =
  fixes fn :: "'a lineFunc" and cols :: nat
  assumes cols_pos: "0 < cols"
    and few_columns: "count_list l colon < cols \<Longrightarrow> fn l = (None, None)"
    and first_columns: "cols \<le> count_list u colon \<Longrightarrow> fn (u @ t) = fn u"
begin

lemma fn_truncate:
  assumes "cols \<le> count_list p colon"
  shows "fn (bytes_TrimSpace (p @ q)) = fn (bytes_TrimSpace p)"
    and "bytes_TrimSpace p \<noteq> []"
    and "bytes_TrimSpace (p @ q) \<noteq> [] \<and> hd (bytes_TrimSpace (p @ q)) = hd (bytes_TrimSpace p)"
proof -
  from assms cols_pos have "cols - 1 < count_list p colon" by simp
  then obtain u t t' where u: "bytes_TrimSpace p = u @ t" "bytes_TrimSpace (p @ q) = u @ t'"
    "count_list u colon = Suc (cols - 1)" by (rule TrimSpace_truncate)
  then have "u \<noteq> []" "cols \<le> count_list u colon" using cols_pos by auto
  with u show "fn (bytes_TrimSpace (p @ q)) = fn (bytes_TrimSpace p)"
    "bytes_TrimSpace p \<noteq> []"
    "bytes_TrimSpace (p @ q) \<noteq> [] \<and> hd (bytes_TrimSpace (p @ q)) = hd (bytes_TrimSpace p)"
    by (simp_all add: first_columns)
qed

lemma readColonFile_scan:
  assumes "comments_fit cols bs"
  shows "readColonFile fn cols (bs, e) = scan_lines fn (clear_EOF e) (file_lines bs)"
  using assms
proof (induction "length bs" arbitrary: bs rule: less_induct)
  case less
  have IH: "readColonFile fn cols (next_lines bs, e) =
      scan_lines fn (clear_EOF e) (file_lines (next_lines bs))" if "bs \<noteq> []"
    using that less by (intro less.hyps) (auto simp: next_lines_def comments_fit_def file_lines_step)
  from read_chunks_result [of "[]" cols bs e] cols_pos consider
    (full) l' where "bs \<noteq> []" "read_chunks cols (bs, e) [] = (Inr (l', False), (next_lines bs, e))"
        "bytes_TrimSpace l' = bytes_TrimSpace (cur_line bs)"
    | (cut) p q where "bs = p @ q" "NL \<notin> set p" "cols \<le> count_list p colon"
        "bufio_size \<le> length (cur_line bs)" "read_chunks cols (bs, e) [] = (Inr (p, True), (q, e))"
    | (over) "NL \<notin> set bs" "count_list bs colon < cols"
        "read_chunks cols (bs, e) [] = (Inl (clear_EOF e), ([], e))" by auto
  then show ?case
  proof cases
    case full
    then show ?thesis
      by (subst readColonFile.simps) (auto simp: Let_def file_lines_step IH split: prod.splits option.splits)
  next
    case cut
    have ne: "bs \<noteq> []" using cut(1,3) cols_pos by auto
    have line: "cur_line bs = p @ cur_line q" and rest: "next_lines bs = next_lines q"
      using cut(1,2) by (simp_all add: cur_line_append next_lines_append)
    note trunc = fn_truncate(1,3) [OF cut(3), of "cur_line q"] fn_truncate(2) [OF cut(3)]
    have "\<not> is_comment (cur_line bs)"
      using less.prems ne cut(3,4) line unfolding comments_fit_def file_lines_step [OF ne]
      by (auto simp: count_list_append)
    then have "hd (bytes_TrimSpace p) \<noteq> CHR ''#''"
      using trunc(2,3) line by (auto simp: is_comment_def Let_def)
    then show ?thesis
      using cut(5) trunc line IH [OF ne] rest
      by (subst readColonFile.simps)
         (auto simp: Let_def file_lines_step [OF ne] skip_rest_True split: prod.splits option.splits)
  next
    case over
    have "readColonFile fn cols (bs, e) = (None, clear_EOF e)"
      using over(3) by (subst readColonFile.simps) simp
    moreover have "fn (bytes_TrimSpace bs) = (None, None)" using over(2) by (simp add: few_columns)
    ultimately show ?thesis
      using over(1) by (cases "bs = []") (simp_all add: Let_def file_lines_step next_lines_no_NL)
  qed
qed

end

end
