(* ===== verification/User_Lookup.thy ===== *)
theory User_Lookup
  imports Colon_File
begin

text \<open>
  \<open>sensor/internal/utils/osuserswrapper.go\<close>: the line functions for \<open>/etc/passwd\<close> and
  \<open>/etc/group\<close>, and the lookups of a user and a group below a root directory.  The abstract
  specification parses a file into its list of entries and searches that.
\<close>

subsection \<open>Line functions\<close>

text \<open>\<open>user.Group\<close> and \<open>user.User\<close>.\<close>

record Group =
  G_Name :: string
  G_Gid :: string

record User =
  Username :: string
  Uid :: string
  Gid :: string
  U_Name :: string
  HomeDir :: string

definition leadColon :: "nat \<Rightarrow> string" where
  "leadColon idx = (if idx > 0 then [colon] else [])"

text \<open>A name that starts with \<open>+\<close> or \<open>-\<close> (a NIS inclusion), or is empty, is skipped.\<close>

definition bad_name :: "string \<Rightarrow> bool" where
  "bad_name n \<longleftrightarrow> n = [] \<or> hd n = CHR ''+'' \<or> hd n = CHR ''-''"

definition matchGroupIndexValue :: "string \<Rightarrow> nat \<Rightarrow> Group lineFunc" where
  "matchGroupIndexValue value idx line =
     (let substr = leadColon idx @ value @ [colon] in
      if \<not> strings_Contains line substr \<or> bytes_Count line colon < 3 then (None, None)
      else let parts = strings_SplitN colon line 4 in
        if length parts < 4 \<or> parts ! 0 = [] \<or> parts ! idx \<noteq> value \<or>
           hd (parts ! 0) = CHR ''+'' \<or> hd (parts ! 0) = CHR ''-'' then (None, None)
        else if strconv_Atoi (parts ! 2) = None then (None, None)
        else (Some \<lparr>G_Name = parts ! 0, G_Gid = parts ! 2\<rparr>, None))"

definition matchUserIndexValue :: "string \<Rightarrow> nat \<Rightarrow> User lineFunc" where
  "matchUserIndexValue value idx line =
     (let substr = leadColon idx @ value @ [colon] in
      if \<not> strings_Contains line substr \<or> bytes_Count line colon < 6 then (None, None)
      else let parts = strings_SplitN colon line 7 in
        if length parts < 6 \<or> parts ! idx \<noteq> value \<or> parts ! 0 = [] \<or>
           hd (parts ! 0) = CHR ''+'' \<or> hd (parts ! 0) = CHR ''-'' then (None, None)
        else if strconv_Atoi (parts ! 2) = None then (None, None)
        else if strconv_Atoi (parts ! 3) = None then (None, None)
        else (Some \<lparr>Username = parts ! 0, Uid = parts ! 2, Gid = parts ! 3,
                    U_Name = strings_CutBefore (parts ! 4) CHR '','', HomeDir = parts ! 5\<rparr>, None))"

text \<open>
  The substring test in front is an optimisation: when the column of index 2 is the value, the
  test succeeds.
\<close>

lemma column2_contained:
  assumes "n \<le> count_list l colon" "3 \<le> n" "strings_SplitN colon l (Suc n) ! 2 = v"
  shows "sublist (leadColon 2 @ v @ [colon]) l"
proof -
  have "sublist (colon # strings_SplitN colon l (Suc n) ! Suc 1 @ [colon]) l"
    by (rule SplitN_nth_infix) (use assms in auto)
  with assms(3) show ?thesis by (simp add: leadColon_def numeral_2_eq_2)
qed

text \<open>A row of the file as a value, whatever is searched for.\<close>

definition group_row :: "bytes \<Rightarrow> Group option" where
  "group_row l =
     (let parts = strings_SplitN colon l 4 in
      if bytes_Count l colon < 3 \<or> bad_name (parts ! 0) \<or> strconv_Atoi (parts ! 2) = None then None
      else Some \<lparr>G_Name = parts ! 0, G_Gid = parts ! 2\<rparr>)"

definition user_row :: "bytes \<Rightarrow> User option" where
  "user_row l =
     (let parts = strings_SplitN colon l 7 in
      if bytes_Count l colon < 6 \<or> bad_name (parts ! 0) \<or> strconv_Atoi (parts ! 2) = None \<or>
         strconv_Atoi (parts ! 3) = None then None
      else Some \<lparr>Username = parts ! 0, Uid = parts ! 2, Gid = parts ! 3,
                 U_Name = strings_CutBefore (parts ! 4) CHR '','', HomeDir = parts ! 5\<rparr>)"

definition select :: "('a \<Rightarrow> bool) \<Rightarrow> 'a option \<Rightarrow> 'a option" where
  "select P r = (case r of Some x \<Rightarrow> if P x then Some x else None | None \<Rightarrow> None)"

lemma matchGroup_row:
  "matchGroupIndexValue v 2 l = (select (\<lambda>g. G_Gid g = v) (group_row l), None)"
proof (cases "3 \<le> count_list l colon")
  case True
  have "length (strings_SplitN colon l 4) = 4"
    using length_SplitN [OF True] by (simp add: numeral_eq_Suc)
  moreover have "strings_SplitN colon l 4 ! 2 = v \<Longrightarrow> sublist (leadColon 2 @ v @ [colon]) l"
    using column2_contained [OF True, of v] by (simp add: numeral_eq_Suc)
  ultimately show ?thesis using True
    by (auto simp: matchGroupIndexValue_def group_row_def select_def bad_name_def Let_def
        strings_Contains_def bytes_Count_def)
qed (simp add: matchGroupIndexValue_def group_row_def select_def Let_def bytes_Count_def)

lemma matchUser_row:
  "matchUserIndexValue v 2 l = (select (\<lambda>u. Uid u = v) (user_row l), None)"
proof (cases "6 \<le> count_list l colon")
  case True
  have "length (strings_SplitN colon l 7) = 7"
    using length_SplitN [OF True] by (simp add: numeral_eq_Suc)
  moreover have "strings_SplitN colon l 7 ! 2 = v \<Longrightarrow> sublist (leadColon 2 @ v @ [colon]) l"
    using column2_contained [OF True, of v] by (simp add: numeral_eq_Suc)
  ultimately show ?thesis using True
    by (auto simp: matchUserIndexValue_def user_row_def select_def bad_name_def Let_def
        strings_Contains_def bytes_Count_def)
qed (simp add: matchUserIndexValue_def user_row_def select_def Let_def bytes_Count_def)

lemma group_row_append:
  "3 \<le> count_list u colon \<Longrightarrow> group_row (u @ t) = group_row u"
  using SplitN_nth_append [of 3 u colon 0 t] SplitN_nth_append [of 3 u colon 2 t]
  by (simp add: group_row_def bytes_Count_def count_list_append Let_def numeral_eq_Suc)

lemma user_row_append:
  "6 \<le> count_list u colon \<Longrightarrow> user_row (u @ t) = user_row u"
  using SplitN_nth_append [of 6 u colon 0 t] SplitN_nth_append [of 6 u colon 2 t]
    SplitN_nth_append [of 6 u colon 3 t] SplitN_nth_append [of 6 u colon 4 t]
    SplitN_nth_append [of 6 u colon 5 t]
  by (simp add: user_row_def bytes_Count_def count_list_append Let_def numeral_eq_Suc)

interpretation groups: colon_line_func "matchGroupIndexValue v 2" 3 for v
  by unfold_locales
     (simp_all add: matchGroup_row group_row_append,
      simp add: group_row_def bytes_Count_def select_def)

interpretation users: colon_line_func "matchUserIndexValue v 2" 6 for v
  by unfold_locales
     (simp_all add: matchUser_row user_row_append,
      simp add: user_row_def bytes_Count_def select_def)


subsection \<open>Lookups\<close>

definition userFile :: string where "userFile = ''/etc/passwd''"
definition groupFile :: string where "groupFile = ''/etc/group''"

definition findUserId :: "string \<Rightarrow> reader \<Rightarrow> User result" where
  "findUserId uid r =
     (case strconv_Atoi uid of
        None \<Rightarrow> Inl (ErrText (''user: invalid userid '' @ uid))
      | Some i \<Rightarrow>
          (case readColonFile (matchUserIndexValue uid 2) 6 r of
             (_, Some err) \<Rightarrow> Inl err
           | (Some v, None) \<Rightarrow> Inr v
           | (None, None) \<Rightarrow> Inl (UnknownUserIdError i)))"

definition findGroupId :: "string \<Rightarrow> reader \<Rightarrow> Group result" where
  "findGroupId gid r =
     (case readColonFile (matchGroupIndexValue gid 2) 3 r of
        (_, Some err) \<Rightarrow> Inl err
      | (Some v, None) \<Rightarrow> Inr v
      | (None, None) \<Rightarrow> Inl (UnknownGroupIdError gid))"

text \<open>An open file as a reader.\<close>

definition file_reader :: "string \<Rightarrow> handle \<Rightarrow> reader" where
  "file_reader p h =
     (h_data h, case h_read_end h of None \<Rightarrow> EOF | Some e \<Rightarrow> PathError ''read'' p e)"

definition lookupGroup :: "os_view \<Rightarrow> string \<Rightarrow> string \<Rightarrow> Group result" where
  "lookupGroup os gid root =
     (let filePath = root @ groupFile in
      case os_Open os filePath of
        Inl err \<Rightarrow> Inl err
      | Inr f \<Rightarrow> findGroupId gid (file_reader filePath f))"

definition LookupGroupnameByGID :: "os_view \<Rightarrow> int \<Rightarrow> string \<Rightarrow> string result" where
  "LookupGroupnameByGID os gid root =
     (case lookupGroup os (strconv_Itoa gid) root of
        Inl err \<Rightarrow> Inl err
      | Inr groupData \<Rightarrow> Inr (G_Name groupData))"

definition lookupUser :: "os_view \<Rightarrow> string \<Rightarrow> string \<Rightarrow> User result" where
  "lookupUser os uid root =
     (let filePath = root @ userFile in
      case os_Open os filePath of
        Inl err \<Rightarrow> Inl err
      | Inr f \<Rightarrow> findUserId uid (file_reader filePath f))"

definition lookupUsernameByUID :: "os_view \<Rightarrow> int \<Rightarrow> string \<Rightarrow> string result" where
  "lookupUsernameByUID os uid root =
     (case lookupUser os (strconv_Itoa uid) root of
        Inl err \<Rightarrow> Inl err
      | Inr userData \<Rightarrow> Inr (Username userData))"


subsection \<open>The abstract specification\<close>

text \<open>The rows of a file: its lines, trimmed, without the blank and the comment lines.\<close>

definition content_lines :: "bytes \<Rightarrow> bytes list" where
  "content_lines bs =
     filter (\<lambda>t. t \<noteq> [] \<and> hd t \<noteq> CHR ''#'') (map bytes_TrimSpace (file_lines bs))"

definition passwd_entries :: "bytes \<Rightarrow> User list" where
  "passwd_entries bs = List.map_filter user_row (content_lines bs)"

definition group_entries :: "bytes \<Rightarrow> Group list" where
  "group_entries bs = List.map_filter group_row (content_lines bs)"

text \<open>The first entry that satisfies \<open>P\<close>, else the error that ended the reading, else \<open>unknown\<close>.\<close>

definition first_entry ::
  "('a \<Rightarrow> bool) \<Rightarrow> 'a list \<Rightarrow> goerr \<Rightarrow> goerr \<Rightarrow> 'a result" where
  "first_entry P es read_end unknown =
     (case find P es of
        Some x \<Rightarrow> Inr x
      | None \<Rightarrow> (case clear_EOF read_end of Some e \<Rightarrow> Inl e | None \<Rightarrow> Inl unknown))"

lemma scan_lines_select:
  "scan_lines (\<lambda>l. (select P (row l), None)) e ls =
     (case find P (List.map_filter row
              (filter (\<lambda>t. t \<noteq> [] \<and> hd t \<noteq> CHR ''#'') (map bytes_TrimSpace ls))) of
        Some x \<Rightarrow> (Some x, None)
      | None \<Rightarrow> (None, e))"
  by (induction ls) (auto simp: Let_def select_def List.map_filter_simps split: option.splits)

lemma match_row_fun:
  "matchGroupIndexValue v 2 = (\<lambda>l. (select (\<lambda>g. G_Gid g = v) (group_row l), None))"
  "matchUserIndexValue v 2 = (\<lambda>l. (select (\<lambda>u. Uid u = v) (user_row l), None))"
  by (rule ext, rule matchGroup_row, rule ext, rule matchUser_row)

lemma readColonFile_user:
  assumes "comments_fit 6 bs"
  shows "readColonFile (matchUserIndexValue v 2) 6 (bs, e) =
    (case find (\<lambda>u. Uid u = v) (passwd_entries bs) of
       Some x \<Rightarrow> (Some x, None)
     | None \<Rightarrow> (None, clear_EOF e))"
  unfolding users.readColonFile_scan [OF assms]
  unfolding match_row_fun scan_lines_select passwd_entries_def content_lines_def ..

lemma readColonFile_group:
  assumes "comments_fit 3 bs"
  shows "readColonFile (matchGroupIndexValue v 2) 3 (bs, e) =
    (case find (\<lambda>g. G_Gid g = v) (group_entries bs) of
       Some x \<Rightarrow> (Some x, None)
     | None \<Rightarrow> (None, clear_EOF e))"
  unfolding groups.readColonFile_scan [OF assms]
  unfolding match_row_fun scan_lines_select group_entries_def content_lines_def ..

lemma findUserId_entries:
  assumes "comments_fit 6 bs"
  shows "findUserId uid (bs, e) =
    (case strconv_Atoi uid of
       None \<Rightarrow> Inl (ErrText (''user: invalid userid '' @ uid))
     | Some i \<Rightarrow> first_entry (\<lambda>u. Uid u = uid) (passwd_entries bs) e (UnknownUserIdError i))"
  by (simp add: findUserId_def readColonFile_user [OF assms] first_entry_def split: option.splits)

lemma findGroupId_entries:
  assumes "comments_fit 3 bs"
  shows "findGroupId gid (bs, e) =
    first_entry (\<lambda>g. G_Gid g = gid) (group_entries bs) e (UnknownGroupIdError gid)"
  by (simp add: findGroupId_def readColonFile_group [OF assms] first_entry_def split: option.splits)


subsection \<open>Properties\<close>

text \<open>
  C11: looking up the name of a user id below a root directory is a search in the parsed entries
  of that root's \<open>/etc/passwd\<close>: the first entry with the id answers, a read error or an
  unknown-id error is returned otherwise.  The chunked reading, the substring pre-filter and the
  truncation of long lines do not show, as long as no comment is cut by the reader.
\<close>

theorem lookupUsernameByUID_searches_passwd:
  assumes "os_Open os (root @ userFile) = Inr f"
    and "comments_fit 6 (h_data f)"
    and "in_int64 uid"
  shows "lookupUsernameByUID os uid root =
    (case first_entry (\<lambda>u. Uid u = strconv_Itoa uid) (passwd_entries (h_data f))
            (snd (file_reader (root @ userFile) f)) (UnknownUserIdError uid) of
       Inl err \<Rightarrow> Inl err
     | Inr u \<Rightarrow> Inr (Username u))"
  using assms
  by (simp add: lookupUsernameByUID_def lookupUser_def Let_def file_reader_def findUserId_entries)

definition sample_passwd :: bytes where
  "sample_passwd = ''# users'' @ [NL] @ ''root:x:0:0:root:/root:/bin/sh'' @ [NL] @
     ''+nis:x:7:7::/:/'' @ [NL] @ ''svc:x:7:7:Service,x:/srv:/bin/false'' @ [NL]"

definition sample_users_host :: os_view where
  "sample_users_host = host_of
     [(''/r/etc/passwd'', file_node 0x1A4 (0, 0) sample_passwd),
      (''/r/etc/group'', file_node 0x1A4 (0, 0) (''root:x:0:'' @ [NL] @ ''adm:x:4:root'' @ [NL]))]"

lemma lookupUsernameByUID_searches_passwd_witness:
  "lookupUsernameByUID sample_users_host 7 ''/r'' = Inr ''svc''"
proof -
  let ?f = "snd (file_node 0x1A4 (0, 0) sample_passwd)"
  have "os_Open sample_users_host (''/r'' @ userFile) = Inr ?f" by code_simp
  moreover have "comments_fit 6 (h_data ?f)" by code_simp
  moreover have "in_int64 7" by code_simp
  ultimately have "lookupUsernameByUID sample_users_host 7 ''/r'' =
      (case first_entry (\<lambda>u. Uid u = strconv_Itoa 7) (passwd_entries (h_data ?f))
            (snd (file_reader (''/r'' @ userFile) ?f)) (UnknownUserIdError 7) of
         Inl err \<Rightarrow> Inl err | Inr u \<Rightarrow> Inr (Username u))"
    by (rule lookupUsernameByUID_searches_passwd)
  also have "\<dots> = Inr ''svc''" by code_simp
  finally show ?thesis .
qed

text \<open>
  The same for group names and \<open>/etc/group\<close>; the id of a group is compared as text.
\<close>

theorem LookupGroupnameByGID_searches_group:
  assumes "os_Open os (root @ groupFile) = Inr f" and "comments_fit 3 (h_data f)"
  shows "LookupGroupnameByGID os gid root =
    (case first_entry (\<lambda>g. G_Gid g = strconv_Itoa gid) (group_entries (h_data f))
            (snd (file_reader (root @ groupFile) f)) (UnknownGroupIdError (strconv_Itoa gid)) of
       Inl err \<Rightarrow> Inl err
     | Inr g \<Rightarrow> Inr (G_Name g))"
  using assms
  by (simp add: LookupGroupnameByGID_def lookupGroup_def Let_def file_reader_def findGroupId_entries)

lemma LookupGroupnameByGID_searches_group_witness:
  "LookupGroupnameByGID sample_users_host 4 ''/r'' = Inr ''adm''"
proof -
  let ?f = "snd (file_node 0x1A4 (0, 0) (''root:x:0:'' @ [NL] @ ''adm:x:4:root'' @ [NL]))"
  have "os_Open sample_users_host (''/r'' @ groupFile) = Inr ?f" by code_simp
  moreover have "comments_fit 3 (h_data ?f)" by code_simp
  ultimately have "LookupGroupnameByGID sample_users_host 4 ''/r'' =
      (case first_entry (\<lambda>g. G_Gid g = strconv_Itoa 4) (group_entries (h_data ?f))
            (snd (file_reader (''/r'' @ groupFile) ?f)) (UnknownGroupIdError (strconv_Itoa 4)) of
         Inl err \<Rightarrow> Inl err | Inr g \<Rightarrow> Inr (G_Name g))"
    by (rule LookupGroupnameByGID_searches_group)
  also have "\<dots> = Inr ''adm''" by code_simp
  finally show ?thesis .
qed

text \<open>
  C28: a comment that fills the reader's buffer is cut there when it has six colons in it, and the
  next row starts in the middle of the comment: the rest of the comment line is searched as if
  it were an entry.  The loop leaves a comment without the step that skips the rest of a line.
\<close>

theorem long_comment_resumes_midline:
  assumes "length (CHR ''#'' # pad) = bufio_size" and "6 \<le> count_list pad colon"
    and "NL \<notin> set pad" and "last (CHR ''#'' # pad) \<noteq> CR"
  shows "findUserId uid (CHR ''#'' # pad @ rest, e) = findUserId uid (rest, e)"
proof -
  let ?c = "CHR ''#'' # pad"
  have "bufio_ReadLine (?c @ rest, e) = ((?c, True, None), (rest, e))"
    using assms(1,3,4) by (intro ReadLine_full) auto
  then have "read_chunks 6 (?c @ rest, e) [] = (Inr (?c, True), (rest, e))"
    using assms(2) by (subst read_chunks.simps) (simp add: bytes_Count_def)
  moreover have "colon \<in> set pad"
    using assms(2) by (cases "colon \<in> set pad") simp_all
  then have "bytes_TrimSpace ?c \<noteq> [] \<and> hd (bytes_TrimSpace ?c) = CHR ''#''" by (rule TrimSpace_comment)
  ultimately have "readColonFile (matchUserIndexValue uid 2) 6 (?c @ rest, e) =
      readColonFile (matchUserIndexValue uid 2) 6 (rest, e)"
    by (subst readColonFile.simps) (simp add: Let_def)
  then show ?thesis unfolding findUserId_def append_Cons by (simp only:)
qed

text \<open>The commented-out entry answers.\<close>

lemma long_comment_resumes_midline_witness:
  "findUserId ''0'' (CHR ''#'' # (replicate 6 colon @ replicate 4089 (CHR ''x'')) @
      (''ghost:x:0:0::/:/bin/sh'' @ [NL]), EOF) =
    Inr \<lparr>Username = ''ghost'', Uid = ''0'', Gid = ''0'', U_Name = [], HomeDir = ''/''\<rparr>"
proof -
  have "count_list (replicate 6 colon) colon = 6" by code_simp
  then have "findUserId ''0'' (CHR ''#'' # (replicate 6 colon @ replicate 4089 (CHR ''x'')) @
      (''ghost:x:0:0::/:/bin/sh'' @ [NL]), EOF) =
    findUserId ''0'' (''ghost:x:0:0::/:/bin/sh'' @ [NL], EOF)"
    by (intro long_comment_resumes_midline) (simp_all add: bufio_size_def count_list_append)
  also have "\<dots> = Inr \<lparr>Username = ''ghost'', Uid = ''0'', Gid = ''0'', U_Name = [], HomeDir = ''/''\<rparr>"
    by code_simp
  finally show ?thesis .
qed

end
