(* ===== verification/Name_Cache.thy ===== *)
theory Name_Cache
  imports User_Lookup
begin

text \<open>
  The process-wide cache of user and group names in
  \<open>sensor/internal/utils/osuserswrapper.go\<close>: one entry per root directory, with a map from
  user ids and a map from group ids to names.  The Go variable \<open>userGroupCache\<close> is the state
  that \<open>getUserName\<close> and \<open>getGroupName\<close> take and return.

  The interface of a cache is the locale \<open>memo_cache\<close>: what a lookup returns after a store.
  The behaviour of a memoised lookup is proved there once and interpreted for the two maps.
\<close>

subsection \<open>The interface\<close>

locale memo_cache =
  fixes get :: "'c \<Rightarrow> 'k \<Rightarrow> 'v option" and put :: "'c \<Rightarrow> 'k \<Rightarrow> 'v \<Rightarrow> 'c"
  assumes get_put: "get (put c k v) k' = (if k' = k then Some v else get c k')"
begin

definition memo :: "('k \<Rightarrow> 'e + 'v) \<Rightarrow> 'c \<Rightarrow> 'k \<Rightarrow> ('e + 'v) \<times> 'c" where
  "memo f c k =
     (case get c k of
        Some v \<Rightarrow> (Inr v, c)
      | None \<Rightarrow> (case f k of Inl e \<Rightarrow> (Inl e, c) | Inr v \<Rightarrow> (Inr v, put c k v)))"

text \<open>Every cached value is what the lookup returns.\<close>

definition coherent :: "('k \<Rightarrow> 'e + 'v) \<Rightarrow> 'c \<Rightarrow> bool" where
  "coherent f c \<longleftrightarrow> (\<forall>k v. get c k = Some v \<longrightarrow> f k = Inr v)"

lemma memo_coherent:
  assumes "coherent f c"
  shows "fst (memo f c k) = f k \<and> coherent f (snd (memo f c k))"
  using assms by (auto simp: memo_def coherent_def get_put split: option.splits sum.splits)

lemma memo_hit: "get c k = Some v \<Longrightarrow> memo f c k = (Inr v, c)"
  by (simp add: memo_def)

lemma memo_stores: "memo f c k = (Inr v, c') \<Longrightarrow> get c' k = Some v"
  by (auto simp: memo_def get_put split: option.splits sum.splits)

lemma memo_error: "memo f c k = (Inl e, c') \<Longrightarrow> c' = c \<and> f k = Inl e"
  by (auto simp: memo_def split: option.splits sum.splits)

lemma memo_keeps: "get c k = Some v \<Longrightarrow> get (snd (memo f c k')) k = Some v"
  by (auto simp: memo_def get_put split: option.splits sum.splits)

end

text \<open>Two caches in one state that do not disturb each other.\<close>

locale memo_cache_pair =
  first: memo_cache get1 put1 + second: memo_cache get2 put2
  for get1 :: "'c \<Rightarrow> 'k \<Rightarrow> 'v option" and put1 :: "'c \<Rightarrow> 'k \<Rightarrow> 'v \<Rightarrow> 'c"
    and get2 :: "'c \<Rightarrow> 'j \<Rightarrow> 'w option" and put2 :: "'c \<Rightarrow> 'j \<Rightarrow> 'w \<Rightarrow> 'c" +
  assumes get2_put1: "get2 (put1 c k v) j = get2 c j"
    and get1_put2: "get1 (put2 c j w) k = get1 c k"
begin

definition both_coherent :: "('k \<Rightarrow> 'e + 'v) \<Rightarrow> ('j \<Rightarrow> 'e + 'w) \<Rightarrow> 'c \<Rightarrow> bool" where
  "both_coherent f g c \<longleftrightarrow> first.coherent f c \<and> second.coherent g c"

lemma get_other:
  "get2 (snd (first.memo f c k)) j = get2 c j" "get1 (snd (second.memo g c j)) k = get1 c k"
  by (auto simp: first.memo_def second.memo_def get2_put1 get1_put2 split: option.splits sum.splits)

lemma coherent_other:
  "second.coherent g (snd (first.memo f c k)) = second.coherent g c"
  "first.coherent f (snd (second.memo g c j)) = first.coherent f c"
  by (simp_all add: first.coherent_def second.coherent_def get_other)

lemma both_coherent_steps:
  assumes "both_coherent f g c"
  shows "fst (first.memo f c k) = f k" "both_coherent f g (snd (first.memo f c k))"
    "fst (second.memo g c j) = g j" "both_coherent f g (snd (second.memo g c j))"
  using assms first.memo_coherent [of f c k] second.memo_coherent [of g c j]
  by (simp_all add: both_coherent_def coherent_other)

lemma both_kept:
  "get1 c k = Some v \<Longrightarrow> get1 (snd (first.memo f c k')) k = Some v \<and>
     get1 (snd (second.memo g c j)) k = Some v"
  "get2 c j = Some w \<Longrightarrow> get2 (snd (second.memo g c j')) j = Some w \<and>
     get2 (snd (first.memo f c k)) j = Some w"
  by (simp_all add: first.memo_keeps second.memo_keeps get_other)

end


subsection \<open>The code's cache\<close>

record userGroupCacheItem =
  users_of :: "string \<rightharpoonup> string"
  groups_of :: "string \<rightharpoonup> string"

type_synonym userGroupCache = "string \<rightharpoonup> userGroupCacheItem"

definition empty_item :: userGroupCacheItem where
  "empty_item = \<lparr>users_of = Map.empty, groups_of = Map.empty\<rparr>"

definition getUserName ::
  "os_view \<Rightarrow> userGroupCache \<Rightarrow> int \<Rightarrow> string \<Rightarrow> string result \<times> userGroupCache" where
  "getUserName os cache uid root =
     (case (case cache root of Some users \<Rightarrow> users_of users (strconv_Itoa uid) | None \<Rightarrow> None) of
        Some username \<Rightarrow> (Inr username, cache)
      | None \<Rightarrow>
          (case lookupUsernameByUID os uid root of
             Inl err \<Rightarrow> (Inl err, cache)
           | Inr username \<Rightarrow>
               let item = (case cache root of None \<Rightarrow> empty_item | Some item \<Rightarrow> item)
               in (Inr username,
                   cache(root \<mapsto> item\<lparr>users_of := (users_of item)(strconv_Itoa uid \<mapsto> username)\<rparr>))))"

definition getGroupName ::
  "os_view \<Rightarrow> userGroupCache \<Rightarrow> int \<Rightarrow> string \<Rightarrow> string result \<times> userGroupCache" where
  "getGroupName os cache gid root =
     (case (case cache root of Some users \<Rightarrow> groups_of users (strconv_Itoa gid) | None \<Rightarrow> None) of
        Some groupname \<Rightarrow> (Inr groupname, cache)
      | None \<Rightarrow>
          (case LookupGroupnameByGID os gid root of
             Inl err \<Rightarrow> (Inl err, cache)
           | Inr groupname \<Rightarrow>
               let item = (case cache root of None \<Rightarrow> empty_item | Some item \<Rightarrow> item)
               in (Inr groupname,
                   cache(root \<mapsto> item\<lparr>groups_of := (groups_of item)(strconv_Itoa gid \<mapsto> groupname)\<rparr>))))"

text \<open>The two maps as memo caches: the key is the root directory and the printed id.\<close>

definition cached_user :: "userGroupCache \<Rightarrow> string \<times> string \<Rightarrow> string option" where
  "cached_user cache k =
     (case cache (fst k) of Some item \<Rightarrow> users_of item (snd k) | None \<Rightarrow> None)"

definition cached_group :: "userGroupCache \<Rightarrow> string \<times> string \<Rightarrow> string option" where
  "cached_group cache k =
     (case cache (fst k) of Some item \<Rightarrow> groups_of item (snd k) | None \<Rightarrow> None)"

definition cache_user :: "userGroupCache \<Rightarrow> string \<times> string \<Rightarrow> string \<Rightarrow> userGroupCache" where
  "cache_user cache k v =
     (let item = (case cache (fst k) of None \<Rightarrow> empty_item | Some item \<Rightarrow> item)
      in cache(fst k \<mapsto> item\<lparr>users_of := (users_of item)(snd k \<mapsto> v)\<rparr>))"

definition cache_group :: "userGroupCache \<Rightarrow> string \<times> string \<Rightarrow> string \<Rightarrow> userGroupCache" where
  "cache_group cache k v =
     (let item = (case cache (fst k) of None \<Rightarrow> empty_item | Some item \<Rightarrow> item)
      in cache(fst k \<mapsto> item\<lparr>groups_of := (groups_of item)(snd k \<mapsto> v)\<rparr>))"

interpretation names: memo_cache_pair cached_user cache_user cached_group cache_group
  by unfold_locales
     (auto simp: cached_user_def cache_user_def cached_group_def cache_group_def empty_item_def
        prod_eq_iff Let_def split: option.splits)

text \<open>The uncached lookup behind each map, on the map's keys.\<close>

definition user_by_key :: "os_view \<Rightarrow> string \<times> string \<Rightarrow> string result" where
  "user_by_key os k =
     (case lookupUser os (snd k) (fst k) of Inl e \<Rightarrow> Inl e | Inr u \<Rightarrow> Inr (Username u))"

definition group_by_key :: "os_view \<Rightarrow> string \<times> string \<Rightarrow> string result" where
  "group_by_key os k =
     (case lookupGroup os (snd k) (fst k) of Inl e \<Rightarrow> Inl e | Inr g \<Rightarrow> Inr (G_Name g))"

lemma getUserName_memo:
  "getUserName os c uid root = names.first.memo (user_by_key os) c (root, strconv_Itoa uid)"
  by (simp add: getUserName_def names.first.memo_def cached_user_def cache_user_def user_by_key_def
      lookupUsernameByUID_def Let_def split: option.splits sum.splits)

lemma getGroupName_memo:
  "getGroupName os c gid root = names.second.memo (group_by_key os) c (root, strconv_Itoa gid)"
  by (simp add: getGroupName_def names.second.memo_def cached_group_def cache_group_def
      group_by_key_def LookupGroupnameByGID_def Let_def split: option.splits sum.splits)

lemma user_by_key_eq: "user_by_key os (root, strconv_Itoa uid) = lookupUsernameByUID os uid root"
  by (simp add: user_by_key_def lookupUsernameByUID_def)

lemma group_by_key_eq: "group_by_key os (root, strconv_Itoa gid) = LookupGroupnameByGID os gid root"
  by (simp add: group_by_key_def LookupGroupnameByGID_def)

text \<open>The cache agrees with the files of a view of the host.\<close>

definition cache_agrees :: "os_view \<Rightarrow> userGroupCache \<Rightarrow> bool" where
  "cache_agrees os c \<longleftrightarrow> names.both_coherent (user_by_key os) (group_by_key os) c"

lemma cache_agrees_empty [simp]: "cache_agrees os Map.empty"
  by (simp add: cache_agrees_def names.both_coherent_def names.first.coherent_def
      names.second.coherent_def cached_user_def cached_group_def)

lemma getUserName_agrees:
  assumes "cache_agrees os c"
  shows "fst (getUserName os c uid root) = lookupUsernameByUID os uid root"
    and "cache_agrees os (snd (getUserName os c uid root))"
  using names.both_coherent_steps(1,2) [OF assms [unfolded cache_agrees_def]]
  by (simp_all add: getUserName_memo cache_agrees_def user_by_key_eq)

lemma getGroupName_agrees:
  assumes "cache_agrees os c"
  shows "fst (getGroupName os c gid root) = LookupGroupnameByGID os gid root"
    and "cache_agrees os (snd (getGroupName os c gid root))"
  using names.both_coherent_steps(3,4) [OF assms [unfolded cache_agrees_def]]
  by (simp_all add: getGroupName_memo cache_agrees_def group_by_key_eq)


subsection \<open>Requests\<close>

text \<open>A sequence of name requests, each on the view of the host at its time.\<close>

datatype name_req = UserReq int string | GroupReq int string

fun name_step :: "os_view \<Rightarrow> userGroupCache \<Rightarrow> name_req \<Rightarrow> string result \<times> userGroupCache" where
  "name_step os c (UserReq uid root) = getUserName os c uid root"
| "name_step os c (GroupReq gid root) = getGroupName os c gid root"

fun name_direct :: "os_view \<Rightarrow> name_req \<Rightarrow> string result" where
  "name_direct os (UserReq uid root) = lookupUsernameByUID os uid root"
| "name_direct os (GroupReq gid root) = LookupGroupnameByGID os gid root"

fun name_run :: "userGroupCache \<Rightarrow> (os_view \<times> name_req) list \<Rightarrow>
    string result list \<times> userGroupCache" where
  "name_run c [] = ([], c)"
| "name_run c ((os, r) # rs) =
     (case name_step os c r of (res, c') \<Rightarrow>
       (case name_run c' rs of (ress, c'') \<Rightarrow> (res # ress, c'')))"

lemma name_step_agrees:
  assumes "cache_agrees os c"
  shows "fst (name_step os c r) = name_direct os r" "cache_agrees os (snd (name_step os c r))"
  using assms by (cases r; simp add: getUserName_agrees getGroupName_agrees)+

lemma name_run_agrees:
  "cache_agrees os c \<Longrightarrow>
     fst (name_run c (map (Pair os) rs)) = map (name_direct os) rs \<and>
     cache_agrees os (snd (name_run c (map (Pair os) rs)))"
proof (induction rs arbitrary: c)
  case (Cons r rs)
  obtain res c' where step: "name_step os c r = (res, c')" by (cases "name_step os c r")
  with name_step_agrees [OF Cons.prems, of r] have "res = name_direct os r" "cache_agrees os c'"
    by auto
  with Cons.IH [of c'] step show ?case by (auto split: prod.splits)
qed simp

lemma name_step_keeps_user:
  "cached_user c k = Some v \<Longrightarrow> cached_user (snd (name_step os c r)) k = Some v"
  by (cases r) (simp_all add: getUserName_memo getGroupName_memo names.both_kept)

lemma name_run_keeps_user:
  "cached_user c k = Some v \<Longrightarrow> cached_user (snd (name_run c rs)) k = Some v"
proof (induction c rs rule: name_run.induct)
  case (2 c os r rs)
  then show ?case using name_step_keeps_user [of c k v os r] by (auto split: prod.splits)
qed simp

subsection \<open>Properties\<close>

text \<open>
  C13: starting from the empty cache, any sequence of user and group requests on one state of the
  host gets exactly the answers of the uncached lookups, errors included.
\<close>

theorem cached_requests_agree_with_lookups:
  "fst (name_run Map.empty (map (Pair os) rs)) = map (name_direct os) rs"
  using name_run_agrees [OF cache_agrees_empty] by blast

text \<open>
  C29: a name once cached is answered for ever: whatever requests follow and however the host
  changes meanwhile, the cached name comes back and the files are not read again.
\<close>

theorem cached_name_never_refreshed:
  assumes "cached_user c (root, strconv_Itoa uid) = Some n"
  shows "fst (getUserName os (snd (name_run c rs)) uid root) = Inr n"
  using name_run_keeps_user [OF assms, of rs]
  by (simp add: getUserName_memo names.first.memo_hit)

text \<open>
  The witness: \<open>/proc/42/root\<close> belongs to one container first and to another one later, with
  different user tables.  The first lookup's answer is given for the second container.
\<close>

definition container_users :: "string \<Rightarrow> os_view" where
  "container_users name = host_of [(''/proc/42/root/etc/passwd'',
     file_node 0x1A4 (0, 0) (name @ '':x:1000:1000::/:/'' @ [NL]))]"

lemma cached_name_never_refreshed_witness:
  "let c = snd (getUserName (container_users ''alice'') Map.empty 1000 ''/proc/42/root'');
       r = [(container_users ''bob'', UserReq 7 ''/proc/42/root'')]
   in fst (getUserName (container_users ''bob'') (snd (name_run c r)) 1000 ''/proc/42/root'')
        = Inr ''alice'' \<and>
      lookupUsernameByUID (container_users ''bob'') 1000 ''/proc/42/root'' = Inr ''bob''"
proof -
  let ?c = "snd (getUserName (container_users ''alice'') Map.empty 1000 ''/proc/42/root'')"
  have "cached_user ?c (''/proc/42/root'', strconv_Itoa 1000) = Some ''alice''" by code_simp
  then have "fst (getUserName os (snd (name_run ?c r)) 1000 ''/proc/42/root'') = Inr ''alice''" for os r
    by (rule cached_name_never_refreshed)
  moreover have "lookupUsernameByUID (container_users ''bob'') 1000 ''/proc/42/root'' = Inr ''bob''"
    by code_simp
  ultimately show ?thesis unfolding Let_def by (simp del: name_run.simps)
qed

text \<open>
  Only successful lookups are stored: after an error the cache is unchanged, and a later
  success for the same id is found and stored.
\<close>

theorem failed_lookup_not_cached:
  assumes "getUserName os c uid root = (Inl e, c')"
    and "lookupUsernameByUID os' uid root = Inr n"
  shows "c' = c \<and> fst (getUserName os' c' uid root) = Inr n \<and>
    cached_user (snd (getUserName os' c' uid root)) (root, strconv_Itoa uid) = Some n"
proof (intro conjI)
  have miss: "cached_user c (root, strconv_Itoa uid) = None" and c': "c' = c"
    using assms(1) by (auto simp: getUserName_memo names.first.memo_def split: option.splits sum.splits)
  then show "c' = c" by simp
  have hit: "getUserName os' c' uid root = (Inr n, cache_user c (root, strconv_Itoa uid) n)"
    using assms(2) miss c'
    by (simp add: getUserName_memo names.first.memo_def user_by_key_eq)
  show "fst (getUserName os' c' uid root) = Inr n" by (simp add: hit)
  show "cached_user (snd (getUserName os' c' uid root)) (root, strconv_Itoa uid) = Some n"
    using hit by (auto intro: names.first.memo_stores simp: getUserName_memo)
qed

lemma failed_lookup_not_cached_witness:
  "let c' = snd (getUserName (container_users ''alice'') Map.empty 7 ''/r'');
       os' = host_of [(''/r/etc/passwd'', file_node 0x1A4 (0, 0) (''svc:x:7:7::/:/'' @ [NL]))]
   in fst (getUserName os' c' 7 ''/r'') = Inr ''svc''"
proof -
  let ?r = "getUserName (container_users ''alice'') Map.empty 7 ''/r''"
  let ?os = "host_of [(''/r/etc/passwd'', file_node 0x1A4 (0, 0) (''svc:x:7:7::/:/'' @ [NL]))]"
  have "fst ?r = Inl (PathError ''open'' ''/r/etc/passwd'' ENOENT)" by code_simp
  then have "?r = (Inl (PathError ''open'' ''/r/etc/passwd'' ENOENT), snd ?r)"
    by (metis prod.collapse)
  moreover have "lookupUsernameByUID ?os 7 ''/r'' = Inr ''svc''" by code_simp
  ultimately have "snd ?r = Map.empty \<and> fst (getUserName ?os (snd ?r) 7 ''/r'') = Inr ''svc'' \<and>
      cached_user (snd (getUserName ?os (snd ?r) 7 ''/r'')) (''/r'', strconv_Itoa 7) = Some ''svc''"
    by (rule failed_lookup_not_cached)
  then show ?thesis unfolding Let_def by (elim conjE)
qed

end
