(* ===== verification/Proc.thy ===== *)
theory Proc
  imports Host_OS
begin

text \<open>
  \<open>sensor/internal/utils/process.go\<close>: finding a process by the suffix of its executable name
  and reading the arguments of its command line.
\<close>

record ProcessDetails =
  CmdLine :: "string list"
  PID :: "32 word"

definition procDirName :: string where "procDirName = ''/proc''"

subsection \<open>LocateProcessByExecSuffix\<close>

text \<open>
  The body of the loop for one entry of \<open>/proc\<close>: \<open>None\<close> is a \<open>continue\<close>.  A bare executable
  name gets a leading slash before the comparison, unless it is a kernel thread in brackets.
\<close>

definition argv0_path :: "string \<Rightarrow> string" where
  "argv0_path exe = (if hd exe \<noteq> slash \<and> hd exe \<noteq> CHR ''['' then slash # exe else exe)"

definition probe_process :: "os_view \<Rightarrow> string \<Rightarrow> string \<Rightarrow> ProcessDetails option" where
  "probe_process os processSuffix pidDir =
     (case strconv_Atoi pidDir of
        None \<Rightarrow> None
      | Some pid \<Rightarrow>
          (case os_ReadFile os (path_Join [procDirName, pidDir, ''cmdline'']) of
             Inl err \<Rightarrow> None
           | Inr cmdLine \<Rightarrow>
               let cmdLineSplitted = split_on NUL cmdLine;
                   processNameFromCMD = hd cmdLineSplitted
               in if length processNameFromCMD = 0 then None
                  else if strings_HasSuffix (argv0_path processNameFromCMD) processSuffix
                  then Some \<lparr>CmdLine = cmdLineSplitted, PID = word_of_int pid\<rparr>
                  else None))"

definition LocateProcessByExecSuffix :: "os_view \<Rightarrow> string \<Rightarrow> ProcessDetails result" where
  "LocateProcessByExecSuffix os processSuffix =
     (case os_Open os procDirName of
        Inl err \<Rightarrow> Inl (ErrText (''failed to open processes dir: '' @ err_text err))
      | Inr procDir \<Rightarrow>
          (case readdir_loop (search_body (probe_process os processSuffix)) ()
                  (dir_stream procDirName procDir) of
             Inl res \<Rightarrow> Inr res
           | Inr (_, err) \<Rightarrow>
               if err \<noteq> EOF
               then Inl (ErrText (''failed to read processes dir names: '' @ err_text err))
               else Inl (ErrText ''no process with given suffix found'')))"

text \<open>The same without batches: the first match in directory order.\<close>

lemma LocateProcess_search:
  "LocateProcessByExecSuffix os sfx =
     (case os_Open os procDirName of
        Inl err \<Rightarrow> Inl (ErrText (''failed to open processes dir: '' @ err_text err))
      | Inr d \<Rightarrow>
          (case first_some (probe_process os sfx) (listed id (h_names d) (h_list_end d)) of
             Some p \<Rightarrow> Inr p
           | None \<Rightarrow>
               (case h_list_end d of
                  None \<Rightarrow> Inl (ErrText ''no process with given suffix found'')
                | Some e \<Rightarrow> Inl (ErrText (''failed to read processes dir names: '' @
                    err_text (PathError ''readdirent'' procDirName e))))))"
  by (simp add: LocateProcessByExecSuffix_def dir_stream_def readdir_loop_search list_end_err_def
      split: sum.splits option.splits)

text \<open>What a located process is.\<close>

lemma probe_process_SomeD:
  assumes "probe_process os sfx name = Some p"
  obtains cmdline pid where
    "strconv_Atoi name = Some pid" "PID p = word_of_int pid"
    "os_ReadFile os (path_Join [procDirName, name, ''cmdline'']) = Inr cmdline"
    "CmdLine p = split_on NUL cmdline"
    "hd (CmdLine p) \<noteq> []" "suffix sfx (argv0_path (hd (CmdLine p)))"
  using assms
  by (auto simp: probe_process_def strings_HasSuffix_def Let_def split: option.splits sum.splits if_splits)

lemma LocateProcess_InrD:
  assumes "LocateProcessByExecSuffix os sfx = Inr p"
  obtains d name where "os_Open os procDirName = Inr d" "name \<in> set (h_names d)"
    "probe_process os sfx name = Some p"
proof -
  from assms obtain d where d: "os_Open os procDirName = Inr d"
    and f: "first_some (probe_process os sfx) (listed id (h_names d) (h_list_end d)) = Some p"
    by (auto simp: LocateProcess_search split: sum.splits option.splits)
  from first_some_SomeD [OF f] obtain pre name post where
    "listed id (h_names d) (h_list_end d) = pre @ name # post" "probe_process os sfx name = Some p"
    by blast
  moreover from this have "name \<in> set (h_names d)"
    using set_listed_subset [of id "h_names d" "h_list_end d"] by auto
  ultimately show thesis using d that by blast
qed


subsection \<open>Arguments\<close>

text \<open>The loop of \<open>GetArg\<close> from some index on: the rest of the command line.\<close>

fun getArg_from :: "string \<Rightarrow> string list \<Rightarrow> string \<times> bool" where
  "getArg_from argName [] = ([], False)"
| "getArg_from argName (arg # rest) =
     (if \<not> strings_HasPrefix arg argName then getArg_from argName rest
      else let val = drop (length argName) arg in
        if val \<noteq> [] then
          (if strings_HasPrefix val ''='' then (drop 1 val, True) else getArg_from argName rest)
        else (case rest of v # _ \<Rightarrow> (v, True) | [] \<Rightarrow> ([], True)))"

definition GetArg :: "ProcessDetails \<Rightarrow> string \<Rightarrow> string \<times> bool" where
  "GetArg p argName = getArg_from argName (CmdLine p)"

definition RawCmd :: "ProcessDetails \<Rightarrow> string" where
  "RawCmd p = strings_Join (CmdLine p) '' ''"

definition RootDir :: "ProcessDetails \<Rightarrow> string" where
  "RootDir p = ''/proc/'' @ strconv_Itoa (sint (PID p)) @ ''/root''"

definition ContaineredPath :: "ProcessDetails \<Rightarrow> string \<Rightarrow> string" where
  "ContaineredPath p filePath = path_Join [RootDir p, filePath]"

text \<open>An argument that sets \<open>name\<close>: the bare name or the name with an equals sign.\<close>

definition sets_arg :: "string \<Rightarrow> string \<Rightarrow> bool" where
  "sets_arg name arg \<longleftrightarrow> arg = name \<or> prefix (name @ ''='') arg"

fun arg_value :: "string \<Rightarrow> string list \<Rightarrow> string" where
  "arg_value name [] = []"
| "arg_value name (arg # rest) =
     (if arg = name then (case rest of [] \<Rightarrow> [] | v # _ \<Rightarrow> v) else drop (Suc (length name)) arg)"

lemma sets_arg_iff:
  "sets_arg name arg \<longleftrightarrow> prefix name arg \<and>
     (drop (length name) arg = [] \<or> prefix ''='' (drop (length name) arg))"
  by (auto simp: sets_arg_def prefix_def)

lemma getArg_from_sets_arg:
  "getArg_from name args =
     (case dropWhile (\<lambda>a. \<not> sets_arg name a) args of
        [] \<Rightarrow> ([], False)
      | a # rest \<Rightarrow> (arg_value name (a # rest), True))"
proof (induction args)
  case (Cons a args)
  show ?case
  proof (cases "prefix name a")
    case True
    then obtain v where a: "a = name @ v" by (auto simp: prefix_def)
    then show ?thesis using Cons
      by (cases v) (auto simp: strings_HasPrefix_def sets_arg_iff split: list.splits)
  next
    case False
    then show ?thesis using Cons by (simp add: strings_HasPrefix_def sets_arg_iff)
  qed
qed simp

text \<open>The root directory of a process as components.\<close>

lemma RootDir_path:
  "RootDir p = slash # ''proc/'' @ strconv_Itoa (sint (PID p)) @ ''/root''"
  by (simp add: RootDir_def)

lemma plain_name_Itoa [simp]: "plain_name (strconv_Itoa i)"
proof -
  have "strconv_Itoa i \<noteq> ''.''" "strconv_Itoa i \<noteq> dotdot"
    using Itoa_no_slash(2) [of i] by (metis dotdot_def list.set_intros(1))+
  then show ?thesis by (simp add: plain_name_def)
qed

lemma RootDir_comps:
  "no_dotdot (''proc/'' @ strconv_Itoa (sint (PID p)) @ ''/root'')"
  "comps (''proc/'' @ strconv_Itoa (sint (PID p)) @ ''/root'') =
     [''proc'', strconv_Itoa (sint (PID p)), ''root'']"
proof -
  have plain: "plain_name ''proc''" "plain_name ''root''" by (simp_all add: plain_name_def dotdot_def)
  have path: "''proc/'' @ strconv_Itoa i @ ''/root'' = ''proc'' @ slash # strconv_Itoa i @ slash # ''root''" for i
    by simp
  show "no_dotdot (''proc/'' @ strconv_Itoa (sint (PID p)) @ ''/root'')"
    unfolding path no_dotdot_append_slash using plain by simp
  show "comps (''proc/'' @ strconv_Itoa (sint (PID p)) @ ''/root'') =
     [''proc'', strconv_Itoa (sint (PID p)), ''root'']"
    unfolding path comps_append_slash using plain by simp
qed

lemma abs_path_RootDir:
  "abs_path [''proc'', strconv_Itoa (sint (PID p)), ''root''] = RootDir p"
  by (simp add: abs_path_def RootDir_def)

lemma join_RootDir:
  assumes "no_dotdot f"
  shows "path_Join [RootDir p, f] =
    abs_path ([''proc'', strconv_Itoa (sint (PID p)), ''root''] @ comps f)"
proof -
  have "\<forall>e \<in> set [f]. no_dotdot e" using assms by simp
  from path_Join_rooted [OF RootDir_comps(1) this, of p]
  show ?thesis unfolding RootDir_comps(2) RootDir_path by simp
qed

subsection \<open>Properties\<close>

text \<open>
  C26: the located process is the first one, in the order in which \<open>/proc\<close> lists its entries,
  whose name is a number and whose executable has the suffix; the entries before it do not
  match, and the command line is the one read from it, split at the zero bytes.
\<close>

theorem LocateProcess_is_first_match:
  assumes "LocateProcessByExecSuffix os sfx = Inr p"
  obtains d name before after cmdline pid where
    "os_Open os procDirName = Inr d"
    "listed id (h_names d) (h_list_end d) = before @ name # after"
    "\<forall>n \<in> set before. probe_process os sfx n = None"
    "strconv_Atoi name = Some pid" "PID p = word_of_int pid"
    "os_ReadFile os (path_Join [procDirName, name, ''cmdline'']) = Inr cmdline"
    "CmdLine p = split_on NUL cmdline"
    "hd (CmdLine p) \<noteq> []" "suffix sfx (argv0_path (hd (CmdLine p)))"
proof -
  from assms obtain d where d: "os_Open os procDirName = Inr d"
    and f: "first_some (probe_process os sfx) (listed id (h_names d) (h_list_end d)) = Some p"
    by (auto simp: LocateProcess_search split: sum.splits option.splits)
  from first_some_SomeD [OF f] obtain before name after where
    l: "listed id (h_names d) (h_list_end d) = before @ name # after"
      "\<forall>n \<in> set before. probe_process os sfx n = None" and "probe_process os sfx name = Some p"
    by blast
  from probe_process_SomeD [OF this(3)] show thesis using that [OF d l] by metis
qed

definition sample_procs :: os_view where
  "sample_procs = host_of
     [(''/proc'', dir_node [''self'', ''7'', ''42'', ''43'']),
      (''/proc/7/cmdline'', file_node 0x124 (0, 0) ''/usr/sbin/cron''),
      (''/proc/42/cmdline'', file_node 0x124 (0, 0)
         (''kubelet'' @ [NUL] @ ''--config'' @ [NUL] @ ''/etc/k.yaml'' @ [NUL])),
      (''/proc/43/cmdline'', file_node 0x124 (0, 0) ''/usr/bin/kubelet'')]"

lemma LocateProcess_is_first_match_witness:
  "LocateProcessByExecSuffix sample_procs ''/kubelet'' =
     Inr \<lparr>CmdLine = [''kubelet'', ''--config'', ''/etc/k.yaml'', ''''], PID = 42\<rparr> \<and>
   (\<exists>d name before after. os_Open sample_procs procDirName = Inr d \<and>
     listed id (h_names d) (h_list_end d) = before @ name # after \<and>
     (\<forall>n \<in> set before. probe_process sample_procs ''/kubelet'' n = None))"
proof -
  have loc: "LocateProcessByExecSuffix sample_procs ''/kubelet'' =
     Inr \<lparr>CmdLine = [''kubelet'', ''--config'', ''/etc/k.yaml'', ''''], PID = 42\<rparr>" by code_simp
  then show ?thesis by (rule LocateProcess_is_first_match) (use loc in blast)
qed

text \<open>
  C27: \<open>GetArg\<close> answers from the first argument that is the bare name or the name with an equals
  sign: the text after the equals sign, or the next argument (empty at the end).  Without such
  an argument it answers empty and false.
\<close>

theorem GetArg_first_setting:
  "GetArg p name =
     (case dropWhile (\<lambda>a. \<not> sets_arg name a) (CmdLine p) of
        [] \<Rightarrow> ([], False)
      | a # rest \<Rightarrow> (arg_value name (a # rest), True))"
  by (simp add: GetArg_def getArg_from_sets_arg)

text \<open>
  A flag without value takes the argument after it as its value, also when that is another
  flag; the documented empty value is returned only when the flag is the last argument.
\<close>

theorem GetArg_takes_next_argument:
  assumes "CmdLine p = pre @ name # v # post" and "\<forall>a \<in> set pre. \<not> sets_arg name a"
  shows "GetArg p name = (v, True)"
proof -
  have "dropWhile (\<lambda>a. \<not> sets_arg name a) (CmdLine p) = name # v # post"
    using assms by (simp add: dropWhile_append2 sets_arg_def)
  then show ?thesis by (simp add: GetArg_def getArg_from_sets_arg)
qed

lemma GetArg_takes_next_argument_witness:
  "GetArg \<lparr>CmdLine = [''kubelet'', ''--kubeconfig'', ''--v=2'', ''''], PID = 1\<rparr> ''--kubeconfig''
     = (''--v=2'', True)"
  by (rule GetArg_takes_next_argument [of _ "[''kubelet'']" _ _ "['''']"]) code_simp+

text \<open>
  C30: a path without \<open>..\<close> components, seen from a process, stays below the root directory of
  the process.
\<close>

theorem ContaineredPath_confined:
  assumes "no_dotdot f"
  shows "below (RootDir p) (ContaineredPath p f)"
  using below_abs_path [of "[''proc'', strconv_Itoa (sint (PID p)), ''root'']" "comps f"]
  by (simp add: ContaineredPath_def join_RootDir [OF assms] abs_path_RootDir)

lemma ContaineredPath_confined_witness:
  "below ''/proc/42/root'' (ContaineredPath \<lparr>CmdLine = [], PID = 42\<rparr> ''/etc//kubernetes/./pki'')"
proof -
  have "below (RootDir \<lparr>CmdLine = [], PID = 42\<rparr>)
      (ContaineredPath \<lparr>CmdLine = [], PID = 42\<rparr> ''/etc//kubernetes/./pki'')"
    by (rule ContaineredPath_confined) code_simp
  moreover have "RootDir \<lparr>CmdLine = [], PID = 42\<rparr> = ''/proc/42/root''" by code_simp
  ultimately show ?thesis by simp
qed

text \<open>
  A path with \<open>..\<close> components leaves it: the joined path is cleaned lexically, so an
  argument of a containerised process can name any file of the scanner's own file system.
\<close>

theorem ContaineredPath_escapes:
  assumes "no_dotdot f"
  shows "ContaineredPath p (''../../..'' @ slash # f) = abs_path (comps f)"
proof -
  have split: "split_on slash (RootDir p @ slash # ''../../..'' @ slash # f) =
      ['''', ''proc'', strconv_Itoa (sint (PID p)), ''root'', dotdot, dotdot, dotdot] @ split_on slash f"
    by (simp add: RootDir_def dotdot_def split_on_append_sep [of slash _ "''root/../../../'' @ f",
          simplified])
  have "strconv_Itoa (sint (PID p)) \<noteq> dotdot" "strconv_Itoa (sint (PID p)) \<noteq> ''.''"
    using plain_name_Itoa [of "sint (PID p)"] by (auto simp: plain_name_def)
  then have fold: "foldl (clean_step True) [] (['''', ''proc'', strconv_Itoa (sint (PID p)), ''root'',
      dotdot, dotdot, dotdot] @ split_on slash f) = rev (comps f)"
    using assms by (simp add: foldl_clean_no_dotdot no_dotdot_def comps_def) (simp add: dotdot_def)
  show ?thesis
    unfolding ContaineredPath_def path_Join_def path_Clean_def
    using split fold by (simp add: Let_def RootDir_path abs_path_def)
qed

lemma ContaineredPath_escapes_witness:
  "ContaineredPath \<lparr>CmdLine = [], PID = 42\<rparr> ''../../../etc/shadow'' = ''/etc/shadow''"
proof -
  have "ContaineredPath \<lparr>CmdLine = [], PID = 42\<rparr> (''../../..'' @ slash # ''etc/shadow'') =
      abs_path (comps ''etc/shadow'')"
    by (rule ContaineredPath_escapes) code_simp
  moreover have "abs_path (comps ''etc/shadow'') = ''/etc/shadow''" by code_simp
  ultimately show ?thesis by simp
qed

end
