(* ===== verification/File_Info.thy ===== *)
theory File_Info
  imports Name_Cache Proc
begin

text \<open>
  \<open>sensor/internal/utils/utils.go\<close> and \<open>sensor/datastructures/fileinfo.go\<close>: what the scanner
  reports about one file, seen from the root directory of the host or of a process, together
  with the logging wrappers of \<open>sensor/verboseutils.go\<close>.

  The operations that name owners thread the name cache.  The locale \<open>info_source\<close> is what
  the sensors rely on when they ask for a file: the result does not depend on the state of a
  cache that agrees with the host.
\<close>

record FileOwnership =
  Err :: string
  UID :: int
  GID :: int
  O_Username :: string
  O_Groupname :: string

record FileInfo =
  Ownership :: FileOwnership
  FPath :: string
  Content :: "bytes option"
  Permissions :: int

definition HostFileSystemDefaultLocation :: string where
  "HostFileSystemDefaultLocation = ''/host_fs''"

definition HostPath :: "string \<Rightarrow> string" where
  "HostPath filePath = path_Join [HostFileSystemDefaultLocation, filePath]"

definition ReadFileOnHostFileSystem :: "os_view \<Rightarrow> string \<Rightarrow> bytes result" where
  "ReadFileOnHostFileSystem os fileName = os_ReadFile os (HostPath fileName)"

definition GetFilePermissions :: "os_view \<Rightarrow> string \<Rightarrow> int result" where
  "GetFilePermissions os filePath =
     (case os_Stat os filePath of
        Inl err \<Rightarrow> Inl err
      | Inr info \<Rightarrow> Inr (uint (mode_Perm (Mode info))))"

definition ErrNotUnixFS :: goerr where
  "ErrNotUnixFS = ErrText ''operation not supported by the file system''"

text \<open>The ids come back even with an error, as -1.\<close>

definition GetFileUNIXOwnership :: "os_view \<Rightarrow> string \<Rightarrow> int \<times> int \<times> goerr option" where
  "GetFileUNIXOwnership os filePath =
     (case os_Stat os filePath of
        Inl err \<Rightarrow> (-1, -1, Some err)
      | Inr info \<Rightarrow>
          (case Sys info of
             None \<Rightarrow> (-1, -1, Some ErrNotUnixFS)
           | Some (uid, gid) \<Rightarrow> (uint uid, uint gid, None)))"

definition IsPathExists :: "os_view \<Rightarrow> string \<Rightarrow> bool" where
  "IsPathExists os filename =
     (case os_Stat os filename of Inl err \<Rightarrow> \<not> os_IsNotExist err | Inr _ \<Rightarrow> True)"

definition MakeFileInfo :: "os_view \<Rightarrow> string \<Rightarrow> bool \<Rightarrow> FileInfo result" where
  "MakeFileInfo os filePath readContent =
     (case GetFilePermissions os filePath of
        Inl err \<Rightarrow> Inl err
      | Inr perms \<Rightarrow>
          (case GetFileUNIXOwnership os filePath of
             (uid, gid, oerr) \<Rightarrow>
               let own = \<lparr>Err = (case oerr of None \<Rightarrow> [] | Some e \<Rightarrow> err_text e),
                          UID = uid, GID = gid, O_Username = [], O_Groupname = []\<rparr>;
                   ret = \<lparr>Ownership = own, FPath = filePath, Content = None, Permissions = perms\<rparr>
               in if readContent then
                    (case os_ReadFile os filePath of
                       Inl err \<Rightarrow> Inl err
                     | Inr content \<Rightarrow> Inr (ret\<lparr>Content := Some content\<rparr>))
                  else Inr ret))"

text \<open>A failed name lookup leaves the empty name.\<close>

definition name_or_empty :: "string result \<Rightarrow> string" where
  "name_or_empty r = (case r of Inl _ \<Rightarrow> [] | Inr n \<Rightarrow> n)"

definition MakeChangedRootFileInfo ::
  "os_view \<Rightarrow> userGroupCache \<Rightarrow> string \<Rightarrow> string \<Rightarrow> bool \<Rightarrow> FileInfo result \<times> userGroupCache" where
  "MakeChangedRootFileInfo os cache rootDir filePath readContent =
     (case MakeFileInfo os (path_Join [rootDir, filePath]) readContent of
        Inl err \<Rightarrow> (Inl err, cache)
      | Inr obj \<Rightarrow>
          (case getUserName os cache (UID (Ownership obj)) rootDir of
             (username, cache1) \<Rightarrow>
               (case getGroupName os cache1 (GID (Ownership obj)) rootDir of
                  (groupname, cache2) \<Rightarrow>
                    (Inr (obj\<lparr>FPath := filePath,
                              Ownership := (Ownership obj)
                                \<lparr>O_Username := name_or_empty username,
                                 O_Groupname := name_or_empty groupname\<rparr>\<rparr>),
                     cache2))))"

definition MakeContaineredFileInfo ::
  "os_view \<Rightarrow> userGroupCache \<Rightarrow> ProcessDetails \<Rightarrow> string \<Rightarrow> bool \<Rightarrow> FileInfo result \<times> userGroupCache" where
  "MakeContaineredFileInfo os cache p filePath readContent =
     MakeChangedRootFileInfo os cache (RootDir p) filePath readContent"

definition makeHostFileInfo ::
  "os_view \<Rightarrow> userGroupCache \<Rightarrow> string \<Rightarrow> bool \<Rightarrow> FileInfo result \<times> userGroupCache" where
  "makeHostFileInfo os cache filePath readContent =
     MakeChangedRootFileInfo os cache HostFileSystemDefaultLocation filePath readContent"


subsection \<open>The wrappers that log an error and return nil\<close>

definition makeChangedRootFileInfoVerbose ::
  "os_view \<Rightarrow> userGroupCache \<Rightarrow> string \<Rightarrow> string \<Rightarrow> bool \<Rightarrow> FileInfo option \<times> userGroupCache" where
  "makeChangedRootFileInfoVerbose os cache rootDir path readContent =
     (case MakeChangedRootFileInfo os cache rootDir path readContent of
        (Inl err, cache') \<Rightarrow> (None, cache')
      | (Inr fileInfo, cache') \<Rightarrow> (Some fileInfo, cache'))"

definition makeHostFileInfoVerbose ::
  "os_view \<Rightarrow> userGroupCache \<Rightarrow> string \<Rightarrow> bool \<Rightarrow> FileInfo option \<times> userGroupCache" where
  "makeHostFileInfoVerbose os cache path readContent =
     makeChangedRootFileInfoVerbose os cache HostFileSystemDefaultLocation path readContent"

definition makeContaineredFileInfoVerbose ::
  "os_view \<Rightarrow> userGroupCache \<Rightarrow> ProcessDetails \<Rightarrow> string \<Rightarrow> bool \<Rightarrow> FileInfo option \<times> userGroupCache" where
  "makeContaineredFileInfoVerbose os cache p filePath readContent =
     makeChangedRootFileInfoVerbose os cache (RootDir p) filePath readContent"

fun makeContaineredFileInfoFromListVerbose ::
  "os_view \<Rightarrow> userGroupCache \<Rightarrow> ProcessDetails \<Rightarrow> string list \<Rightarrow> bool \<Rightarrow>
     FileInfo option \<times> userGroupCache" where
  "makeContaineredFileInfoFromListVerbose os cache p [] readContent = (None, cache)"
| "makeContaineredFileInfoFromListVerbose os cache p (filePath # filePathList) readContent =
     (case makeChangedRootFileInfoVerbose os cache (RootDir p) filePath readContent of
        (Some fileInfo, cache') \<Rightarrow> (Some fileInfo, cache')
      | (None, cache') \<Rightarrow>
          makeContaineredFileInfoFromListVerbose os cache' p filePathList readContent)"


subsection \<open>The result without the cache\<close>

text \<open>The same information computed with direct lookups of the names.\<close>

definition file_info_of :: "os_view \<Rightarrow> string \<Rightarrow> string \<Rightarrow> bool \<Rightarrow> FileInfo result" where
  "file_info_of os rootDir filePath readContent =
     (case MakeFileInfo os (path_Join [rootDir, filePath]) readContent of
        Inl err \<Rightarrow> Inl err
      | Inr obj \<Rightarrow>
          Inr (obj\<lparr>FPath := filePath,
                   Ownership := (Ownership obj)
                     \<lparr>O_Username := name_or_empty (lookupUsernameByUID os (UID (Ownership obj)) rootDir),
                      O_Groupname := name_or_empty (LookupGroupnameByGID os (GID (Ownership obj)) rootDir)\<rparr>\<rparr>))"

lemma MakeChangedRootFileInfo_agrees:
  assumes "cache_agrees os c"
  shows "fst (MakeChangedRootFileInfo os c root p rc) = file_info_of os root p rc"
    and "cache_agrees os (snd (MakeChangedRootFileInfo os c root p rc))"
proof -
  have "fst (MakeChangedRootFileInfo os c root p rc) = file_info_of os root p rc \<and>
      cache_agrees os (snd (MakeChangedRootFileInfo os c root p rc))"
  proof (cases "MakeFileInfo os (path_Join [root, p]) rc")
    case (Inr obj)
    obtain u c1 where u: "getUserName os c (UID (Ownership obj)) root = (u, c1)"
      by (cases "getUserName os c (UID (Ownership obj)) root")
    obtain g c2 where g: "getGroupName os c1 (GID (Ownership obj)) root = (g, c2)"
      by (cases "getGroupName os c1 (GID (Ownership obj)) root")
    have "u = lookupUsernameByUID os (UID (Ownership obj)) root" "cache_agrees os c1"
      using getUserName_agrees [OF assms, of "UID (Ownership obj)" root] u by auto
    moreover have "g = LookupGroupnameByGID os (GID (Ownership obj)) root" "cache_agrees os c2"
      using getGroupName_agrees [OF \<open>cache_agrees os c1\<close>, of "GID (Ownership obj)" root] g by auto
    ultimately show ?thesis
      using Inr u g by (simp add: MakeChangedRootFileInfo_def file_info_of_def)
  qed (simp add: MakeChangedRootFileInfo_def file_info_of_def assms)
  then show "fst (MakeChangedRootFileInfo os c root p rc) = file_info_of os root p rc"
    and "cache_agrees os (snd (MakeChangedRootFileInfo os c root p rc))" by blast+
qed

definition to_option :: "'a result \<Rightarrow> 'a option" where
  "to_option r = (case r of Inl _ \<Rightarrow> None | Inr x \<Rightarrow> Some x)"

lemma to_option_simps [simp]: "to_option (Inl e) = None" "to_option (Inr x) = Some x"
  by (simp_all add: to_option_def)

text \<open>
  The interface the sensors use: a stateful source of file informations with an invariant of
  its state, under which the answer is a function of the request.
\<close>

locale info_source =
  fixes make :: "'c \<Rightarrow> string \<Rightarrow> string \<Rightarrow> bool \<Rightarrow> FileInfo option \<times> 'c"
    and pure_info :: "string \<Rightarrow> string \<Rightarrow> bool \<Rightarrow> FileInfo option"
    and good :: "'c \<Rightarrow> bool"
  assumes make_pure: "good c \<Longrightarrow> fst (make c root p rc) = pure_info root p rc"
    and make_good: "good c \<Longrightarrow> good (snd (make c root p rc))"
    and info_path: "pure_info root p rc = Some fi \<Longrightarrow> FPath fi = p"
    and info_content: "pure_info root p rc = Some fi \<Longrightarrow> Content fi = None \<longleftrightarrow> \<not> rc"
begin

text \<open>Asking for each path of a list until one answers.\<close>

fun first_of :: "'c \<Rightarrow> string \<Rightarrow> string list \<Rightarrow> bool \<Rightarrow> FileInfo option \<times> 'c" where
  "first_of c root [] rc = (None, c)"
| "first_of c root (p # ps) rc =
     (case make c root p rc of
        (Some fi, c') \<Rightarrow> (Some fi, c')
      | (None, c') \<Rightarrow> first_of c' root ps rc)"

lemma makeE:
  assumes "good c"
  obtains c' where "make c root p rc = (pure_info root p rc, c')" "good c'"
  using make_pure [OF assms, of root p rc] make_good [OF assms, of root p rc]
  by (metis prod.collapse)

lemma first_of_pure:
  "good c \<Longrightarrow> fst (first_of c root ps rc) = first_some (\<lambda>p. pure_info root p rc) ps \<and>
     good (snd (first_of c root ps rc))"
proof (induction ps arbitrary: c)
  case (Cons p ps)
  from Cons.prems obtain c' where "make c root p rc = (pure_info root p rc, c')" "good c'"
    by (rule makeE)
  with Cons.IH [of c'] show ?case by (simp split: option.split)
qed simp

text \<open>Collecting the answers for a list of paths.\<close>

fun all_of :: "'c \<Rightarrow> string \<Rightarrow> string list \<Rightarrow> bool \<Rightarrow> FileInfo list \<times> 'c" where
  "all_of c root [] rc = ([], c)"
| "all_of c root (p # ps) rc =
     (case make c root p rc of
        (r, c') \<Rightarrow>
          (case all_of c' root ps rc of
             (rs, c'') \<Rightarrow> (case r of Some fi \<Rightarrow> fi # rs | None \<Rightarrow> rs, c'')))"

lemma all_of_pure:
  "good c \<Longrightarrow> fst (all_of c root ps rc) = List.map_filter (\<lambda>p. pure_info root p rc) ps \<and>
     good (snd (all_of c root ps rc))"
proof (induction ps arbitrary: c)
  case (Cons p ps)
  from Cons.prems obtain c' where "make c root p rc = (pure_info root p rc, c')" "good c'"
    by (rule makeE)
  with Cons.IH [of c'] show ?case
    by (auto simp: List.map_filter_simps split: option.split prod.splits)
qed (simp add: List.map_filter_simps)

end

lemma uint_mode_Perm_le: "uint (mode_Perm m) \<le> 511"
proof -
  have "int (unat (mode_Perm m)) \<le> 511" using mode_Perm_le [of m] by linarith
  then show ?thesis by simp
qed

lemma MakeFileInfo_InrD:
  assumes "MakeFileInfo os p rc = Inr fi"
  shows "FPath fi = p" "Content fi = None \<longleftrightarrow> \<not> rc" "0 \<le> Permissions fi \<and> Permissions fi \<le> 511"
    "O_Username (Ownership fi) = [] \<and> O_Groupname (Ownership fi) = []"
  using assms uint_mode_Perm_le
  by (auto simp: MakeFileInfo_def GetFilePermissions_def Let_def split: sum.splits prod.splits if_splits)

lemma MakeFileInfo_owner:
  assumes "MakeFileInfo os p rc = Inr fi"
  shows "Err (Ownership fi) = [] \<and> UID (Ownership fi) \<in> {0..<2^32} \<and> GID (Ownership fi) \<in> {0..<2^32} \<or>
         Err (Ownership fi) \<noteq> [] \<and> UID (Ownership fi) = -1 \<and> GID (Ownership fi) = -1"
proof -
  have w: "uint w \<in> {0..<2^32}" for w :: "32 word" using uint_lt2p [of w] by simp
  show ?thesis using assms w
    by (auto simp: MakeFileInfo_def GetFilePermissions_def GetFileUNIXOwnership_def ErrNotUnixFS_def
        Let_def split: sum.splits prod.splits if_splits option.splits)
qed

lemma file_info_of_InrD:
  assumes "file_info_of os root p rc = Inr fi"
  shows "FPath fi = p" "Content fi = None \<longleftrightarrow> \<not> rc" "0 \<le> Permissions fi \<and> Permissions fi \<le> 511"
  using assms by (auto simp: file_info_of_def dest: MakeFileInfo_InrD split: sum.splits)

lemma file_info_of_content:
  assumes "file_info_of os root p True = Inr fi"
  shows "\<exists>b. Content fi = Some b \<and> os_ReadFile os (path_Join [root, FPath fi]) = Inr b"
  using assms
  by (auto simp: file_info_of_def MakeFileInfo_def GetFilePermissions_def Let_def
      split: sum.splits prod.splits)

interpretation infos: info_source
  "makeChangedRootFileInfoVerbose os" "\<lambda>root p rc. to_option (file_info_of os root p rc)"
  "cache_agrees os" for os
proof
  fix c root p rc assume c: "cache_agrees os c"
  then show "fst (makeChangedRootFileInfoVerbose os c root p rc) = to_option (file_info_of os root p rc)"
    and "cache_agrees os (snd (makeChangedRootFileInfoVerbose os c root p rc))"
    by (cases "MakeChangedRootFileInfo os c root p rc"; cases "file_info_of os root p rc";
        use MakeChangedRootFileInfo_agrees [OF c, of root p rc] in
        \<open>auto simp: makeChangedRootFileInfoVerbose_def\<close>)+
next
  fix root p rc fi assume "to_option (file_info_of os root p rc) = Some fi"
  then have "file_info_of os root p rc = Inr fi" by (auto simp: to_option_def split: sum.splits)
  then show "FPath fi = p" and "Content fi = None \<longleftrightarrow> \<not> rc" by (rule file_info_of_InrD)+
qed

lemma makeContaineredFileInfoFromList_first_of:
  "makeContaineredFileInfoFromListVerbose os c p ps rc = infos.first_of os c (RootDir p) ps rc"
  by (induction ps arbitrary: c) (auto split: prod.splits option.splits)

subsection \<open>Operations that do not show the cache\<close>

text \<open>
  An operation on the cache whose answer is the same for every cache that agrees with the host,
  and which leaves such a cache behind.  The property is closed under sequencing and case
  distinctions, so it is proved for a sensor by following the sensor's structure.
\<close>

named_theorems blind_intros \<open>rules that show an operation does not show the cache\<close>

definition cache_blind :: "os_view \<Rightarrow> (userGroupCache \<Rightarrow> 'a \<times> userGroupCache) \<Rightarrow> bool" where
  "cache_blind os op \<longleftrightarrow>
     (\<exists>r. \<forall>c. cache_agrees os c \<longrightarrow> (\<exists>c'. op c = (r, c') \<and> cache_agrees os c'))"

lemma cache_blindI:
  "(\<And>c. cache_agrees os c \<Longrightarrow> \<exists>c'. op c = (r, c') \<and> cache_agrees os c') \<Longrightarrow> cache_blind os op"
  unfolding cache_blind_def by blast

lemma cache_blindD:
  assumes "cache_blind os op" "cache_agrees os c"
  shows "fst (op c) = fst (op Map.empty)" "cache_agrees os (snd (op c))"
proof -
  from assms(1) obtain r where
    r: "\<And>c. cache_agrees os c \<Longrightarrow> \<exists>c'. op c = (r, c') \<and> cache_agrees os c'"
    unfolding cache_blind_def by blast
  from r [OF assms(2)] r [OF cache_agrees_empty] show "fst (op c) = fst (op Map.empty)"
    "cache_agrees os (snd (op c))" by auto
qed

lemma cache_blind_return [blind_intros]: "cache_blind os (Pair x)" "cache_blind os (\<lambda>c. (x, c))"
  unfolding cache_blind_def by auto

lemma cache_blind_bind [blind_intros]:
  assumes "cache_blind os op" "\<And>r. cache_blind os (k r)"
  shows "cache_blind os (\<lambda>c. case op c of (r, c') \<Rightarrow> k r c')"
proof -
  from assms(1) obtain r where
    r: "\<And>c. cache_agrees os c \<Longrightarrow> \<exists>c'. op c = (r, c') \<and> cache_agrees os c'"
    unfolding cache_blind_def by blast
  from assms(2) [of r] obtain r2 where
    r2: "\<And>c. cache_agrees os c \<Longrightarrow> \<exists>c'. k r c = (r2, c') \<and> cache_agrees os c'"
    unfolding cache_blind_def by blast
  show ?thesis
  proof (rule cache_blindI)
    fix c assume "cache_agrees os c"
    with r obtain c1 where "op c = (r, c1)" "cache_agrees os c1" by blast
    with r2 show "\<exists>c'. (case op c of (r, c') \<Rightarrow> k r c') = (r2, c') \<and> cache_agrees os c'" by auto
  qed
qed

lemma cache_blind_if [blind_intros]:
  "(b \<Longrightarrow> cache_blind os f) \<Longrightarrow> (\<not> b \<Longrightarrow> cache_blind os g) \<Longrightarrow>
     cache_blind os (\<lambda>c. if b then f c else g c)"
  by (cases b) simp_all

lemma cache_blind_option [blind_intros]:
  "cache_blind os f \<Longrightarrow> (\<And>x. cache_blind os (g x)) \<Longrightarrow>
     cache_blind os (\<lambda>c. case r of None \<Rightarrow> f c | Some x \<Rightarrow> g x c)"
  by (cases r) simp_all

lemma cache_blind_sum [blind_intros]:
  "(\<And>e. cache_blind os (f e)) \<Longrightarrow> (\<And>x. cache_blind os (g x)) \<Longrightarrow>
     cache_blind os (\<lambda>c. case r of Inl e \<Rightarrow> f e c | Inr x \<Rightarrow> g x c)"
  by (cases r) simp_all

lemma cache_blind_pair [blind_intros]:
  "(\<And>x y. cache_blind os (f x y)) \<Longrightarrow> cache_blind os (\<lambda>c. case r of (x, y) \<Rightarrow> f x y c)"
  by (cases r) simp_all

lemma cache_blind_file_info [blind_intros]:
  "cache_blind os (\<lambda>c. MakeChangedRootFileInfo os c root p rc)"
  "cache_blind os (\<lambda>c. MakeContaineredFileInfo os c pr p rc)"
proof -
  show blind: "cache_blind os (\<lambda>c. MakeChangedRootFileInfo os c root p rc)" for root
    using MakeChangedRootFileInfo_agrees [of os _ root p rc]
    by (intro cache_blindI [of _ _ "file_info_of os root p rc"]) (metis prod.collapse)
  show "cache_blind os (\<lambda>c. MakeContaineredFileInfo os c pr p rc)"
    unfolding MakeContaineredFileInfo_def by (rule blind)
qed

lemma cache_blind_verbose [blind_intros]:
  "cache_blind os (\<lambda>c. makeChangedRootFileInfoVerbose os c root p rc)"
  "cache_blind os (\<lambda>c. makeHostFileInfoVerbose os c p rc)"
  "cache_blind os (\<lambda>c. makeContaineredFileInfoVerbose os c pr p rc)"
  "cache_blind os (\<lambda>c. makeContaineredFileInfoFromListVerbose os c pr ps rc)"
proof -
  show blind: "cache_blind os (\<lambda>c. makeChangedRootFileInfoVerbose os c root p rc)" for root
  proof (rule cache_blindI)
    fix c assume "cache_agrees os c"
    then show "\<exists>c'. makeChangedRootFileInfoVerbose os c root p rc =
        (to_option (file_info_of os root p rc), c') \<and> cache_agrees os c'"
      by (rule infos.makeE) blast
  qed
  show "cache_blind os (\<lambda>c. makeHostFileInfoVerbose os c p rc)"
    "cache_blind os (\<lambda>c. makeContaineredFileInfoVerbose os c pr p rc)"
    unfolding makeHostFileInfoVerbose_def makeContaineredFileInfoVerbose_def by (rule blind)+
  show "cache_blind os (\<lambda>c. makeContaineredFileInfoFromListVerbose os c pr ps rc)"
  proof (rule cache_blindI)
    fix c assume "cache_agrees os c"
    from infos.first_of_pure [OF this, of "RootDir pr" ps rc]
    show "\<exists>c'. makeContaineredFileInfoFromListVerbose os c pr ps rc =
        (first_some (\<lambda>p. to_option (file_info_of os (RootDir pr) p rc)) ps, c') \<and> cache_agrees os c'"
      unfolding makeContaineredFileInfoFromList_first_of
      by (cases "infos.first_of os c (RootDir pr) ps rc") simp
  qed
qed

subsection \<open>Properties\<close>

definition sample_file_host :: os_view where
  "sample_file_host = host_of
     [(''/host_fs/etc/x'', file_node 0x180 (0, 0) ''data''),
      (''/host_fs/etc/passwd'', file_node 0x1A4 (0, 0) (''root:x:0:0::/root:/bin/sh'' @ [NL])),
      (''/host_fs/etc/group'', file_node 0x1A4 (0, 0) (''root:x:0:'' @ [NL]))]"

text \<open>
  C14: from any cache that agrees with the host, what is reported of a file is what direct lookups
  give, and the cache left behind agrees again: while the host stays as it is, the cache does not
  show in a report.
\<close>

theorem file_info_cache_transparent:
  assumes "cache_agrees os c"
  shows "fst (MakeChangedRootFileInfo os c root p rc) = file_info_of os root p rc \<and>
    cache_agrees os (snd (MakeChangedRootFileInfo os c root p rc))"
  using MakeChangedRootFileInfo_agrees [OF assms] by auto

lemma file_info_cache_transparent_witness:
  "let c = snd (MakeChangedRootFileInfo sample_file_host Map.empty ''/host_fs'' ''/etc/x'' False)
   in cached_user c (''/host_fs'', ''0'') = Some ''root'' \<and>
      fst (MakeChangedRootFileInfo sample_file_host c ''/host_fs'' ''/etc/passwd'' True) =
        file_info_of sample_file_host ''/host_fs'' ''/etc/passwd'' True"
proof -
  let ?c = "snd (MakeChangedRootFileInfo sample_file_host Map.empty ''/host_fs'' ''/etc/x'' False)"
  have "cached_user ?c (''/host_fs'', ''0'') = Some ''root''" by code_simp
  moreover have "cache_agrees sample_file_host ?c"
    by (rule file_info_cache_transparent [THEN conjunct2]) simp
  then have "fst (MakeChangedRootFileInfo sample_file_host ?c ''/host_fs'' ''/etc/passwd'' True) =
        file_info_of sample_file_host ''/host_fs'' ''/etc/passwd'' True"
    by (rule file_info_cache_transparent [THEN conjunct1])
  ultimately show ?thesis unfolding Let_def by (rule conjI)
qed

text \<open>
  C31: of a file that is reported, the permissions are nine bits, the path is the one asked for,
  the content is there exactly when asked for, and the owner is either two ids in 32 bits
  without an error or the pair of -1 with one.
\<close>

theorem file_info_well_formed:
  assumes "MakeChangedRootFileInfo os c root p rc = (Inr fi, c')"
  shows "Permissions fi \<in> {0..511} \<and> FPath fi = p \<and> (Content fi = None \<longleftrightarrow> \<not> rc) \<and>
    (Err (Ownership fi) = [] \<and> UID (Ownership fi) \<in> {0..<2^32} \<and> GID (Ownership fi) \<in> {0..<2^32} \<or>
     Err (Ownership fi) \<noteq> [] \<and> UID (Ownership fi) = -1 \<and> GID (Ownership fi) = -1)"
proof -
  from assms obtain obj where obj: "MakeFileInfo os (path_Join [root, p]) rc = Inr obj"
    and fi: "FPath fi = p" "Content fi = Content obj" "Permissions fi = Permissions obj"
      "Err (Ownership fi) = Err (Ownership obj)" "UID (Ownership fi) = UID (Ownership obj)"
      "GID (Ownership fi) = GID (Ownership obj)"
    by (auto simp: MakeChangedRootFileInfo_def split: sum.splits prod.splits)
  then show ?thesis using MakeFileInfo_InrD [OF obj] MakeFileInfo_owner [OF obj] by simp
qed

lemma file_info_well_formed_witness:
  "\<exists>fi. fst (makeHostFileInfo sample_file_host Map.empty ''/etc/x'' True) = Inr fi \<and>
     Content fi = Some ''data'' \<and> O_Username (Ownership fi) = ''root'' \<and> Permissions fi \<le> 511"
proof -
  let ?fi = "\<lparr>Ownership = \<lparr>Err = [], UID = 0, GID = 0, O_Username = ''root'', O_Groupname = ''root''\<rparr>,
      FPath = ''/etc/x'', Content = Some ''data'', Permissions = 384\<rparr>"
  let ?r = "MakeChangedRootFileInfo sample_file_host Map.empty HostFileSystemDefaultLocation ''/etc/x'' True"
  have fst: "fst ?r = Inr ?fi" by code_simp
  then have "?r = (Inr ?fi, snd ?r)" by (metis prod.collapse)
  from file_info_well_formed [OF this] have "Permissions ?fi \<le> 511" by simp
  with fst show ?thesis unfolding makeHostFileInfo_def by simp
qed

end
