(* ===== verification/Verbose_Walk.thy ===== *)
theory Verbose_Walk
  imports File_Info
begin

text \<open>
  The recursive directory listing of \<open>sensor/verboseutils.go\<close>.

  The Go function appends to one slice through a pointer and warms the name cache as it goes;
  \<open>makeHostDirFilesInfoVerbose\<close> threads both and takes fuel for its recursive calls, one unit
  per call depth.  \<open>dir_files\<close> is the specification: the flat list of the files below a
  directory, without cache and accumulator, by recursion on the number of levels left before
  the depth limit.  The refinement lemma connects the two and shows that the fuel suffices.
\<close>

definition maxRecursionDepth :: nat where "maxRecursionDepth = 10"

type_synonym walk_state = "FileInfo list \<times> userGroupCache"

text \<open>
  What a call leaves behind: the returned slice and error, and the shared state.  \<open>None\<close> is
  running out of fuel.
\<close>

type_synonym walk_result = "((FileInfo list \<times> goerr option) \<times> walk_state) option"

text \<open>The tail of the loop body, for one entry.\<close>

definition record_entry ::
  "os_view \<Rightarrow> string \<Rightarrow> FileStat \<Rightarrow> walk_state \<Rightarrow> walk_state" where
  "record_entry os filePath stats s =
     (case makeHostFileInfoVerbose os (snd s) filePath False of
        (fileInfo, cache') \<Rightarrow>
          (case fileInfo of
             Some fi \<Rightarrow> (if mode_IsDir (Mode stats) then fst s else fst s @ [fi], cache')
           | None \<Rightarrow> (fst s, cache')))"

text \<open>
  The loop body.  \<open>call\<close> is the recursive call; its returned values are discarded, its effect on
  the shared slice and cache stays.
\<close>

definition visit_entry ::
  "(string \<Rightarrow> nat \<Rightarrow> walk_state \<Rightarrow> walk_result) \<Rightarrow> os_view \<Rightarrow> string \<Rightarrow> bool \<Rightarrow> nat \<Rightarrow>
     walk_state \<Rightarrow> string \<Rightarrow> unit + walk_state" where
  "visit_entry call os dir recursive recursionLevel s fileName =
     (let filePath = path_Join [dir, fileName] in
      case os_Stat os (HostPath filePath) of
        Inl err \<Rightarrow> Inr s
      | Inr stats \<Rightarrow>
          if mode_IsDir (Mode stats) then
            (if recursionLevel + 1 = maxRecursionDepth then Inr s
             else (case call filePath (recursionLevel + 1) s of
                     None \<Rightarrow> Inl ()
                   | Some (_, s') \<Rightarrow> Inr (record_entry os filePath stats s')))
          else Inr (record_entry os filePath stats s))"

primrec makeHostDirFilesInfoVerbose ::
  "nat \<Rightarrow> os_view \<Rightarrow> bool \<Rightarrow> string \<Rightarrow> nat \<Rightarrow> walk_state \<Rightarrow> walk_result" where
  "makeHostDirFilesInfoVerbose 0 = (\<lambda>os recursive dir recursionLevel s. None)"
| "makeHostDirFilesInfoVerbose (Suc fuel) = (\<lambda>os recursive dir recursionLevel s.
     (case os_Open os (HostPath dir) of
        Inl err \<Rightarrow> Some (([], Some (wrap_err (''failed to open dir at '' @ dir @ '': '') err)), s)
      | Inr dirInfo \<Rightarrow>
          (case readdir_loop
                  (\<lambda>s fileNames. loop_list
                     (visit_entry (makeHostDirFilesInfoVerbose fuel os recursive) os dir recursive
                        recursionLevel) s (sort fileNames))
                  s (dir_stream (HostPath dir) dirInfo) of
             Inl _ \<Rightarrow> None
           | Inr (s', err) \<Rightarrow>
               Some ((fst s', if errors_Is err EOF then None else Some err), s'))))"

text \<open>A call with a nil slice, as the sensors make it.\<close>

definition host_dir_files :: "os_view \<Rightarrow> userGroupCache \<Rightarrow> string \<Rightarrow>
    ((FileInfo list \<times> goerr option) \<times> userGroupCache)" where
  "host_dir_files os cache dir =
     (case makeHostDirFilesInfoVerbose maxRecursionDepth os True dir 0 ([], cache) of
        Some (r, s) \<Rightarrow> (r, snd s)
      | None \<Rightarrow> (([], None), cache))"


subsection \<open>The specification\<close>

definition host_info :: "os_view \<Rightarrow> string \<Rightarrow> FileInfo list" where
  "host_info os p =
     (case file_info_of os HostFileSystemDefaultLocation p False of Inl _ \<Rightarrow> [] | Inr fi \<Rightarrow> [fi])"

text \<open>The entries of a directory in the order the walk visits them.\<close>

definition dir_entries :: "os_view \<Rightarrow> string \<Rightarrow> string list" where
  "dir_entries os dir =
     (case os_Open os (HostPath dir) of
        Inl _ \<Rightarrow> []
      | Inr h \<Rightarrow> map (\<lambda>n. path_Join [dir, n]) (listed sort (h_names h) (h_list_end h)))"

definition dir_error :: "os_view \<Rightarrow> string \<Rightarrow> goerr option" where
  "dir_error os dir =
     (case os_Open os (HostPath dir) of
        Inl err \<Rightarrow> Some (wrap_err (''failed to open dir at '' @ dir @ '': '') err)
      | Inr h \<Rightarrow> map_option (PathError ''readdirent'' (HostPath dir)) (h_list_end h))"

primrec dir_files :: "nat \<Rightarrow> os_view \<Rightarrow> string \<Rightarrow> FileInfo list" where
  "dir_files 0 = (\<lambda>os dir. [])"
| "dir_files (Suc d) = (\<lambda>os dir.
     concat (map (\<lambda>p. case os_Stat os (HostPath p) of
                        Inl _ \<Rightarrow> []
                      | Inr st \<Rightarrow> if mode_IsDir (Mode st) then dir_files d os p else host_info os p)
               (dir_entries os dir)))"


subsection \<open>Refinement\<close>

lemma record_entry_spec:
  assumes "cache_agrees os c"
  obtains c' where "cache_agrees os c'"
    "record_entry os p st (acc, c) =
       (if mode_IsDir (Mode st) then acc else acc @ host_info os p, c')"
proof -
  obtain c' where "makeHostFileInfoVerbose os c p False =
      (to_option (file_info_of os HostFileSystemDefaultLocation p False), c')" "cache_agrees os c'"
    unfolding makeHostFileInfoVerbose_def by (rule infos.makeE [OF assms])
  then have "cache_agrees os c' \<and> record_entry os p st (acc, c) =
      (if mode_IsDir (Mode st) then acc else acc @ host_info os p, c')"
    by (auto simp: record_entry_def host_info_def to_option_def split: sum.split)
  then show thesis using that by blast
qed

text \<open>A loop whose body appends what \<open>f\<close> gives for the element and keeps the cache right.\<close>

lemma loop_list_appends:
  assumes step: "\<And>x acc c. x \<in> set xs \<Longrightarrow> good c \<Longrightarrow>
      \<exists>c'. body (acc, c) x = Inr (acc @ f x, c') \<and> good c'"
  shows "good c \<Longrightarrow> \<exists>c'. loop_list body (acc, c) xs = Inr (acc @ concat (map f xs), c') \<and> good c'"
  using step
proof (induction xs arbitrary: acc c)
  case (Cons x xs)
  from Cons.prems obtain c1 where "body (acc, c) x = Inr (acc @ f x, c1)" "good c1"
    by (meson list.set_intros)
  moreover from \<open>good c1\<close> obtain c2
    where "loop_list body (acc @ f x, c1) xs = Inr ((acc @ f x) @ concat (map f xs), c2)" "good c2"
    using Cons.IH [of c1 "acc @ f x"] Cons.prems(2) by (meson list.set_intros)
  ultimately show ?case by auto
qed auto

lemma makeHostDirFilesInfo_refines:
  assumes "level < maxRecursionDepth" "maxRecursionDepth - level \<le> fuel" "cache_agrees os c"
  shows "\<exists>c' ret. makeHostDirFilesInfoVerbose fuel os r dir level (acc, c) =
      Some ((ret, dir_error os dir), (acc @ dir_files (maxRecursionDepth - level) os dir, c')) \<and>
      ret = (case os_Open os (HostPath dir) of Inl _ \<Rightarrow> []
             | Inr _ \<Rightarrow> acc @ dir_files (maxRecursionDepth - level) os dir) \<and>
      cache_agrees os c'"
  using assms
proof (induction fuel arbitrary: dir level acc c)
  case 0
  then show ?case by simp
next
  case (Suc fuel)
  obtain d where d: "maxRecursionDepth - level = Suc d" using Suc.prems(1) by (metis Suc_diff_Suc)
  show ?case
  proof (cases "os_Open os (HostPath dir)")
    case (Inl e)
    then show ?thesis using Suc.prems(3) d by (auto simp: dir_error_def dir_entries_def)
  next
    case (Inr h)
    let ?f = "\<lambda>n. case os_Stat os (HostPath (path_Join [dir, n])) of Inl _ \<Rightarrow> []
        | Inr st \<Rightarrow> if mode_IsDir (Mode st) then dir_files d os (path_Join [dir, n])
                    else host_info os (path_Join [dir, n])"
    let ?body = "visit_entry (makeHostDirFilesInfoVerbose fuel os r) os dir r level"
    have body: "\<exists>c'. ?body (acc, c) n = Inr (acc @ ?f n, c') \<and> cache_agrees os c'"
      if good: "cache_agrees os c" for n acc c
    proof (cases "os_Stat os (HostPath (path_Join [dir, n]))")
      case (Inl e)
      then show ?thesis using good by (simp add: visit_entry_def Let_def)
    next
      case (Inr st)
      show ?thesis
      proof (cases "mode_IsDir (Mode st) \<and> level + 1 \<noteq> maxRecursionDepth")
        case True
        then have "level + 1 < maxRecursionDepth" "maxRecursionDepth - (level + 1) \<le> fuel"
          and d': "maxRecursionDepth - (level + 1) = d"
          using Suc.prems d by auto
        from Suc.IH [OF this(1,2) good, of "path_Join [dir, n]" acc, unfolded d'] obtain c1 r1
          where call: "makeHostDirFilesInfoVerbose fuel os r (path_Join [dir, n]) (level + 1) (acc, c) =
              Some (r1, (acc @ dir_files d os (path_Join [dir, n]), c1))" and "cache_agrees os c1"
          by blast
        from record_entry_spec [OF this(2), of "path_Join [dir, n]" st
            "acc @ dir_files d os (path_Join [dir, n])"] obtain c2 where "cache_agrees os c2"
          "record_entry os (path_Join [dir, n]) st (acc @ dir_files d os (path_Join [dir, n]), c1) =
             (acc @ dir_files d os (path_Join [dir, n]), c2)" using True by auto
        then show ?thesis using True Inr call by (simp add: visit_entry_def Let_def)
      next
        case False
        have "d = 0" if "level + 1 = maxRecursionDepth" using that d by simp
        then show ?thesis using False Inr good record_entry_spec [OF good, of "path_Join [dir, n]" st acc]
          by (cases "mode_IsDir (Mode st)") (auto simp: visit_entry_def Let_def)
      qed
    qed
    from loop_list_appends [where body = ?body and good = "cache_agrees os" and f = ?f
        and xs = "listed sort (h_names h) (h_list_end h)" and acc = acc, OF body Suc.prems(3)]
    obtain c' where loop: "loop_list ?body (acc, c) (listed sort (h_names h) (h_list_end h)) =
        Inr (acc @ dir_files (Suc d) os dir, c')" and c': "cache_agrees os c'"
      using Inr by (auto simp: dir_entries_def comp_def)
    have err: "(if errors_Is (list_end_err (HostPath dir) (h_list_end h)) EOF then None
        else Some (list_end_err (HostPath dir) (h_list_end h))) = dir_error os dir"
      using Inr by (simp add: dir_error_def list_end_err_def split: option.split)
    show ?thesis
      using Inr c' d
      by (simp add: dir_stream_def readdir_loop_listed loop err del: dir_files.simps)
  qed
qed

text \<open>The call the sensors make.\<close>

lemma host_dir_files_spec:
  assumes "cache_agrees os c"
  shows "fst (host_dir_files os c dir) =
      (case os_Open os (HostPath dir) of Inl _ \<Rightarrow> [] | Inr _ \<Rightarrow> dir_files maxRecursionDepth os dir,
       dir_error os dir)"
    and "cache_agrees os (snd (host_dir_files os c dir))"
proof -
  have "(0 :: nat) < maxRecursionDepth" by (simp add: maxRecursionDepth_def)
  from makeHostDirFilesInfo_refines [OF this _ assms, of maxRecursionDepth True dir "[]"]
  show "fst (host_dir_files os c dir) =
      (case os_Open os (HostPath dir) of Inl _ \<Rightarrow> [] | Inr _ \<Rightarrow> dir_files maxRecursionDepth os dir,
       dir_error os dir)"
    and "cache_agrees os (snd (host_dir_files os c dir))"
    by (auto simp: host_dir_files_def split: sum.split)
qed

text \<open>The flag \<open>recursive\<close> is only tested by a \<open>continue\<close> at the end of the loop body.\<close>

lemma visit_entry_recursive: "visit_entry call os dir r = visit_entry call os dir r'"
  by (simp add: fun_eq_iff visit_entry_def)

lemma walk_ignores_recursive:
  "makeHostDirFilesInfoVerbose fuel os r dir = makeHostDirFilesInfoVerbose fuel os r' dir"
proof (induction fuel arbitrary: dir)
  case (Suc fuel)
  have "makeHostDirFilesInfoVerbose fuel os r = makeHostDirFilesInfoVerbose fuel os r'"
    using Suc.IH by (rule ext)
  moreover have "visit_entry call os dir r = visit_entry call os dir r'" for call
    by (rule visit_entry_recursive)
  ultimately show ?case by (simp only: makeHostDirFilesInfoVerbose.simps)
qed simp


subsection \<open>Which files are listed\<close>

text \<open>\<open>entry_at os n dir p\<close>: \<open>p\<close> is reached from \<open>dir\<close> over \<open>n\<close> levels of directories.\<close>

inductive entry_at :: "os_view \<Rightarrow> nat \<Rightarrow> string \<Rightarrow> string \<Rightarrow> bool" for os where
  entry: "p \<in> set (dir_entries os dir) \<Longrightarrow> entry_at os 0 dir p"
| descend: "q \<in> set (dir_entries os dir) \<Longrightarrow> os_Stat os (HostPath q) = Inr st \<Longrightarrow>
    mode_IsDir (Mode st) \<Longrightarrow> entry_at os n q p \<Longrightarrow> entry_at os (Suc n) dir p"

inductive_cases entry_at_0E: "entry_at os 0 dir p"
inductive_cases entry_at_SucE: "entry_at os (Suc n) dir p"

definition is_file :: "os_view \<Rightarrow> string \<Rightarrow> bool" where
  "is_file os p = (case os_Stat os (HostPath p) of Inl _ \<Rightarrow> False | Inr st \<Rightarrow> \<not> mode_IsDir (Mode st))"

lemma dir_files_sound:
  "fi \<in> set (dir_files d os dir) \<Longrightarrow> \<exists>n p. n < d \<and> entry_at os n dir p \<and> is_file os p \<and>
     file_info_of os HostFileSystemDefaultLocation p False = Inr fi"
proof (induction d arbitrary: dir)
  case (Suc d)
  from Suc.prems obtain q where q: "q \<in> set (dir_entries os dir)"
    and "fi \<in> set (case os_Stat os (HostPath q) of Inl _ \<Rightarrow> []
      | Inr st \<Rightarrow> if mode_IsDir (Mode st) then dir_files d os q else host_info os q)" by auto
  then obtain st where st: "os_Stat os (HostPath q) = Inr st"
    and fi: "fi \<in> set (if mode_IsDir (Mode st) then dir_files d os q else host_info os q)"
    by (cases "os_Stat os (HostPath q)") auto
  show ?case
  proof (cases "mode_IsDir (Mode st)")
    case True
    with fi Suc.IH [of q] obtain n p where "n < d" "entry_at os n q p" "is_file os p"
      "file_info_of os HostFileSystemDefaultLocation p False = Inr fi" by auto
    with entry_at.descend [OF q st True] show ?thesis by (intro exI [of _ "Suc n"]) auto
  next
    case False
    with fi st have "is_file os q" "file_info_of os HostFileSystemDefaultLocation q False = Inr fi"
      by (auto simp: is_file_def host_info_def split: sum.splits)
    with entry_at.entry [OF q] show ?thesis by blast
  qed
qed simp

lemma dir_files_complete:
  "entry_at os n dir p \<Longrightarrow> n < d \<Longrightarrow> is_file os p \<Longrightarrow>
     file_info_of os HostFileSystemDefaultLocation p False = Inr fi \<Longrightarrow> fi \<in> set (dir_files d os dir)"
proof (induction arbitrary: d rule: entry_at.induct)
  case (entry p dir)
  then show ?case by (cases d) (force simp: is_file_def host_info_def split: sum.splits)+
next
  case (descend q dir st n p)
  then obtain d' where "d = Suc d'" "n < d'" by (cases d) auto
  with descend show ?case by force
qed

lemma dir_files_iff:
  "fi \<in> set (dir_files d os dir) \<longleftrightarrow>
     (\<exists>n p. n < d \<and> entry_at os n dir p \<and> is_file os p \<and>
        file_info_of os HostFileSystemDefaultLocation p False = Inr fi)"
  using dir_files_sound dir_files_complete by blast

subsection \<open>Properties\<close>

text \<open>
  C12: the recursive listing ends and is exact: with fuel for ten levels it returns, lists
  precisely the files that are not directories, can be described and are reached over fewer
  than ten levels of directories, and reports an error only for the top directory itself.
\<close>

theorem walk_lists_exactly_the_files:
  assumes "cache_agrees os c" and "maxRecursionDepth \<le> fuel" and "os_Open os (HostPath dir) = Inr h"
  shows "\<exists>ret s'. makeHostDirFilesInfoVerbose fuel os r dir 0 ([], c) =
      Some ((ret, map_option (PathError ''readdirent'' (HostPath dir)) (h_list_end h)), s') \<and>
    (\<forall>fi. fi \<in> set ret \<longleftrightarrow>
       (\<exists>n p. n < maxRecursionDepth \<and> entry_at os n dir p \<and> is_file os p \<and>
          file_info_of os HostFileSystemDefaultLocation p False = Inr fi))"
proof -
  have "0 < maxRecursionDepth" by (simp add: maxRecursionDepth_def)
  from makeHostDirFilesInfo_refines [OF this _ assms(1), of fuel r dir "[]"] assms(2,3)
  show ?thesis by (auto simp: dir_error_def dir_files_iff)
qed

definition sample_tree :: os_view where
  "sample_tree = host_of
     [(''/host_fs/d'', dir_node [''b'', ''sub'']),
      (''/host_fs/d/b'', file_node 0x1A4 (0, 0) ''x''),
      (''/host_fs/d/sub'', dir_node [''a'']),
      (''/host_fs/d/sub/a'', file_node 0x180 (0, 0) ''y'')]"

lemma walk_lists_exactly_the_files_witness:
  "\<exists>ret err s'. makeHostDirFilesInfoVerbose 10 sample_tree True ''/d'' 0 ([], Map.empty) =
      Some ((ret, err), s') \<and> (\<exists>fi \<in> set ret. FPath fi = ''/d/sub/a'')"
proof -
  have cache: "cache_agrees sample_tree Map.empty" by simp
  have fuel: "maxRecursionDepth \<le> 10" by (simp add: maxRecursionDepth_def)
  have opened: "os_Open sample_tree (HostPath ''/d'') = Inr (snd (dir_node [''b'', ''sub'']))" by code_simp
  from walk_lists_exactly_the_files [OF cache fuel opened, of True] obtain ret s' where
    run: "makeHostDirFilesInfoVerbose 10 sample_tree True ''/d'' 0 ([], Map.empty) =
      Some ((ret, map_option (PathError ''readdirent'' (HostPath ''/d''))
        (h_list_end (snd (dir_node [''b'', ''sub''])))), s')"
    and files: "\<And>fi n p. n < maxRecursionDepth \<Longrightarrow> entry_at sample_tree n ''/d'' p \<Longrightarrow>
       is_file sample_tree p \<Longrightarrow>
       file_info_of sample_tree HostFileSystemDefaultLocation p False = Inr fi \<Longrightarrow> fi \<in> set ret"
    by blast
  have "entry_at sample_tree 1 ''/d'' ''/d/sub/a''"
  proof -
    have "''/d/sub'' \<in> set (dir_entries sample_tree ''/d'')"
      "os_Stat sample_tree (HostPath ''/d/sub'') = Inr (fst (dir_node [''a'']))"
      "mode_IsDir (Mode (fst (dir_node [''a''])))" by code_simp+
    moreover have "''/d/sub/a'' \<in> set (dir_entries sample_tree ''/d/sub'')" by code_simp
    then have "entry_at sample_tree 0 ''/d/sub'' ''/d/sub/a''" by (rule entry_at.entry)
    ultimately show ?thesis unfolding One_nat_def by (rule entry_at.descend)
  qed
  moreover have "is_file sample_tree ''/d/sub/a''" by code_simp
  moreover have "case file_info_of sample_tree HostFileSystemDefaultLocation ''/d/sub/a'' False of
      Inl _ \<Rightarrow> False | Inr fi \<Rightarrow> FPath fi = ''/d/sub/a''" by code_simp
  then obtain fi where "file_info_of sample_tree HostFileSystemDefaultLocation ''/d/sub/a'' False = Inr fi"
    "FPath fi = ''/d/sub/a''" by (auto split: sum.splits)
  ultimately show ?thesis using run files [of 1 "''/d/sub/a''" fi]
    by (auto simp: maxRecursionDepth_def)
qed

text \<open>
  The flag \<open>recursive\<close> has no effect: the walk descends into subdirectories, to the same
  depth and with the same results, whether it is set or not.
\<close>

theorem walk_recursive_flag_unused:
  "makeHostDirFilesInfoVerbose fuel os False dir level s =
   makeHostDirFilesInfoVerbose fuel os True dir level s"
  using walk_ignores_recursive [of fuel os False dir True] by simp

text \<open>
  The walk never runs out of its depth, from any level below the limit: the fuel needed is
  the number of levels left, and the slice passed in is only extended.
\<close>

theorem walk_terminates_and_extends:
  assumes "level < maxRecursionDepth" and "maxRecursionDepth - level \<le> fuel" and "cache_agrees os c"
  shows "\<exists>r acc' c'. makeHostDirFilesInfoVerbose fuel os rec dir level (acc, c) = Some (r, (acc', c')) \<and>
    prefix acc acc' \<and> cache_agrees os c'"
  using makeHostDirFilesInfo_refines [OF assms, of rec dir acc] by fastforce

lemma walk_terminates_and_extends_witness:
  "\<exists>r acc' c'. makeHostDirFilesInfoVerbose 1 sample_tree False ''/d'' 9 ([], Map.empty) =
     Some (r, (acc', c'))"
  using walk_terminates_and_extends [of 9 1 sample_tree Map.empty False "''/d''" "[]"]
  by (auto simp: maxRecursionDepth_def)

end
