(* ===== verification/Container_Runtime.thy ===== *)
theory Container_Runtime
  imports Proc File_Info
begin

text \<open>
  \<open>sensor/internal/utils/containerruntime.go\<close>: finding the directory of the CNI configuration,
  from the kubelet's flags, from the flags of the container runtime, from its drop-in files and
  its main configuration file.

  Decoding a TOML file is the work of a third-party package.  It is the parameter
  \<open>toml keys file\<close>: the string at the nested \<open>keys\<close> of the file (empty when absent), or an error.
\<close>

type_synonym toml_decoder = "string list \<Rightarrow> string \<Rightarrow> string result"

definition CNIDefaultConfigDir :: string where "CNIDefaultConfigDir = ''/etc/cni/''"
definition kubeletContainerRuntime :: string where "kubeletContainerRuntime = ''--container-runtime''"
definition kubeletContainerRuntimeEndPoint :: string where
  "kubeletContainerRuntimeEndPoint = ''--container-runtime-endpoint''"
definition kubeletCNIConfigDir :: string where "kubeletCNIConfigDir = ''--cni-conf-dir''"

definition containerdContainerRuntimeName :: string where
  "containerdContainerRuntimeName = ''containerd''"
definition crioContainerRuntimeName :: string where "crioContainerRuntimeName = ''crio''"
definition crioSock :: string where "crioSock = ''/crio.sock''"
definition containerdSock :: string where "containerdSock = ''/containerd.sock''"
definition cridockerdSock :: string where "cridockerdSock = ''/cri-dockerd.sock''"

definition ErrDockershimRT :: goerr where
  "ErrDockershimRT = ErrText ''dockershim runtime is not supported''"
definition ErrCRINotFound :: goerr where
  "ErrCRINotFound = ErrText ''no container runtime was found''"

record containerRuntimeProperties =
  Name :: string
  ConfigArgName :: string
  ConfigDirArgName :: string
  DefaultConfigPath :: string
  DefaultConfigDir :: string
  ProcessSuffix :: string
  Socket :: string
  CNIConfigDirArgName :: string
  ParseCNIFromConfigFunc :: "string \<Rightarrow> string result"

record ContainerRuntimeInfo =
  properties :: containerRuntimeProperties
  process :: ProcessDetails
  rootDir :: string


subsection \<open>The operations of one runtime\<close>

definition getConfigDirPath :: "ContainerRuntimeInfo \<Rightarrow> string" where
  "getConfigDirPath cr =
     (let configDirPath = fst (GetArg (process cr) (ConfigDirArgName (properties cr)))
      in if configDirPath = [] then path_Join [rootDir cr, DefaultConfigDir (properties cr)]
         else configDirPath)"

definition getConfigPath :: "ContainerRuntimeInfo \<Rightarrow> string" where
  "getConfigPath cr =
     (let configPath = fst (GetArg (process cr) (ConfigArgName (properties cr)));
          configPath = (if configPath = [] then DefaultConfigPath (properties cr) else configPath)
      in path_Join [rootDir cr, configPath])"

fun getCNIConfigDirFromConfigPaths :: "ContainerRuntimeInfo \<Rightarrow> string list \<Rightarrow> string" where
  "getCNIConfigDirFromConfigPaths cr [] = []"
| "getCNIConfigDirFromConfigPaths cr (configPath # configPaths) =
     (case ParseCNIFromConfigFunc (properties cr) configPath of
        Inl err \<Rightarrow> getCNIConfigDirFromConfigPaths cr configPaths
      | Inr d \<Rightarrow> if d \<noteq> [] then d else getCNIConfigDirFromConfigPaths cr configPaths)"

definition configDirFiles :: "os_view \<Rightarrow> string \<Rightarrow> string list" where
  "configDirFiles os configDirPath =
     (case os_ReadDir os configDirPath of
        (_, Some err) \<Rightarrow> []
      | (outputDirFiles, None) \<Rightarrow>
          rev (sort (map (\<lambda>filename. path_Join [configDirPath, filename]) outputDirFiles)))"

definition getCNIConfigDirFromConfig :: "os_view \<Rightarrow> ContainerRuntimeInfo \<Rightarrow> string" where
  "getCNIConfigDirFromConfig os cr =
     (let files = configDirFiles os (getConfigDirPath cr);
          configPath = getConfigPath cr;
          files = (if configPath \<noteq> [] then files @ [configPath] else files)
      in getCNIConfigDirFromConfigPaths cr files)"

definition getCNIConfigDirFromProcess :: "ContainerRuntimeInfo \<Rightarrow> string" where
  "getCNIConfigDirFromProcess cr =
     (if CNIConfigDirArgName (properties cr) \<noteq> []
      then fst (GetArg (process cr) (CNIConfigDirArgName (properties cr))) else [])"

definition getCNIConfigDir :: "os_view \<Rightarrow> ContainerRuntimeInfo \<Rightarrow> string" where
  "getCNIConfigDir os cr =
     (let d = getCNIConfigDirFromProcess cr
      in if d \<noteq> [] then d else getCNIConfigDirFromConfig os cr)"


subsection \<open>The two supported runtimes\<close>

definition parseCNIConfigDirFromConfigContainerd :: "toml_decoder \<Rightarrow> string \<Rightarrow> string result" where
  "parseCNIConfigDirFromConfigContainerd toml configPath =
     toml [''plugins'', ''io.containerd.grpc.v1.cri'', ''cni'', ''conf_dir''] configPath"

definition parseCNIConfigDirFromConfigCrio :: "toml_decoder \<Rightarrow> string \<Rightarrow> string result" where
  "parseCNIConfigDirFromConfigCrio toml configPath =
     toml [''crio'', ''network'', ''network_dir''] configPath"

definition containerdProps :: "toml_decoder \<Rightarrow> containerRuntimeProperties" where
  "containerdProps toml =
     \<lparr>Name = containerdContainerRuntimeName,
      ConfigArgName = ''--config'',
      ConfigDirArgName = '''',
      DefaultConfigPath = ''/etc/containerd/config.toml'',
      DefaultConfigDir = ''/etc/containerd/containerd.conf.d'',
      ProcessSuffix = ''/containerd'',
      Socket = ''/containerd.sock'',
      CNIConfigDirArgName = '''',
      ParseCNIFromConfigFunc = parseCNIConfigDirFromConfigContainerd toml\<rparr>"

definition crioProps :: "toml_decoder \<Rightarrow> containerRuntimeProperties" where
  "crioProps toml =
     \<lparr>Name = crioContainerRuntimeName,
      ConfigArgName = ''--config'',
      ConfigDirArgName = ''--config-dir'',
      DefaultConfigPath = ''/etc/crio/crio.conf'',
      DefaultConfigDir = ''/etc/crio/crio.conf.d'',
      ProcessSuffix = ''/crio'',
      Socket = ''/crio.sock'',
      CNIConfigDirArgName = ''--cni-config-dir'',
      ParseCNIFromConfigFunc = parseCNIConfigDirFromConfigCrio toml\<rparr>"

definition kind_properties :: "toml_decoder \<Rightarrow> string \<Rightarrow> containerRuntimeProperties option" where
  "kind_properties toml CRIKind =
     (if CRIKind = containerdContainerRuntimeName \<or> CRIKind = containerdSock
      then Some (containerdProps toml)
      else if CRIKind = crioContainerRuntimeName \<or> CRIKind = crioSock
      then Some (crioProps toml)
      else None)"

definition newContainerRuntime ::
  "os_view \<Rightarrow> toml_decoder \<Rightarrow> string \<Rightarrow> ContainerRuntimeInfo result" where
  "newContainerRuntime os toml CRIKind =
     (case kind_properties toml CRIKind of
        None \<Rightarrow> Inl (ErrText (''newContainerRuntime of kind '' @ [CHR 0x27] @ CRIKind @ [CHR 0x27] @ '' is not supported''))
      | Some props \<Rightarrow>
          (case LocateProcessByExecSuffix os (ProcessSuffix props) of
             Inl err \<Rightarrow> Inl (ErrText
               (''newContainerRuntime - Failed to locate process for CRIKind '' @ CRIKind))
           | Inr p \<Rightarrow> Inr \<lparr>properties = props, process = p, rootDir = HostFileSystemDefaultLocation\<rparr>))"

definition getContainerRuntimeFromProcess ::
  "os_view \<Rightarrow> toml_decoder \<Rightarrow> ContainerRuntimeInfo result" where
  "getContainerRuntimeFromProcess os toml =
     (case newContainerRuntime os toml containerdContainerRuntimeName of
        Inr cr \<Rightarrow> Inr cr
      | Inl err \<Rightarrow>
          (case newContainerRuntime os toml crioContainerRuntimeName of
             Inr cr \<Rightarrow> Inr cr
           | Inl err \<Rightarrow> Inl (ErrText
               ''getContainerRuntimeFromProcess didnt find Container Runtime process'')))"


subsection \<open>From the kubelet to the directory\<close>

definition CNIConfigDirFromKubelet ::
  "os_view \<Rightarrow> toml_decoder \<Rightarrow> ProcessDetails \<Rightarrow> string result" where
  "CNIConfigDirFromKubelet os toml proc =
     (let d = fst (GetArg proc kubeletCNIConfigDir) in
      if d \<noteq> [] then Inr d
      else (case GetArg proc kubeletContainerRuntimeEndPoint of
        (crEndpoint, crEndPointOK) \<Rightarrow>
          if crEndpoint = [] then
            (case GetArg proc kubeletContainerRuntime of
               (cr, crOK) \<Rightarrow>
                 if (\<not> crEndPointOK \<and> \<not> crOK) \<or> cr \<noteq> ''remote'' then Inl ErrDockershimRT
                 else Inl ErrCRINotFound)
          else
            (case newContainerRuntime os toml
                    (if strings_HasSuffix crEndpoint cridockerdSock then containerdSock
                     else crEndpoint) of
               Inl err \<Rightarrow> Inl err
             | Inr crObj \<Rightarrow> Inr (getCNIConfigDir os crObj))))"

definition GetCNIConfigPath :: "os_view \<Rightarrow> toml_decoder \<Rightarrow> ProcessDetails \<Rightarrow> string" where
  "GetCNIConfigPath os toml kubeletProc =
     (case CNIConfigDirFromKubelet os toml kubeletProc of
        Inr d \<Rightarrow> d
      | Inl err \<Rightarrow>
          (case getContainerRuntimeFromProcess os toml of
             Inl err \<Rightarrow> CNIDefaultConfigDir
           | Inr cr \<Rightarrow>
               let d = getCNIConfigDir os cr
               in if d = [] then CNIDefaultConfigDir else d))"


subsection \<open>Precedence of the configuration files\<close>

text \<open>A file that parses and names a directory.\<close>

definition configured :: "ContainerRuntimeInfo \<Rightarrow> string \<Rightarrow> string option" where
  "configured cr configPath =
     (case ParseCNIFromConfigFunc (properties cr) configPath of
        Inl err \<Rightarrow> None
      | Inr d \<Rightarrow> if d = [] then None else Some d)"

definition or_empty :: "string option \<Rightarrow> string" where
  "or_empty r = (case r of None \<Rightarrow> [] | Some d \<Rightarrow> d)"

lemma or_empty_simps [simp]: "or_empty None = []" "or_empty (Some d) = d"
  by (simp_all add: or_empty_def)

lemma configured_nonempty: "configured cr f = Some d \<Longrightarrow> d \<noteq> []"
  by (auto simp: configured_def split: sum.splits if_splits)

lemma getCNIConfigDirFromConfigPaths_first:
  "getCNIConfigDirFromConfigPaths cr ps = or_empty (first_some (configured cr) ps)"
  by (induction ps) (auto simp: configured_def split: sum.splits)

lemma first_some_descending:
  fixes xs :: "'a::linorder list"
  assumes "sorted_wrt (\<ge>) xs" "x \<in> set xs" "f x = Some y"
    and "\<And>z. z \<in> set xs \<Longrightarrow> x < z \<Longrightarrow> f z = None"
  shows "first_some f xs = Some y"
  using assms
proof (induction xs)
  case (Cons a xs)
  show ?case
  proof (cases "a = x")
    case False
    with Cons.prems have "x \<in> set xs" "x < a" by (auto simp: order.strict_iff_order)
    then have "f a = None" using Cons.prems(4) by simp
    with Cons \<open>x \<in> set xs\<close> show ?thesis by simp
  qed (simp add: Cons.prems(3))
qed simp

lemma sorted_wrt_rev_sort: "sorted_wrt (\<ge>) (rev (sort xs))"
  by (simp add: sorted_wrt_rev)

definition dropin_paths :: "os_view \<Rightarrow> ContainerRuntimeInfo \<Rightarrow> string list" where
  "dropin_paths os cr = configDirFiles os (getConfigDirPath cr)"

lemma sorted_dropin_paths: "sorted_wrt (\<ge>) (dropin_paths os cr)"
  by (auto simp: dropin_paths_def configDirFiles_def sorted_wrt_rev_sort split: prod.splits option.splits)

lemma host_path_nonempty: "path_Join (HostFileSystemDefaultLocation # es) \<noteq> []"
  using path_Join_rooted_nonempty by (simp add: HostFileSystemDefaultLocation_def)

lemma getCNIConfigDirFromConfig_first:
  assumes "rootDir cr = HostFileSystemDefaultLocation"
  shows "getCNIConfigDirFromConfig os cr =
    or_empty (first_some (configured cr) (dropin_paths os cr @ [getConfigPath cr]))"
proof -
  have "getConfigPath cr \<noteq> []" using assms by (simp add: getConfigPath_def Let_def host_path_nonempty)
  then show ?thesis
    by (simp add: getCNIConfigDirFromConfig_def Let_def getCNIConfigDirFromConfigPaths_first dropin_paths_def)
qed

lemma dropin_wins:
  assumes "rootDir cr = HostFileSystemDefaultLocation" "f \<in> set (dropin_paths os cr)" "configured cr f = Some d"
    and "\<And>g. g \<in> set (dropin_paths os cr) \<Longrightarrow> f < g \<Longrightarrow> configured cr g = None"
  shows "getCNIConfigDirFromConfig os cr = d"
  using first_some_descending [where f = "configured cr", OF sorted_dropin_paths assms(2,3)] assms(1,4)
  by (simp add: getCNIConfigDirFromConfig_first first_some_append)

lemma main_config_last:
  assumes "rootDir cr = HostFileSystemDefaultLocation" "\<And>g. g \<in> set (dropin_paths os cr) \<Longrightarrow> configured cr g = None"
  shows "getCNIConfigDirFromConfig os cr = or_empty (configured cr (getConfigPath cr))"
  using assms by (simp add: getCNIConfigDirFromConfig_first first_some_skip split: option.split)


subsection \<open>Which runtime is asked\<close>

lemma newContainerRuntime_InrD:
  assumes "newContainerRuntime os toml kind = Inr cr"
  shows "kind \<in> {containerdContainerRuntimeName, containerdSock, crioContainerRuntimeName, crioSock}"
    and "rootDir cr = HostFileSystemDefaultLocation"
    and "kind_properties toml kind = Some (properties cr)"
    and "LocateProcessByExecSuffix os (ProcessSuffix (properties cr)) = Inr (process cr)"
proof -
  from assms obtain pr where pr: "kind_properties toml kind = Some pr"
    by (auto simp: newContainerRuntime_def split: option.splits)
  then show "kind \<in> {containerdContainerRuntimeName, containerdSock, crioContainerRuntimeName, crioSock}"
    by (auto simp: kind_properties_def split: if_splits)
  from assms pr have "properties cr = pr \<and> rootDir cr = HostFileSystemDefaultLocation \<and>
      LocateProcessByExecSuffix os (ProcessSuffix pr) = Inr (process cr)"
    by (auto simp: newContainerRuntime_def split: sum.splits)
  with pr show "rootDir cr = HostFileSystemDefaultLocation"
    "kind_properties toml kind = Some (properties cr)"
    "LocateProcessByExecSuffix os (ProcessSuffix (properties cr)) = Inr (process cr)" by simp_all
qed

text \<open>An endpoint with a scheme or a directory, as the kubelet requires it, is no known kind.\<close>

lemma endpoint_unrecognised:
  assumes "ep \<noteq> containerdSock" "ep \<noteq> crioSock"
    "ep \<noteq> containerdContainerRuntimeName" "ep \<noteq> crioContainerRuntimeName"
  shows "\<exists>err. newContainerRuntime os toml ep = Inl err"
  using assms by (simp add: newContainerRuntime_def kind_properties_def)

lemma unix_endpoint_unrecognised:
  assumes "strings_HasPrefix ep ''unix://''"
  shows "\<exists>err. newContainerRuntime os toml ep = Inl err"
proof -
  have "strings_HasPrefix k ''unix://'' \<Longrightarrow> hd k = CHR ''u''" for k
    by (cases k) (simp_all add: strings_HasPrefix_def)
  from this [OF assms] show ?thesis
    by (intro endpoint_unrecognised)
       (auto simp: containerdSock_def crioSock_def containerdContainerRuntimeName_def
          crioContainerRuntimeName_def)
qed

text \<open>What is left when the kubelet's flags do not lead to a runtime.\<close>

definition runtime_from_process :: "os_view \<Rightarrow> toml_decoder \<Rightarrow> string" where
  "runtime_from_process os toml =
     (case getContainerRuntimeFromProcess os toml of
        Inl err \<Rightarrow> CNIDefaultConfigDir
      | Inr cr \<Rightarrow> if getCNIConfigDir os cr = [] then CNIDefaultConfigDir else getCNIConfigDir os cr)"

lemma GetCNIConfigPath_cases:
  "GetCNIConfigPath os toml p =
     (case CNIConfigDirFromKubelet os toml p of
        Inr d \<Rightarrow> d | Inl _ \<Rightarrow> runtime_from_process os toml)"
  by (simp add: GetCNIConfigPath_def runtime_from_process_def Let_def split: sum.split)

lemma runtime_from_process_nonempty: "runtime_from_process os toml \<noteq> []"
  by (simp add: runtime_from_process_def CNIDefaultConfigDir_def split: sum.split)

lemma CNIConfigDirFromKubelet_ignores_unix:
  assumes "fst (GetArg p kubeletCNIConfigDir) = []"
    and "strings_HasPrefix (fst (GetArg p kubeletContainerRuntimeEndPoint)) ''unix://''"
    and "\<not> strings_HasSuffix (fst (GetArg p kubeletContainerRuntimeEndPoint)) cridockerdSock"
  shows "\<exists>err. CNIConfigDirFromKubelet os toml p = Inl err"
proof -
  obtain ep ok where ep: "GetArg p kubeletContainerRuntimeEndPoint = (ep, ok)" by fastforce
  obtain err where "newContainerRuntime os toml ep = Inl err"
    using unix_endpoint_unrecognised assms(2) ep by fastforce
  moreover have "ep \<noteq> []" using assms(2) ep by (auto simp: strings_HasPrefix_def)
  ultimately show ?thesis using assms ep by (simp add: CNIConfigDirFromKubelet_def Let_def)
qed

lemma newContainerRuntime_error:
  assumes "newContainerRuntime os toml kind = Inl e"
  shows "e \<noteq> ErrDockershimRT" "e \<noteq> ErrCRINotFound"
  using assms
  by (auto simp: newContainerRuntime_def ErrDockershimRT_def ErrCRINotFound_def split: option.splits sum.splits)

lemma GetArg_missing: "GetArg p a = (v, False) \<Longrightarrow> v = []"
  by (auto simp: GetArg_def getArg_from_sets_arg split: list.splits)

lemma located_properties:
  assumes "newContainerRuntime os toml kind = Inr cr"
  shows "properties cr = containerdProps toml \<or> properties cr = crioProps toml"
  using newContainerRuntime_InrD(3) [OF assms] by (auto simp: kind_properties_def split: if_splits)

lemma host_join_below:
  assumes "no_dotdot f"
  shows "below HostFileSystemDefaultLocation (path_Join [HostFileSystemDefaultLocation, f])"
proof -
  have "no_dotdot ''host_fs''" "comps ''host_fs'' \<noteq> []" "abs_path (comps ''host_fs'') = ''/host_fs''"
    by code_simp+
  with path_Join_below [of "''host_fs''" f] assms show ?thesis
    by (simp add: HostFileSystemDefaultLocation_def)
qed

lemma default_paths_no_dotdot:
  assumes "newContainerRuntime os toml kind = Inr cr"
  shows "no_dotdot (DefaultConfigPath (properties cr))" "no_dotdot (DefaultConfigDir (properties cr))"
proof -
  have "no_dotdot ''/etc/containerd/config.toml''" "no_dotdot ''/etc/crio/crio.conf''"
    "no_dotdot ''/etc/containerd/containerd.conf.d''" "no_dotdot ''/etc/crio/crio.conf.d''"
    by code_simp+
  with located_properties [OF assms]
  show "no_dotdot (DefaultConfigPath (properties cr))" "no_dotdot (DefaultConfigDir (properties cr))"
    by (auto simp: containerdProps_def crioProps_def)
qed


subsection \<open>Properties\<close>

text \<open>
  C18: among the configuration files of a located runtime the drop-in file with the greatest
  name that parses and names a CNI directory decides, before every other drop-in and before the
  main configuration file.
\<close>

theorem greatest_dropin_decides:
  assumes "newContainerRuntime os toml kind = Inr cr"
    and "f \<in> set (dropin_paths os cr)" and "configured cr f = Some d"
    and "\<forall>g \<in> set (dropin_paths os cr). f < g \<longrightarrow> configured cr g = None"
  shows "getCNIConfigDirFromConfig os cr = d"
  using dropin_wins [OF newContainerRuntime_InrD(2) [OF assms(1)] assms(2,3)] assms(4) by blast

definition sample_runtime_host :: os_view where
  "sample_runtime_host = host_of
     [(''/proc'', dir_node [''9'']),
      (''/proc/9/cmdline'', file_node 0x124 (0, 0) ''/usr/bin/crio''),
      (''/host_fs/etc/crio/crio.conf.d'', dir_node [''30-c'', ''10-a'', ''20-b''])]"

definition sample_toml :: toml_decoder where
  "sample_toml keys f =
     (if f = ''/host_fs/etc/crio/crio.conf.d/30-c'' then Inr []
      else if f = ''/host_fs/etc/crio/crio.conf.d/20-b'' then Inr ''/b''
      else if f = ''/host_fs/etc/crio/crio.conf.d/10-a'' then Inr ''/a''
      else Inl (ErrText ''no such file''))"

lemma greatest_dropin_decides_witness:
  "\<exists>cr. newContainerRuntime sample_runtime_host sample_toml crioSock = Inr cr \<and>
     getCNIConfigDirFromConfig sample_runtime_host cr = ''/b''"
proof -
  let ?cr = "\<lparr>properties = crioProps sample_toml,
      process = \<lparr>CmdLine = [''/usr/bin/crio''], PID = 9\<rparr>, rootDir = HostFileSystemDefaultLocation\<rparr>"
  have "LocateProcessByExecSuffix sample_runtime_host ''/crio'' =
      Inr \<lparr>CmdLine = [''/usr/bin/crio''], PID = 9\<rparr>" by code_simp
  then have new: "newContainerRuntime sample_runtime_host sample_toml crioSock = Inr ?cr"
    by (simp add: newContainerRuntime_def kind_properties_def crioSock_def containerdSock_def
        containerdContainerRuntimeName_def crioContainerRuntimeName_def crioProps_def)
  have "''/host_fs/etc/crio/crio.conf.d/20-b'' \<in> set (dropin_paths sample_runtime_host ?cr)"
    "configured ?cr ''/host_fs/etc/crio/crio.conf.d/20-b'' = Some ''/b''" by code_simp+
  moreover have "\<forall>g \<in> set (dropin_paths sample_runtime_host ?cr).
      ''/host_fs/etc/crio/crio.conf.d/20-b'' < g \<longrightarrow> configured ?cr g = None" by code_simp
  ultimately have "getCNIConfigDirFromConfig sample_runtime_host ?cr = ''/b''"
    by (rule greatest_dropin_decides [OF new])
  with new show ?thesis by blast
qed

text \<open>
  An endpoint given as a URL, the form the kubelet requires, is never recognised (the code
  compares the whole endpoint with the bare socket names): the answer is the one of the process
  search, as if the flag were absent.
\<close>

theorem url_endpoint_ignored:
  assumes "fst (GetArg p kubeletCNIConfigDir) = []"
    and "strings_HasPrefix (fst (GetArg p kubeletContainerRuntimeEndPoint)) ''unix://''"
    and "\<not> strings_HasSuffix (fst (GetArg p kubeletContainerRuntimeEndPoint)) cridockerdSock"
  shows "GetCNIConfigPath os toml p = runtime_from_process os toml"
  using CNIConfigDirFromKubelet_ignores_unix [OF assms, of os toml] by (auto simp: GetCNIConfigPath_cases)

lemma url_endpoint_ignored_witness:
  "GetCNIConfigPath sample_runtime_host sample_toml
     \<lparr>CmdLine = [''kubelet'', ''--container-runtime-endpoint=unix:///run/containerd/containerd.sock''],
      PID = 1\<rparr> = ''/b''"
proof -
  let ?p = "\<lparr>CmdLine = [''kubelet'',
      ''--container-runtime-endpoint=unix:///run/containerd/containerd.sock''], PID = 1\<rparr>"
  have "GetCNIConfigPath sample_runtime_host sample_toml ?p =
      runtime_from_process sample_runtime_host sample_toml"
    by (rule url_endpoint_ignored) code_simp+
  also have "\<dots> = ''/b''" by code_simp
  finally show ?thesis .
qed

text \<open>
  Dockershim is reported exactly for a kubelet with no flag for the CNI directory, no
  endpoint, and a container runtime flag that is not \<open>remote\<close>.
\<close>

theorem dockershim_iff_not_remote:
  "CNIConfigDirFromKubelet os toml p = Inl ErrDockershimRT \<longleftrightarrow>
    fst (GetArg p kubeletCNIConfigDir) = [] \<and>
    fst (GetArg p kubeletContainerRuntimeEndPoint) = [] \<and>
    fst (GetArg p kubeletContainerRuntime) \<noteq> ''remote''"
  using GetArg_missing [of p kubeletContainerRuntime]
  by (auto simp: CNIConfigDirFromKubelet_def Let_def ErrDockershimRT_def ErrCRINotFound_def
      dest: newContainerRuntime_error(1) [unfolded ErrDockershimRT_def] split: prod.splits sum.splits)

text \<open>
  For a kubelet with a cri-dockerd endpoint on a node whose containerd configures no CNI
  directory the answer is empty: the documented default directory is used only when the runtime
  is found by the process search.
\<close>

theorem cri_dockerd_without_default:
  assumes "fst (GetArg p kubeletCNIConfigDir) = []"
    and "strings_HasSuffix (fst (GetArg p kubeletContainerRuntimeEndPoint)) cridockerdSock"
    and "newContainerRuntime os toml containerdSock = Inr cr"
    and "\<forall>f \<in> set (dropin_paths os cr @ [getConfigPath cr]). configured cr f = None"
  shows "GetCNIConfigPath os toml p = []"
proof -
  have props: "properties cr = containerdProps toml"
    using newContainerRuntime_InrD(3) [OF assms(3)] by (simp add: kind_properties_def)
  have "getCNIConfigDirFromConfig os cr = []"
    using assms(4) main_config_last [OF newContainerRuntime_InrD(2) [OF assms(3)]] by simp
  then have "getCNIConfigDir os cr = []"
    by (simp add: getCNIConfigDir_def getCNIConfigDirFromProcess_def props containerdProps_def)
  moreover have "fst (GetArg p kubeletContainerRuntimeEndPoint) \<noteq> []"
    using assms(2) by (auto simp: strings_HasSuffix_def cridockerdSock_def)
  ultimately have "CNIConfigDirFromKubelet os toml p = Inr []"
    using assms(1-3) by (auto simp: CNIConfigDirFromKubelet_def Let_def split: prod.splits)
  then show ?thesis by (simp add: GetCNIConfigPath_cases)
qed

definition sample_docker_host :: os_view where
  "sample_docker_host = host_of
     [(''/proc'', dir_node [''9'']), (''/proc/9/cmdline'', file_node 0x124 (0, 0) ''/usr/bin/containerd'')]"

lemma cri_dockerd_without_default_witness:
  "GetCNIConfigPath sample_docker_host (\<lambda>keys f. Inr [])
     \<lparr>CmdLine = [''kubelet'', ''--container-runtime-endpoint=unix:///run/cri-dockerd.sock''], PID = 1\<rparr> = []"
proof -
  let ?cr = "\<lparr>properties = containerdProps (\<lambda>keys f. Inr []),
      process = \<lparr>CmdLine = [''/usr/bin/containerd''], PID = 9\<rparr>, rootDir = HostFileSystemDefaultLocation\<rparr>"
  have "LocateProcessByExecSuffix sample_docker_host ''/containerd'' =
      Inr \<lparr>CmdLine = [''/usr/bin/containerd''], PID = 9\<rparr>" by code_simp
  then have new: "newContainerRuntime sample_docker_host (\<lambda>keys f. Inr []) containerdSock = Inr ?cr"
    by (simp add: newContainerRuntime_def kind_properties_def containerdProps_def)
  show ?thesis
  proof (rule cri_dockerd_without_default [OF _ _ new])
    show "\<forall>f \<in> set (dropin_paths sample_docker_host ?cr @ [getConfigPath ?cr]). configured ?cr f = None"
      by (simp add: configured_def containerdProps_def parseCNIConfigDirFromConfigContainerd_def)
  qed code_simp+
qed

text \<open>
  The main configuration file of a runtime is always looked up below the host's root
  directory, and so is the default drop-in directory; a drop-in directory given by a flag is
  used as it is, a path of the scanner's own file system.
\<close>

theorem config_paths_and_the_host_root:
  assumes "newContainerRuntime os toml kind = Inr cr"
    and "no_dotdot (fst (GetArg (process cr) (ConfigArgName (properties cr))))"
  shows "below HostFileSystemDefaultLocation (getConfigPath cr) \<and>
    (if fst (GetArg (process cr) (ConfigDirArgName (properties cr))) = []
     then below HostFileSystemDefaultLocation (getConfigDirPath cr)
     else getConfigDirPath cr = fst (GetArg (process cr) (ConfigDirArgName (properties cr))))"
  using assms default_paths_no_dotdot [OF assms(1)] newContainerRuntime_InrD(2) [OF assms(1)]
  by (simp_all add: getConfigPath_def getConfigDirPath_def Let_def host_join_below)

definition sample_crio_host :: os_view where
  "sample_crio_host = host_of
     [(''/proc'', dir_node [''9'']),
      (''/proc/9/cmdline'', file_node 0x124 (0, 0)
         (''/usr/bin/crio'' @ [NUL] @ ''--config-dir'' @ [NUL] @ ''/etc/crio.d'' @ [NUL]))]"

lemma config_paths_and_the_host_root_witness:
  "\<exists>cr. newContainerRuntime sample_crio_host sample_toml ''crio'' = Inr cr \<and>
     below ''/host_fs'' (getConfigPath cr) \<and> getConfigDirPath cr = ''/etc/crio.d''"
proof -
  let ?p = "\<lparr>CmdLine = [''/usr/bin/crio'', ''--config-dir'', ''/etc/crio.d'', ''''], PID = 9\<rparr>"
  let ?cr = "\<lparr>properties = crioProps sample_toml, process = ?p, rootDir = HostFileSystemDefaultLocation\<rparr>"
  have "LocateProcessByExecSuffix sample_crio_host ''/crio'' = Inr ?p" by code_simp
  then have new: "newContainerRuntime sample_crio_host sample_toml ''crio'' = Inr ?cr"
    by (simp add: newContainerRuntime_def kind_properties_def crioSock_def containerdSock_def
        containerdContainerRuntimeName_def crioContainerRuntimeName_def crioProps_def)
  have "no_dotdot (fst (GetArg (process ?cr) (ConfigArgName (properties ?cr))))" by code_simp
  from config_paths_and_the_host_root [OF new this]
  have "below HostFileSystemDefaultLocation (getConfigPath ?cr) \<and>
    (if fst (GetArg (process ?cr) (ConfigDirArgName (properties ?cr))) = []
     then below HostFileSystemDefaultLocation (getConfigDirPath ?cr)
     else getConfigDirPath ?cr = fst (GetArg (process ?cr) (ConfigDirArgName (properties ?cr))))" .
  moreover have "fst (GetArg (process ?cr) (ConfigDirArgName (properties ?cr))) = ''/etc/crio.d''"
    by code_simp
  ultimately show ?thesis using new by (auto simp: HostFileSystemDefaultLocation_def)
qed

end
