(* ===== verification/Service_Files.thy ===== *)
theory Service_Files
  imports File_Info
begin

text \<open>
  \<open>sensor/internal/utils/service.go\<close>: the files that configure the kubelet's systemd unit.  The D-Bus
  and systemd packages are third-party code and a record of parameters; what they answer for a
  process is \<open>unit_by_systemd\<close>, and the functions below take any such answer \<open>unit_of_pid\<close>.
\<close>

subsection \<open>The connection\<close>

text \<open>
  The two packages: dialling an address, the two calls on a bus connection, a systemd connection
  from the result of a dial function, and the unit of a process.  \<open>'d\<close> is a bus connection or nil.
\<close>

record ('d, 'k) bus =
  dbus_Dial :: "string \<Rightarrow> 'd \<times> goerr option"
  conn_Auth :: "'d \<Rightarrow> goerr option"
  conn_Hello :: "'d \<Rightarrow> goerr option"
  systemd_NewConnection :: "'d \<times> goerr option \<Rightarrow> 'k result"
  conn_GetUnitNameByPID :: "'k \<Rightarrow> 32 word \<Rightarrow> string result"

definition newSystemDbusConnection :: "('d, 'k) bus \<Rightarrow> 'd \<times> goerr option" where
  "newSystemDbusConnection bus =
     (let systemBusPath = ''unix:path='' @ HostPath ''/run/dbus/system_bus_socket'';
          (d, err) = dbus_Dial bus systemBusPath
      in if err \<noteq> None then (d, err)
         else case conn_Auth bus d of
                Some err \<Rightarrow> (d, Some err)
              | None \<Rightarrow> (d, conn_Hello bus d))"

definition unit_by_systemd :: "('d, 'k) bus \<Rightarrow> 32 word \<Rightarrow> string result" where
  "unit_by_systemd bus pid =
     (case systemd_NewConnection bus (newSystemDbusConnection bus) of
        Inl err \<Rightarrow> Inl err
      | Inr conn \<Rightarrow> conn_GetUnitNameByPID bus conn pid)"

text \<open>The connection succeeds exactly when its three steps do.\<close>

lemma newSystemDbusConnection_ok:
  "snd (newSystemDbusConnection bus) = None \<longleftrightarrow>
     (\<exists>d. dbus_Dial bus ''unix:path=/host_fs/run/dbus/system_bus_socket'' = (d, None) \<and>
        conn_Auth bus d = None \<and> conn_Hello bus d = None)"
proof -
  have "''unix:path='' @ HostPath ''/run/dbus/system_bus_socket'' = ''unix:path=/host_fs/run/dbus/system_bus_socket''"
    by code_simp
  then show ?thesis
    by (auto simp: newSystemDbusConnection_def Let_def simp del: append_Cons split: prod.split option.split)
qed


subsection \<open>The drop-in directory\<close>

definition systemdPkgDir :: string where "systemdPkgDir = ''/usr/lib/systemd/system/''"
definition systemdAdminDir :: string where "systemdAdminDir = ''/etc/systemd/system/''"

definition kubeletSystemdServiceConfigDir :: string where
  "kubeletSystemdServiceConfigDir = systemdAdminDir @ ''kubelet.service.d''"

text \<open>The first of the paths that can be described below \<open>root\<close>, else the empty path.\<close>

fun getExistsPath :: "os_view \<Rightarrow> string \<Rightarrow> string list \<Rightarrow> string" where
  "getExistsPath os root [] = []"
| "getExistsPath os root (p # paths) =
     (case os_Stat os (path_Join [root, p]) of
        Inr _ \<Rightarrow> p
      | Inl err \<Rightarrow> getExistsPath os root paths)"

definition GetServiceFilesByPIDSystemd ::
  "os_view \<Rightarrow> (32 word \<Rightarrow> string result) \<Rightarrow> int \<Rightarrow> string result" where
  "GetServiceFilesByPIDSystemd os unit_of_pid pid =
     (case unit_of_pid (word_of_int pid) of
        Inl err \<Rightarrow> Inl err
      | Inr unitName \<Rightarrow>
          let unitDirName = unitName @ ''.d''
          in Inr (getExistsPath os HostFileSystemDefaultLocation
               [path_Join [systemdPkgDir, unitDirName], path_Join [systemdAdminDir, unitDirName]]))"

definition GetKubeletServiceFiles ::
  "os_view \<Rightarrow> (32 word \<Rightarrow> string result) \<Rightarrow> int \<Rightarrow> string list result" where
  "GetKubeletServiceFiles os unit_of_pid kubeletPid =
     (let configDir = (case GetServiceFilesByPIDSystemd os unit_of_pid kubeletPid of
            Inl err \<Rightarrow> [] | Inr d \<Rightarrow> d);
          configDir = (if configDir = [] then kubeletSystemdServiceConfigDir else configDir)
      in case os_ReadDir os (HostPath configDir) of
           (_, Some err) \<Rightarrow> Inl err
         | (files, None) \<Rightarrow> Inr (map (\<lambda>f. path_Join [configDir, f]) files))"

lemma getExistsPath_find:
  "getExistsPath os root ps =
     (case find (\<lambda>p. \<exists>st. os_Stat os (path_Join [root, p]) = Inr st) ps of
        Some p \<Rightarrow> p | None \<Rightarrow> [])"
  by (induction ps) (auto split: sum.splits)

text \<open>The directory that is listed.\<close>

definition service_dir :: "os_view \<Rightarrow> (32 word \<Rightarrow> string result) \<Rightarrow> int \<Rightarrow> string" where
  "service_dir os unit_of_pid pid =
     (case GetServiceFilesByPIDSystemd os unit_of_pid pid of
        Inr (c # d) \<Rightarrow> c # d
      | _ \<Rightarrow> kubeletSystemdServiceConfigDir)"

lemma GetKubeletServiceFiles_dir:
  "GetKubeletServiceFiles os unit_of_pid pid =
     (case os_ReadDir os (HostPath (service_dir os unit_of_pid pid)) of
        (_, Some err) \<Rightarrow> Inl err
      | (files, None) \<Rightarrow> Inr (map (\<lambda>f. path_Join [service_dir os unit_of_pid pid, f]) files))"
  by (auto simp: GetKubeletServiceFiles_def service_dir_def Let_def
      split: sum.split list.split prod.split option.split)

lemma fallback_dir:
  "unit_of_pid (word_of_int pid) = Inl e \<Longrightarrow>
     service_dir os unit_of_pid pid = ''/etc/systemd/system/kubelet.service.d''"
  by (simp add: service_dir_def GetServiceFilesByPIDSystemd_def
      kubeletSystemdServiceConfigDir_def systemdAdminDir_def)


subsection \<open>Properties\<close>

text \<open>
  When both the packaged and the administrator's drop-in directory of the kubelet's unit
  exist, the files of the packaged one are reported and none of the administrator's, although
  systemd applies both.
\<close>

theorem admin_dropins_not_reported:
  assumes "unit_of_pid (word_of_int pid) = Inr u"
    and "os_Stat os (path_Join [HostFileSystemDefaultLocation, path_Join [systemdPkgDir, u @ ''.d'']])
      = Inr st"
    and "GetKubeletServiceFiles os unit_of_pid pid = Inr fs"
  shows "\<exists>names. fs = map (\<lambda>f. path_Join [path_Join [systemdPkgDir, u @ ''.d''], f]) names \<and>
    os_ReadDir os (HostPath (path_Join [systemdPkgDir, u @ ''.d''])) = (names, None)"
proof -
  have "path_Join [systemdPkgDir, u @ ''.d''] \<noteq> []"
    by (simp add: systemdPkgDir_def path_Join_rooted_nonempty)
  then have "service_dir os unit_of_pid pid = path_Join [systemdPkgDir, u @ ''.d'']"
    using assms(1,2) by (auto simp: service_dir_def GetServiceFilesByPIDSystemd_def split: list.split)
  with assms(3) show ?thesis
    by (auto simp: GetKubeletServiceFiles_dir split: prod.splits option.splits)
qed

definition sample_service_host :: os_view where
  "sample_service_host = host_of
     [(''/host_fs/usr/lib/systemd/system/kubelet.service.d'', dir_node [''10-kubeadm.conf'']),
      (''/host_fs/etc/systemd/system/kubelet.service.d'', dir_node [''90-local.conf''])]"

lemma admin_dropins_not_reported_witness:
  "GetKubeletServiceFiles sample_service_host (\<lambda>_. Inr ''kubelet.service'') 42 =
     Inr [''/usr/lib/systemd/system/kubelet.service.d/10-kubeadm.conf'']"
proof -
  have run: "GetKubeletServiceFiles sample_service_host (\<lambda>_. Inr ''kubelet.service'') 42 =
     Inr [''/usr/lib/systemd/system/kubelet.service.d/10-kubeadm.conf'']" by code_simp
  moreover have "os_Stat sample_service_host (path_Join [HostFileSystemDefaultLocation,
      path_Join [systemdPkgDir, ''kubelet.service'' @ ''.d'']]) = Inr (fst (dir_node [''10-kubeadm.conf'']))"
    by code_simp
  ultimately have "\<exists>names. [''/usr/lib/systemd/system/kubelet.service.d/10-kubeadm.conf''] =
      map (\<lambda>f. path_Join [path_Join [systemdPkgDir, ''kubelet.service'' @ ''.d''], f]) names \<and>
      os_ReadDir sample_service_host (HostPath (path_Join [systemdPkgDir, ''kubelet.service'' @ ''.d'']))
        = (names, None)"
    by (intro admin_dropins_not_reported [of "\<lambda>_. Inr ''kubelet.service''" 42]) simp_all
  with run show ?thesis by blast
qed

text \<open>
  Without an answer from systemd the default directory of the administrator is listed; a
  directory that cannot be read is an error.
\<close>

theorem service_files_fallback:
  assumes "unit_of_pid (word_of_int pid) = Inl e"
  shows "GetKubeletServiceFiles os unit_of_pid pid =
    (case os_ReadDir os (HostPath ''/etc/systemd/system/kubelet.service.d'') of
       (_, Some err) \<Rightarrow> Inl err
     | (files, None) \<Rightarrow> Inr (map (\<lambda>f. path_Join [''/etc/systemd/system/kubelet.service.d'', f]) files))"
  unfolding GetKubeletServiceFiles_dir fallback_dir [of unit_of_pid pid e os, OF assms] ..

lemma service_files_fallback_witness:
  "GetKubeletServiceFiles sample_service_host (\<lambda>_. Inl (ErrText ''no bus'')) 42 =
     Inr [''/etc/systemd/system/kubelet.service.d/90-local.conf'']"
proof -
  have "GetKubeletServiceFiles sample_service_host (\<lambda>_. Inl (ErrText ''no bus'')) 42 =
    (case os_ReadDir sample_service_host (HostPath ''/etc/systemd/system/kubelet.service.d'') of
       (_, Some err) \<Rightarrow> Inl err
     | (files, None) \<Rightarrow> Inr (map (\<lambda>f. path_Join [''/etc/systemd/system/kubelet.service.d'', f]) files))"
    by (rule service_files_fallback) simp
  also have "\<dots> = Inr [''/etc/systemd/system/kubelet.service.d/90-local.conf'']" by code_simp
  finally show ?thesis .
qed

text \<open>
  The same when the bus of the host cannot be reached, for a systemd package that passes the
  error of its dial function on.
\<close>

lemma service_files_without_bus:
  assumes "\<And>d e. \<exists>e'. systemd_NewConnection bus (d, Some e) = Inl e'"
    and "dbus_Dial bus ''unix:path=/host_fs/run/dbus/system_bus_socket'' = (d, Some e) \<or>
      (dbus_Dial bus ''unix:path=/host_fs/run/dbus/system_bus_socket'' = (d, None) \<and>
       (conn_Auth bus d \<noteq> None \<or> conn_Hello bus d \<noteq> None))"
  shows "GetKubeletServiceFiles os (unit_by_systemd bus) pid =
    (case os_ReadDir os (HostPath ''/etc/systemd/system/kubelet.service.d'') of
       (_, Some err) \<Rightarrow> Inl err
     | (files, None) \<Rightarrow> Inr (map (\<lambda>f. path_Join [''/etc/systemd/system/kubelet.service.d'', f]) files))"
proof -
  have "snd (newSystemDbusConnection bus) \<noteq> None"
    using assms(2) newSystemDbusConnection_ok [of bus] by auto
  then obtain d' e' where "newSystemDbusConnection bus = (d', Some e')" by (cases "newSystemDbusConnection bus") auto
  with assms(1) [of d' e'] obtain e'' where "unit_by_systemd bus (word_of_int pid) = Inl e''"
    by (auto simp: unit_by_systemd_def)
  from fallback_dir [of "unit_by_systemd bus" pid e'' os, OF this]
  show ?thesis unfolding GetKubeletServiceFiles_dir by simp
qed

end
