(* ===== verification/Node_Agents.thy ===== *)
theory Node_Agents
  imports Verbose_Walk Container_Runtime Service_Files
begin

text \<open>
  The sensors for the node's agents: the kubelet (\<open>sensor/kubelet.go\<close>), kube-proxy
  (\<open>sensor/kubeproxy.go\<close>) and the CNI (\<open>sensor/CNI.go\<close>).  A sensor returns its information and an
  error, and threads the name cache.  A nil slice and an empty one are both the empty list.
\<close>

definition kubeConfigArgName :: string where "kubeConfigArgName = ''--kubeconfig''"
definition kubeletProcessSuffix :: string where "kubeletProcessSuffix = ''/kubelet''"
definition kubeletConfigArgName :: string where "kubeletConfigArgName = ''--config''"
definition kubeletClientCAArgName :: string where "kubeletClientCAArgName = ''--client-ca-file''"

definition kubeletConfigDefaultPathList :: "string list" where
  "kubeletConfigDefaultPathList =
     [''/var/lib/kubelet/config.yaml'', ''/etc/kubernetes/kubelet/kubelet-config.json'']"

definition kubeletKubeConfigDefaultPathList :: "string list" where
  "kubeletKubeConfigDefaultPathList =
     [''/etc/kubernetes/kubelet.conf'', ''/var/lib/kubelet/kubeconfig'']"


subsection \<open>The kubelet\<close>

record KubeletInfo =
  ServiceFiles :: "FileInfo list"
  ConfigFile :: "FileInfo option"
  KubeConfigFile :: "FileInfo option"
  ClientCAFile :: "FileInfo option"
  KubeletCmdLine :: string

definition empty_KubeletInfo :: KubeletInfo where
  "empty_KubeletInfo = \<lparr>ServiceFiles = [], ConfigFile = None, KubeConfigFile = None,
     ClientCAFile = None, KubeletCmdLine = []\<rparr>"

definition LocateKubeletProcess :: "os_view \<Rightarrow> ProcessDetails result" where
  "LocateKubeletProcess os = LocateProcessByExecSuffix os kubeletProcessSuffix"

definition ReadKubeletConfig :: "os_view \<Rightarrow> string \<Rightarrow> bytes result" where
  "ReadKubeletConfig os kubeletConfArgs = ReadFileOnHostFileSystem os kubeletConfArgs"

text \<open>The loop over the service files.\<close>

fun append_host_infos ::
  "os_view \<Rightarrow> userGroupCache \<Rightarrow> string list \<Rightarrow> FileInfo list \<times> userGroupCache" where
  "append_host_infos os cache [] = ([], cache)"
| "append_host_infos os cache (file # files) =
     (case makeHostFileInfoVerbose os cache file False of
        (info, cache1) \<Rightarrow>
          (case append_host_infos os cache1 files of
             (infos, cache2) \<Rightarrow> (case info of Some fi \<Rightarrow> fi # infos | None \<Rightarrow> infos, cache2)))"

definition makeKubeletServiceFilesInfo ::
  "os_view \<Rightarrow> (32 word \<Rightarrow> string result) \<Rightarrow> userGroupCache \<Rightarrow> int \<Rightarrow> FileInfo list \<times> userGroupCache" where
  "makeKubeletServiceFilesInfo os unit_of_pid cache pid =
     (case GetKubeletServiceFiles os unit_of_pid pid of
        Inl err \<Rightarrow> ([], cache)
      | Inr files \<Rightarrow> append_host_infos os cache files)"

text \<open>
  \<open>yaml_ClientCAFile\<close> decodes the field \<open>authentication.x509.clientCAFile\<close>, empty when absent.
\<close>

definition kubeletExtractCAFileFromConf :: "(bytes \<Rightarrow> string result) \<Rightarrow> bytes \<Rightarrow> string result" where
  "kubeletExtractCAFileFromConf yaml_ClientCAFile content =
     (case yaml_ClientCAFile content of
        Inl err \<Rightarrow> Inl (wrap_err ''failed to unmarshal kubelet config: '' err)
      | Inr f \<Rightarrow> Inr f)"

text \<open>A file named by a flag of the process, else the first default that can be described.\<close>

definition info_by_arg_or_defaults ::
  "os_view \<Rightarrow> userGroupCache \<Rightarrow> ProcessDetails \<Rightarrow> string \<Rightarrow> string list \<Rightarrow>
     FileInfo option \<times> userGroupCache" where
  "info_by_arg_or_defaults os cache p arg defaults =
     (case GetArg p arg of
        (path, ok) \<Rightarrow>
          if ok then makeContaineredFileInfoVerbose os cache p path True
          else makeContaineredFileInfoFromListVerbose os cache p defaults True)"

definition clientCA_path ::
  "(bytes \<Rightarrow> string result) \<Rightarrow> ProcessDetails \<Rightarrow> FileInfo option \<Rightarrow> string" where
  "clientCA_path yaml_ClientCAFile p config =
     (case GetArg p kubeletClientCAArgName of
        (caFilePath, ok) \<Rightarrow>
          (case (ok, Option.bind config Content) of
             (False, Some content) \<Rightarrow>
               (case kubeletExtractCAFileFromConf yaml_ClientCAFile content of
                  Inl err \<Rightarrow> caFilePath
                | Inr extracted \<Rightarrow> extracted)
           | _ \<Rightarrow> caFilePath))"

definition SenseKubeletInfo ::
  "os_view \<Rightarrow> (32 word \<Rightarrow> string result) \<Rightarrow> (bytes \<Rightarrow> string result) \<Rightarrow> userGroupCache \<Rightarrow>
     (KubeletInfo \<times> goerr option) \<times> userGroupCache" where
  "SenseKubeletInfo os unit_of_pid yaml_ClientCAFile cache =
     (case LocateKubeletProcess os of
        Inl err \<Rightarrow>
          ((empty_KubeletInfo, Some (wrap_err ''failed to Locate kubelet process: '' err)), cache)
      | Inr p \<Rightarrow>
          (case makeKubeletServiceFilesInfo os unit_of_pid cache (sint (PID p)) of
             (services, cache1) \<Rightarrow>
          (case info_by_arg_or_defaults os cache1 p kubeletConfigArgName
                  kubeletConfigDefaultPathList of
             (config, cache2) \<Rightarrow>
          (case info_by_arg_or_defaults os cache2 p kubeConfigArgName
                  kubeletKubeConfigDefaultPathList of
             (kubeconfig, cache3) \<Rightarrow>
          (case (let caFilePath = clientCA_path yaml_ClientCAFile p config
                 in if caFilePath \<noteq> [] then makeContaineredFileInfoVerbose os cache3 p caFilePath False
                    else (None, cache3)) of
             (clientCA, cache4) \<Rightarrow>
               ((\<lparr>ServiceFiles = services, ConfigFile = config, KubeConfigFile = kubeconfig,
                  ClientCAFile = clientCA, KubeletCmdLine = RawCmd p\<rparr>, None), cache4))))))"


subsection \<open>kube-proxy\<close>

record KubeProxyInfo =
  ProxyKubeConfigFile :: "FileInfo option"
  ProxyCmdLine :: string

definition kubeProxyExe :: string where "kubeProxyExe = ''kube-proxy''"

definition SenseKubeProxyInfo ::
  "os_view \<Rightarrow> userGroupCache \<Rightarrow> (KubeProxyInfo \<times> goerr option) \<times> userGroupCache" where
  "SenseKubeProxyInfo os cache =
     (case LocateProcessByExecSuffix os kubeProxyExe of
        Inl err \<Rightarrow>
          ((\<lparr>ProxyKubeConfigFile = None, ProxyCmdLine = []\<rparr>,
            Some (wrap_err ''failed to locate kube-proxy process: '' err)), cache)
      | Inr proc \<Rightarrow>
          (case (case GetArg proc kubeConfigArgName of
                   (kubeConfigPath, ok) \<Rightarrow>
                     if ok then makeContaineredFileInfoVerbose os cache proc kubeConfigPath False
                     else (None, cache)) of
             (kubeconfig, cache') \<Rightarrow>
               ((\<lparr>ProxyKubeConfigFile = kubeconfig, ProxyCmdLine = RawCmd proc\<rparr>, None), cache')))"


subsection \<open>The CNI\<close>

record CNIInfo =
  CNIConfigFiles :: "FileInfo list"
  CNINames :: "string list"

definition makeCNIConfigFilesInfo ::
  "os_view \<Rightarrow> toml_decoder \<Rightarrow> userGroupCache \<Rightarrow> (FileInfo list \<times> goerr option) \<times> userGroupCache" where
  "makeCNIConfigFilesInfo os toml cache =
     (case LocateKubeletProcess os of
        Inl err \<Rightarrow> (([], Some err), cache)
      | Inr kubeletProc \<Rightarrow>
          let CNIConfigDir = GetCNIConfigPath os toml kubeletProc in
          if CNIConfigDir = [] then
            (([], Some (ErrText ''no CNI Config dir found in getCNIConfigPath'')), cache)
          else (case host_dir_files os cache CNIConfigDir of
                  ((files, err), cache') \<Rightarrow>
                    (case err of
                       Some e \<Rightarrow> (([], Some (wrap_err (''failed to makeHostDirFilesInfo for CNIConfigDir '' @
                           CNIConfigDir @ '': '') e)), cache')
                     | None \<Rightarrow> ((files, None), cache'))))"

definition supportedCNIs :: "(string \<times> string) list" where
  "supportedCNIs =
     [(''aws'', ''aws-k8s-agent''), (''Calico'', ''calico-node''), (''Flannel'', ''flanneld''),
      (''Cilium'', ''cilium-agent''), (''WeaveNet'', ''weave-net''), (''Kindnet'', ''kindnetd''),
      (''Multus'', ''multus'')]"

definition getCNINames :: "os_view \<Rightarrow> string list" where
  "getCNINames os =
     fold (\<lambda>(name, processSuffix) CNIs.
             case LocateProcessByExecSuffix os processSuffix of
               Inr p \<Rightarrow> CNIs @ [name]
             | Inl _ \<Rightarrow> CNIs) supportedCNIs []"

definition SenseCNIInfo ::
  "os_view \<Rightarrow> toml_decoder \<Rightarrow> userGroupCache \<Rightarrow> (CNIInfo \<times> goerr option) \<times> userGroupCache" where
  "SenseCNIInfo os toml cache =
     (case makeCNIConfigFilesInfo os toml cache of
        ((files, err), cache') \<Rightarrow>
          ((\<lparr>CNIConfigFiles = (case err of Some e \<Rightarrow> [] | None \<Rightarrow> files),
             CNINames = getCNINames os\<rparr>, None), cache'))"


subsection \<open>The answers do not show the cache\<close>

lemma append_host_infos_all_of:
  "append_host_infos os c files = infos.all_of os c HostFileSystemDefaultLocation files False"
  by (induction files arbitrary: c) (simp_all add: makeHostFileInfoVerbose_def split: prod.split)

lemma cache_blind_append_host_infos [blind_intros]: "cache_blind os (\<lambda>c. append_host_infos os c files)"
proof (induction files)
  case (Cons f files)
  then show ?case by (simp add: blind_intros)
qed (simp add: blind_intros)

lemma cache_blind_host_dir_files [blind_intros]: "cache_blind os (\<lambda>c. host_dir_files os c dir)"
proof (rule cache_blindI)
  fix c assume "cache_agrees os c"
  from host_dir_files_spec [OF this, of dir]
  show "\<exists>c'. host_dir_files os c dir =
      ((case os_Open os (HostPath dir) of Inl _ \<Rightarrow> [] | Inr _ \<Rightarrow> dir_files maxRecursionDepth os dir,
        dir_error os dir), c') \<and> cache_agrees os c'"
    by (cases "host_dir_files os c dir") simp
qed

lemma cache_blind_info_by_arg [blind_intros]:
  "cache_blind os (\<lambda>c. info_by_arg_or_defaults os c p arg defaults)"
  unfolding info_by_arg_or_defaults_def by (intro blind_intros)

lemma cache_blind_kubelet: "cache_blind os (SenseKubeletInfo os unit_of_pid ca)"
  unfolding SenseKubeletInfo_def makeKubeletServiceFilesInfo_def Let_def by (intro blind_intros)

lemma cache_blind_kubeproxy: "cache_blind os (SenseKubeProxyInfo os)"
  unfolding SenseKubeProxyInfo_def by (intro blind_intros)

lemma cache_blind_cni: "cache_blind os (SenseCNIInfo os toml)"
  unfolding SenseCNIInfo_def makeCNIConfigFilesInfo_def Let_def by (intro blind_intros)

subsection \<open>What the sensors report, without the cache\<close>

lemmas kubelet_flags = kubeletConfigArgName_def kubeConfigArgName_def kubeletConfigDefaultPathList_def
  kubeletKubeConfigDefaultPathList_def

definition containered :: "os_view \<Rightarrow> ProcessDetails \<Rightarrow> bool \<Rightarrow> string \<Rightarrow> FileInfo option" where
  "containered os p rc path = to_option (file_info_of os (RootDir p) path rc)"

definition arg_or_defaults :: "os_view \<Rightarrow> ProcessDetails \<Rightarrow> string \<Rightarrow> string list \<Rightarrow> FileInfo option" where
  "arg_or_defaults os p arg defaults =
     (if snd (GetArg p arg) then containered os p True (fst (GetArg p arg))
      else first_some (containered os p True) defaults)"

text \<open>
  The specification of the kubelet report, from the flags, the defaults and the directories that
  the reports are to come from.  The client CA is the file of the flag, else the one that the
  configuration names; the drop-in directory is that of the kubelet's unit, the packaged one before
  the administrator's, else the default one.
\<close>

definition dropin_dir :: "os_view \<Rightarrow> (32 word \<Rightarrow> string result) \<Rightarrow> 32 word \<Rightarrow> string" where
  "dropin_dir os unit_of_pid pid =
     (let candidates = (case unit_of_pid pid of
            Inl _ \<Rightarrow> []
          | Inr u \<Rightarrow> map (\<lambda>dir. path_Join [dir, u @ ''.d'']) [''/usr/lib/systemd/system/'', ''/etc/systemd/system/''])
      in case find (\<lambda>d. case os_Stat os (path_Join [''/host_fs'', d]) of Inl _ \<Rightarrow> False | Inr _ \<Rightarrow> True)
           candidates of
           Some d \<Rightarrow> d
         | None \<Rightarrow> ''/etc/systemd/system/kubelet.service.d'')"

definition dropin_files :: "os_view \<Rightarrow> string \<Rightarrow> string list" where
  "dropin_files os dir =
     (case os_ReadDir os (path_Join [''/host_fs'', dir]) of
        (_, Some err) \<Rightarrow> []
      | (names, None) \<Rightarrow> map (\<lambda>f. path_Join [dir, f]) names)"

definition client_ca_file :: "(bytes \<Rightarrow> string result) \<Rightarrow> ProcessDetails \<Rightarrow> FileInfo option \<Rightarrow> string option" where
  "client_ca_file yaml_ClientCAFile p config =
     (let (flag, given) = GetArg p ''--client-ca-file'';
          file = (if given then flag
                  else case config of
                    None \<Rightarrow> []
                  | Some fi \<Rightarrow> (case Content fi of
                      None \<Rightarrow> []
                    | Some content \<Rightarrow> (case yaml_ClientCAFile content of Inl _ \<Rightarrow> [] | Inr ca \<Rightarrow> ca)))
      in if file = [] then None else Some file)"

definition kubelet_info_of ::
  "os_view \<Rightarrow> (32 word \<Rightarrow> string result) \<Rightarrow> (bytes \<Rightarrow> string result) \<Rightarrow> ProcessDetails \<Rightarrow> KubeletInfo" where
  "kubelet_info_of os unit_of_pid yaml_ClientCAFile p =
     (let config = arg_or_defaults os p ''--config''
            [''/var/lib/kubelet/config.yaml'', ''/etc/kubernetes/kubelet/kubelet-config.json'']
      in \<lparr>ServiceFiles = List.map_filter (\<lambda>f. to_option (file_info_of os ''/host_fs'' f False))
            (dropin_files os (dropin_dir os unit_of_pid (PID p))),
          ConfigFile = config,
          KubeConfigFile = arg_or_defaults os p ''--kubeconfig''
            [''/etc/kubernetes/kubelet.conf'', ''/var/lib/kubelet/kubeconfig''],
          ClientCAFile = Option.bind (client_ca_file yaml_ClientCAFile p config) (containered os p False),
          KubeletCmdLine = RawCmd p\<rparr>)"

lemma containered_fun:
  "containered os p rc = (\<lambda>path. to_option (file_info_of os (RootDir p) path rc))"
  by (simp add: containered_def fun_eq_iff)

lemma containered_step:
  assumes "cache_agrees os c"
  obtains c' where "makeContaineredFileInfoVerbose os c p path rc = (containered os p rc path, c')"
    "cache_agrees os c'"
  unfolding makeContaineredFileInfoVerbose_def containered_def by (rule infos.makeE [OF assms]) blast

lemma arg_or_defaults_step:
  assumes "cache_agrees os c"
  obtains c' where "info_by_arg_or_defaults os c p arg defaults = (arg_or_defaults os p arg defaults, c')"
    "cache_agrees os c'"
proof (cases "GetArg p arg")
  case (Pair path ok)
  show thesis
  proof (cases ok)
    case True
    from containered_step [OF assms, of p path True] obtain c'
      where "makeContaineredFileInfoVerbose os c p path True = (containered os p True path, c')"
        "cache_agrees os c'" by blast
    then show thesis using that Pair True by (simp add: info_by_arg_or_defaults_def arg_or_defaults_def)
  next
    case False
    from infos.first_of_pure [OF assms, of "RootDir p" defaults True] that [of "snd (infos.first_of os c (RootDir p) defaults True)"]
    show thesis
      using Pair False
      by (cases "infos.first_of os c (RootDir p) defaults True")
         (simp add: info_by_arg_or_defaults_def arg_or_defaults_def containered_fun
           makeContaineredFileInfoFromList_first_of)
  qed
qed

lemma dropin_dir_service_dir: "dropin_dir os unit_of_pid pid = service_dir os unit_of_pid (sint pid)"
proof (cases "unit_of_pid pid")
  case (Inr u)
  let ?ds = "[path_Join [systemdPkgDir, u @ ''.d''], path_Join [systemdAdminDir, u @ ''.d'']]"
  let ?P = "\<lambda>d. case os_Stat os (path_Join [''/host_fs'', d]) of Inl _ \<Rightarrow> False | Inr _ \<Rightarrow> True"
  have exists: "(\<exists>st. r = Inr st) = (case r of Inl _ \<Rightarrow> False | Inr _ \<Rightarrow> True)" for r :: "FileStat result"
    by (cases r) simp_all
  have "path_Join [systemdPkgDir, u @ ''.d''] \<noteq> []" "path_Join [systemdAdminDir, u @ ''.d''] \<noteq> []"
    by (simp_all add: systemdPkgDir_def systemdAdminDir_def path_Join_rooted_nonempty)
  then have "find ?P ?ds = Some d \<Longrightarrow> d \<noteq> []" for d by (auto split: if_splits)
  moreover have "GetServiceFilesByPIDSystemd os unit_of_pid (sint pid) =
      Inr (case find ?P ?ds of None \<Rightarrow> [] | Some d \<Rightarrow> d)"
    using Inr by (simp add: GetServiceFilesByPIDSystemd_def getExistsPath_find exists HostFileSystemDefaultLocation_def
        Let_def cong: option.case_cong)
  ultimately have "service_dir os unit_of_pid (sint pid) =
      (case find ?P ?ds of None \<Rightarrow> kubeletSystemdServiceConfigDir | Some d \<Rightarrow> d)"
    by (cases "find ?P ?ds") (auto simp: service_dir_def split: list.split simp del: find.simps)
  then show ?thesis using Inr
    by (simp add: dropin_dir_def systemdPkgDir_def systemdAdminDir_def kubeletSystemdServiceConfigDir_def Let_def)
qed (simp add: dropin_dir_def service_dir_def GetServiceFilesByPIDSystemd_def kubeletSystemdServiceConfigDir_def
    systemdAdminDir_def)

lemma service_files_spec:
  "(case GetKubeletServiceFiles os unit_of_pid (sint pid) of Inl _ \<Rightarrow> [] | Inr fs \<Rightarrow> List.map_filter f fs) =
     List.map_filter f (dropin_files os (dropin_dir os unit_of_pid pid))"
  by (simp add: GetKubeletServiceFiles_dir dropin_files_def dropin_dir_service_dir HostPath_def
      HostFileSystemDefaultLocation_def List.map_filter_simps split: prod.split option.split)

lemma client_ca_spec:
  "(if clientCA_path ca p config = [] then None else g (clientCA_path ca p config)) =
     Option.bind (client_ca_file ca p config) g"
  using GetArg_missing [of p "''--client-ca-file''"]
  by (auto simp: clientCA_path_def client_ca_file_def kubeletClientCAArgName_def kubeletExtractCAFileFromConf_def
      Let_def split: prod.split option.split sum.split bool.split)

lemma service_files_step:
  assumes "cache_agrees os c"
  obtains c' where "makeKubeletServiceFilesInfo os unit_of_pid c pid =
      (case GetKubeletServiceFiles os unit_of_pid pid of
            Inl _ \<Rightarrow> []
          | Inr fs \<Rightarrow> List.map_filter
              (\<lambda>f. to_option (file_info_of os HostFileSystemDefaultLocation f False)) fs, c')"
    "cache_agrees os c'"
proof (cases "GetKubeletServiceFiles os unit_of_pid pid")
  case (Inl e)
  then show thesis using that [OF _ assms] by (simp add: makeKubeletServiceFilesInfo_def)
next
  case (Inr fs)
  from infos.all_of_pure [OF assms, of HostFileSystemDefaultLocation fs False]
    that [of "snd (infos.all_of os c HostFileSystemDefaultLocation fs False)"] Inr
  show thesis
    by (cases "infos.all_of os c HostFileSystemDefaultLocation fs False")
       (simp add: makeKubeletServiceFilesInfo_def append_host_infos_all_of)
qed


lemma SenseKubeletInfo_spec:
  assumes "LocateKubeletProcess os = Inr p" and "cache_agrees os c"
  shows "fst (SenseKubeletInfo os unit_of_pid ca c) = (kubelet_info_of os unit_of_pid ca p, None)"
proof -
  from service_files_step [OF assms(2), of unit_of_pid "sint (PID p)"] obtain c1 where
    1: "makeKubeletServiceFilesInfo os unit_of_pid c (sint (PID p)) =
        (case GetKubeletServiceFiles os unit_of_pid (sint (PID p)) of
            Inl _ \<Rightarrow> []
          | Inr fs \<Rightarrow> List.map_filter
              (\<lambda>f. to_option (file_info_of os HostFileSystemDefaultLocation f False)) fs, c1)"
    and c1: "cache_agrees os c1" by blast
  from arg_or_defaults_step [OF c1, of p kubeletConfigArgName kubeletConfigDefaultPathList]
  obtain c2 where 2: "info_by_arg_or_defaults os c1 p kubeletConfigArgName kubeletConfigDefaultPathList =
      (arg_or_defaults os p kubeletConfigArgName kubeletConfigDefaultPathList, c2)"
    and c2: "cache_agrees os c2" by blast
  from arg_or_defaults_step [OF c2, of p kubeConfigArgName kubeletKubeConfigDefaultPathList]
  obtain c3 where 3: "info_by_arg_or_defaults os c2 p kubeConfigArgName kubeletKubeConfigDefaultPathList =
      (arg_or_defaults os p kubeConfigArgName kubeletKubeConfigDefaultPathList, c3)"
    and c3: "cache_agrees os c3" by blast
  let ?ca = "clientCA_path ca p (arg_or_defaults os p kubeletConfigArgName kubeletConfigDefaultPathList)"
  from containered_step [OF c3, of p ?ca False] obtain c4
    where 4: "makeContaineredFileInfoVerbose os c3 p ?ca False = (containered os p False ?ca, c4)" by blast
  show ?thesis
    using assms(1) 1 2 3 4
    unfolding HostFileSystemDefaultLocation_def SenseKubeletInfo_def kubelet_info_of_def Let_def service_files_spec [symmetric] client_ca_spec [symmetric]
    by (simp add: kubelet_flags)
qed


subsection \<open>Properties\<close>

text \<open>
  C15: what is reported of a running kubelet is what the specification \<open>kubelet_info_of\<close> says of
  its command line, the files of its root directory and the drop-in directory of its unit on the
  host: every file comes from the flag when the flag is there (also when the file then cannot be
  read), else from the first default that can; the client CA comes from the flag, else from the
  configuration file that was read.
\<close>

theorem kubelet_info_described:
  assumes "LocateKubeletProcess os = Inr p" and "cache_agrees os c"
  shows "fst (SenseKubeletInfo os unit_of_pid ca c) = (kubelet_info_of os unit_of_pid ca p, None)"
  using assms by (rule SenseKubeletInfo_spec)

definition sample_kubelet_host :: os_view where
  "sample_kubelet_host = host_of
     [(''/proc'', dir_node [''42'']),
      (''/proc/42/cmdline'', file_node 0x124 (0, 0)
         (''/usr/bin/kubelet'' @ [NUL] @ ''--kubeconfig=/k.conf'' @ [NUL])),
      (''/proc/42/root/k.conf'', file_node 0x180 (0, 0) ''client-key-data''),
      (''/proc/42/root/var/lib/kubelet/config.yaml'', file_node 0x1A4 (0, 0) ''ca: /ca.crt''),
      (''/proc/42/root/ca.crt'', file_node 0x1A4 (0, 0) ''pem'')]"

definition sample_ca :: "bytes \<Rightarrow> string result" where
  "sample_ca b = Inr (drop 4 b)"

lemma kubelet_info_described_witness:
  "let info = fst (fst (SenseKubeletInfo sample_kubelet_host (\<lambda>_. Inl EOF) sample_ca Map.empty))
   in map_option FPath (ConfigFile info) = Some ''/var/lib/kubelet/config.yaml'' \<and>
      map_option FPath (ClientCAFile info) = Some ''/ca.crt''"
proof -
  let ?p = "\<lparr>CmdLine = [''/usr/bin/kubelet'', ''--kubeconfig=/k.conf'', ''''], PID = 42\<rparr>"
  have "LocateKubeletProcess sample_kubelet_host = Inr ?p" by code_simp
  from kubelet_info_described [OF this cache_agrees_empty, of "\<lambda>_. Inl EOF" sample_ca]
  have "fst (SenseKubeletInfo sample_kubelet_host (\<lambda>_. Inl EOF) sample_ca Map.empty) =
      (kubelet_info_of sample_kubelet_host (\<lambda>_. Inl EOF) sample_ca ?p, None)" .
  moreover have "map_option FPath (ConfigFile
      (kubelet_info_of sample_kubelet_host (\<lambda>_. Inl EOF) sample_ca ?p)) =
        Some ''/var/lib/kubelet/config.yaml''" by code_simp
  moreover have "map_option FPath (ClientCAFile
      (kubelet_info_of sample_kubelet_host (\<lambda>_. Inl EOF) sample_ca ?p)) = Some ''/ca.crt''" by code_simp
  ultimately show ?thesis by (simp add: Let_def)
qed

text \<open>
  The kubeconfig file of the kubelet, with the node's credentials, is reported together with
  its content.
\<close>

theorem kubelet_kubeconfig_content_reported:
  assumes "cache_agrees os c" and "fst (SenseKubeletInfo os unit_of_pid ca c) = (info, None)"
    and "KubeConfigFile info = Some fi"
  shows "\<exists>p b. LocateKubeletProcess os = Inr p \<and> Content fi = Some b \<and>
    os_ReadFile os (path_Join [RootDir p, FPath fi]) = Inr b"
proof -
  from assms(2) obtain p where p: "LocateKubeletProcess os = Inr p"
    by (auto simp: SenseKubeletInfo_def split: sum.splits)
  from SenseKubeletInfo_spec [OF p assms(1), of unit_of_pid ca] assms(2,3)
  have "arg_or_defaults os p kubeConfigArgName kubeletKubeConfigDefaultPathList = Some fi"
    by (auto simp: kubelet_info_of_def kubelet_flags Let_def)
  then obtain path where "file_info_of os (RootDir p) path True = Inr fi"
    by (auto simp: arg_or_defaults_def containered_def to_option_def split: if_splits sum.splits
        dest!: first_some_SomeD)
  with p file_info_of_content show ?thesis by blast
qed

lemma kubelet_kubeconfig_content_reported_witness:
  "\<exists>info fi. fst (SenseKubeletInfo sample_kubelet_host (\<lambda>_. Inl EOF) sample_ca Map.empty) = (info, None) \<and>
     KubeConfigFile info = Some fi \<and> Content fi = Some ''client-key-data''"
proof -
  let ?p = "\<lparr>CmdLine = [''/usr/bin/kubelet'', ''--kubeconfig=/k.conf'', ''''], PID = 42\<rparr>"
  let ?info = "kubelet_info_of sample_kubelet_host (\<lambda>_. Inl EOF) sample_ca ?p"
  have loc: "LocateKubeletProcess sample_kubelet_host = Inr ?p" by code_simp
  from SenseKubeletInfo_spec [OF this cache_agrees_empty, of "\<lambda>_. Inl EOF" sample_ca]
  have run: "fst (SenseKubeletInfo sample_kubelet_host (\<lambda>_. Inl EOF) sample_ca Map.empty) = (?info, None)" .
  have "map_option FPath (KubeConfigFile ?info) = Some ''/k.conf''" by code_simp
  then obtain fi where fi: "KubeConfigFile ?info = Some fi" "FPath fi = ''/k.conf''" by auto
  from kubelet_kubeconfig_content_reported [OF cache_agrees_empty run fi(1)] loc fi(2) obtain b
    where b: "Content fi = Some b" "os_ReadFile sample_kubelet_host (path_Join [RootDir ?p, ''/k.conf'']) = Inr b"
    by auto
  have "os_ReadFile sample_kubelet_host (path_Join [RootDir ?p, ''/k.conf'']) = Inr ''client-key-data''"
    by code_simp
  with run fi b show ?thesis by simp
qed

text \<open>
  Of the kubeconfig file of kube-proxy no content is reported, and the file is one seen from
  the process.
\<close>

theorem kubeproxy_kubeconfig_without_content:
  assumes "cache_agrees os c" and "fst (SenseKubeProxyInfo os c) = (info, err)"
    and "ProxyKubeConfigFile info = Some fi"
  shows "Content fi = None \<and> (\<exists>p. LocateProcessByExecSuffix os ''kube-proxy'' = Inr p \<and>
    GetArg p ''--kubeconfig'' = (FPath fi, True))"
proof -
  from assms(2,3) obtain p where p: "LocateProcessByExecSuffix os ''kube-proxy'' = Inr p"
    by (auto simp: SenseKubeProxyInfo_def kubeProxyExe_def split: sum.splits)
  obtain path ok where a: "GetArg p ''--kubeconfig'' = (path, ok)" by fastforce
  obtain c' where m: "makeContaineredFileInfoVerbose os c p path False = (containered os p False path, c')"
    using containered_step [OF assms(1)] by blast
  from assms(2,3) p a m have "ok \<and> file_info_of os (RootDir p) path False = Inr fi"
    by (cases ok) (auto simp: SenseKubeProxyInfo_def kubeProxyExe_def kubeConfigArgName_def
        containered_def to_option_def split: sum.splits)
  with a p show ?thesis using file_info_of_InrD(1,2) [of os "RootDir p" path False fi] by auto
qed

definition sample_kubeproxy_host :: os_view where
  "sample_kubeproxy_host = host_of
     [(''/proc'', dir_node [''8'']),
      (''/proc/8/cmdline'', file_node 0x124 (0, 0)
         (''/usr/local/bin/kube-proxy'' @ [NUL] @ ''--kubeconfig=/kp.conf'' @ [NUL])),
      (''/proc/8/root/kp.conf'', file_node 0x180 (0, 0) ''token'')]"

lemma kubeproxy_kubeconfig_without_content_witness:
  "\<exists>info fi. fst (SenseKubeProxyInfo sample_kubeproxy_host Map.empty) = (info, None) \<and>
     ProxyKubeConfigFile info = Some fi \<and> Content fi = None \<and> FPath fi = ''/kp.conf''"
proof -
  have "map_option FPath (ProxyKubeConfigFile (fst (fst (SenseKubeProxyInfo sample_kubeproxy_host Map.empty))))
      = Some ''/kp.conf''" "snd (fst (SenseKubeProxyInfo sample_kubeproxy_host Map.empty)) = None"
    by code_simp+
  then obtain info fi where *: "fst (SenseKubeProxyInfo sample_kubeproxy_host Map.empty) = (info, None)"
    "ProxyKubeConfigFile info = Some fi" "FPath fi = ''/kp.conf''"
    by (cases "fst (SenseKubeProxyInfo sample_kubeproxy_host Map.empty)") auto
  from kubeproxy_kubeconfig_without_content [OF cache_agrees_empty *(1,2)] * show ?thesis by blast
qed

text \<open>
  The reported CNI plugins are those whose process is running, in the fixed order.
\<close>

theorem CNI_names_are_the_running_ones:
  "getCNINames os = map fst (filter (\<lambda>(name, sfx). \<exists>p. LocateProcessByExecSuffix os sfx = Inr p) supportedCNIs)"
proof -
  have "fold (\<lambda>(name, sfx) CNIs. case LocateProcessByExecSuffix os sfx of
             Inr p \<Rightarrow> CNIs @ [name] | Inl _ \<Rightarrow> CNIs) l acc =
      acc @ map fst (filter (\<lambda>(name, sfx). \<exists>p. LocateProcessByExecSuffix os sfx = Inr p) l)" for l acc
    by (induction l arbitrary: acc) (auto split: sum.split)
  from this [of supportedCNIs "[]"] show ?thesis by (simp add: getCNINames_def)
qed

end
