(* ===== verification/Encryption_Config.thy ===== *)
theory Encryption_Config
  imports File_Info Go_Json
begin

text \<open>
  The encryption provider configuration of the API server (\<open>sensor/controlplane.go\<close>): reading
  the file from the API server's container and redacting the secrets before it is reported.

  Decoding YAML and JSON and encoding YAML are third-party code and parameters.  A decoded value
  is a \<open>yval\<close>: a mapping with string keys decodes to a Go \<open>map[string]interface{}\<close> (\<open>YMap\<close>), any
  other mapping to a \<open>map[interface{}]interface{}\<close> (\<open>YAnyMap\<close>).  A map is an association list
  with the first entry of a key counting.  Go's maps have no order: the encoder of the program
  sorts the keys, and nothing below assumes that an encoder or decoder keeps an order.
\<close>

datatype yval =
    YNull
  | YScalar string
  | YSeq "yval list"
  | YMap "(string \<times> yval) list"
  | YAnyMap "(yval \<times> yval) list"

type_synonym ydata = "(string \<times> yval) list"


subsection \<open>removeEncryptionProviderConfigSecrets\<close>

definition REDACTED :: yval where "REDACTED = YScalar ''<REDACTED>''"

text \<open>One level of the nested loops each; a value of another shape is a \<open>continue\<close>.\<close>

fun redact_key :: "yval \<Rightarrow> yval" where
  "redact_key (YMap key) = YMap (map_set ''secret'' REDACTED key)"
| "redact_key v = v"

fun redact_object :: "yval \<Rightarrow> yval" where
  "redact_object (YMap object) =
     (case map_of object ''keys'' of
        Some (YSeq keys) \<Rightarrow> YMap (map_set ''keys'' (YSeq (map redact_key keys)) object)
      | _ \<Rightarrow> YMap object)"
| "redact_object v = v"

fun redact_provider :: "yval \<Rightarrow> yval" where
  "redact_provider (YMap provider) = YMap (map (\<lambda>(key, v). (key, redact_object v)) provider)"
| "redact_provider v = v"

fun redact_resource :: "yval \<Rightarrow> yval" where
  "redact_resource (YMap resource) =
     (case map_of resource ''providers'' of
        Some (YSeq providers) \<Rightarrow>
          YMap (map_set ''providers'' (YSeq (map redact_provider providers)) resource)
      | _ \<Rightarrow> YMap resource)"
| "redact_resource v = v"

definition removeEncryptionProviderConfigSecrets :: "ydata \<Rightarrow> ydata" where
  "removeEncryptionProviderConfigSecrets data =
     (case map_of data ''resources'' of
        Some (YSeq resources) \<Rightarrow> map_set ''resources'' (YSeq (map redact_resource resources)) data
      | _ \<Rightarrow> data)"


subsection \<open>The file\<close>

definition apiEncryptionProviderConfigArg :: string where
  "apiEncryptionProviderConfigArg = ''--encryption-provider-config''"

text \<open>
  \<open>yaml_Unmarshal\<close> fills an empty map and may leave it half filled with an error;
  \<open>json_Unmarshal\<close> goes on with that map.
\<close>

definition makeAPIserverEncryptionProviderConfigFile ::
  "os_view \<Rightarrow> (bytes \<Rightarrow> ydata \<times> goerr option) \<Rightarrow> (bytes \<Rightarrow> ydata \<Rightarrow> ydata \<times> goerr option) \<Rightarrow>
     (ydata \<Rightarrow> bytes result) \<Rightarrow> userGroupCache \<Rightarrow> ProcessDetails \<Rightarrow>
     FileInfo option \<times> userGroupCache" where
  "makeAPIserverEncryptionProviderConfigFile os yaml_Unmarshal json_Unmarshal yaml_Marshal cache p =
     (case GetArg p apiEncryptionProviderConfigArg of
        (encryptionProviderConfigPath, ok) \<Rightarrow>
          if \<not> ok then (None, cache)
          else (case MakeContaineredFileInfo os cache p encryptionProviderConfigPath True of
                  (Inl err, cache') \<Rightarrow> (None, cache')
                | (Inr fi, cache') \<Rightarrow>
                    let content = (case Content fi of Some b \<Rightarrow> b | None \<Rightarrow> []);
                        decoded = (case yaml_Unmarshal content of
                            (data, None) \<Rightarrow> Some data
                          | (data, Some errYaml) \<Rightarrow>
                              (case json_Unmarshal content data of
                                 (data', None) \<Rightarrow> Some data'
                               | (data', Some errJson) \<Rightarrow> None))
                    in (case decoded of
                          None \<Rightarrow> (None, cache')
                        | Some data \<Rightarrow>
                            (case yaml_Marshal (removeEncryptionProviderConfigSecrets data) of
                               Inl err \<Rightarrow> (None, cache')
                             | Inr out \<Rightarrow> (Some (fi\<lparr>Content := Some out\<rparr>), cache')))))"


subsection \<open>Paths into a value\<close>

datatype ystep = Key string | Idx nat

fun yget :: "ystep list \<Rightarrow> yval \<Rightarrow> yval option" where
  "yget [] v = Some v"
| "yget (Key k # p) (YMap m) = (case map_of m k of Some v \<Rightarrow> yget p v | None \<Rightarrow> None)"
| "yget (Idx i # p) (YSeq vs) = (if i < length vs then yget p (vs ! i) else None)"
| "yget (s # p) v = None"

text \<open>Where the Kubernetes format keeps its secrets.\<close>

fun is_secret_path :: "ystep list \<Rightarrow> bool" where
  "is_secret_path [Key r, Idx i, Key p, Idx j, Key n, Key ks, Idx k, Key s] \<longleftrightarrow>
     r = ''resources'' \<and> p = ''providers'' \<and> ks = ''keys'' \<and> s = ''secret''"
| "is_secret_path _ \<longleftrightarrow> False"

text \<open>A value that no path enters.\<close>

fun is_atom :: "yval \<Rightarrow> bool" where
  "is_atom (YSeq vs) \<longleftrightarrow> False"
| "is_atom (YMap m) \<longleftrightarrow> False"
| "is_atom _ \<longleftrightarrow> True"

text \<open>The same path below one level of the structure, for the proofs.\<close>

definition key_path :: "ystep list \<Rightarrow> bool" where
  "key_path p \<longleftrightarrow> p = [Key ''secret'']"

definition object_path :: "ystep list \<Rightarrow> bool" where
  "object_path p \<longleftrightarrow> (\<exists>i q. p = Key ''keys'' # Idx i # q \<and> key_path q)"

definition provider_path :: "ystep list \<Rightarrow> bool" where
  "provider_path p \<longleftrightarrow> (\<exists>n q. p = Key n # q \<and> object_path q)"

definition resource_path :: "ystep list \<Rightarrow> bool" where
  "resource_path p \<longleftrightarrow> (\<exists>i q. p = Key ''providers'' # Idx i # q \<and> provider_path q)"

lemma is_secret_path_iff:
  "is_secret_path p \<longleftrightarrow> (\<exists>i q. p = Key ''resources'' # Idx i # q \<and> resource_path q)"
  by (cases p rule: is_secret_path.cases)
     (auto simp: resource_path_def provider_path_def object_path_def key_path_def)

lemma yget_Key: "yget (Key k # p) v = (case v of YMap m \<Rightarrow> (case map_of m k of Some w \<Rightarrow> yget p w | None \<Rightarrow> None) | _ \<Rightarrow> None)"
  by (cases v) auto

lemma yget_Idx: "yget (Idx i # p) v = (case v of YSeq vs \<Rightarrow> if i < length vs then yget p (vs ! i) else None | _ \<Rightarrow> None)"
  by (cases v) auto

lemma map_of_map_snd: "map_of (map (\<lambda>(k, v). (k, f v)) m) k = map_option f (map_of m k)"
  by (induction m) auto

text \<open>Redaction hits the secret paths, level by level.\<close>

definition hidden :: "yval option \<Rightarrow> bool" where
  "hidden r \<longleftrightarrow> r = None \<or> r = Some REDACTED"

lemma hidden_simps [simp]: "hidden None" "hidden (Some REDACTED)"
  by (simp_all add: hidden_def)

lemma hidden_key: "key_path p \<Longrightarrow> hidden (yget p (redact_key v))"
  by (cases v) (auto simp: key_path_def)

lemma hidden_object: "object_path p \<Longrightarrow> hidden (yget p (redact_object v))"
  by (cases v)
     (auto simp: object_path_def yget_Idx hidden_key key_path_def split: option.splits yval.splits)

lemma hidden_provider: "provider_path p \<Longrightarrow> hidden (yget p (redact_provider v))"
  by (cases v)
     (auto simp: provider_path_def map_of_map_snd hidden_object object_path_def split: option.splits)

lemma hidden_resource: "resource_path p \<Longrightarrow> hidden (yget p (redact_resource v))"
  by (cases v)
     (auto simp: resource_path_def yget_Idx hidden_provider provider_path_def
        split: option.splits yval.splits)

lemma hidden_secret_path:
  assumes "is_secret_path p"
  shows "hidden (yget p (YMap (removeEncryptionProviderConfigSecrets data)))"
  using assms
  by (auto simp: is_secret_path_iff yget_Idx removeEncryptionProviderConfigSecrets_def
      hidden_resource resource_path_def split: option.splits yval.splits)

text \<open>Everything that is not below a secret path is kept.\<close>

definition under :: "(ystep list \<Rightarrow> bool) \<Rightarrow> ystep list \<Rightarrow> bool" where
  "under P p \<longleftrightarrow> (\<exists>q r. p = q @ r \<and> P q)"

lemma under_step:
  assumes "\<And>q. P q \<Longrightarrow> Q (s # q)" "under P p"
  shows "under Q (s # p)"
  using assms by (metis append_Cons under_def)

lemma yget_SomeD_cases:
  assumes "yget p v = Some w"
  obtains "p = []" "v = w"
  | k q m v' where "p = Key k # q" "v = YMap m" "map_of m k = Some v'" "yget q v' = Some w"
  | i q vs where "p = Idx i # q" "v = YSeq vs" "i < length vs" "yget q (vs ! i) = Some w"
  using assms
  by (cases "(p, v)" rule: yget.cases) (auto split: option.splits if_splits)

lemma kept_key:
  assumes "yget p v = Some w" "is_atom w" "\<not> under key_path p"
  shows "yget p (redact_key v) = Some w"
  using assms(1)
proof (cases rule: yget_SomeD_cases)
  case (2 k q m v')
  have "k \<noteq> ''secret''"
    using assms(3) 2(1) by (metis append_Cons append_Nil key_path_def under_def)
  with 2 show ?thesis by simp
qed (use assms(2) in \<open>cases w; simp\<close>)+

lemma kept_seq:
  assumes "yget q (YSeq vs) = Some w" "is_atom w" "\<And>i r. q = Idx i # r \<Longrightarrow> \<not> under P r"
    and "\<And>v r. yget r v = Some w \<Longrightarrow> \<not> under P r \<Longrightarrow> yget r (f v) = Some w"
  shows "yget q (YSeq (map f vs)) = Some w"
  using assms(1)
proof (cases rule: yget_SomeD_cases)
  case (3 i r vs')
  with assms(3,4) show ?thesis by simp
qed (use assms(2) in auto)

lemma kept_object:
  assumes "yget p v = Some w" "is_atom w" "\<not> under object_path p"
  shows "yget p (redact_object v) = Some w"
  using assms(1)
proof (cases rule: yget_SomeD_cases)
  case (2 k q m v')
  show ?thesis
  proof (cases "\<exists>ks. map_of m ''keys'' = Some (YSeq ks)")
    case True
    then obtain ks where ks: "map_of m ''keys'' = Some (YSeq ks)" by blast
    have "yget q (YSeq (map redact_key ks)) = Some w" if "k = ''keys''"
    proof (rule kept_seq [where P = key_path])
      show "yget q (YSeq ks) = Some w" using 2 ks that by simp
      show "\<not> under key_path r" if "q = Idx i # r" for i r
        using assms(3) 2(1) \<open>k = ''keys''\<close> that
        by (auto simp: under_def object_path_def) (metis append_Cons)
    qed (use assms(2) kept_key in auto)
    then show ?thesis using 2 ks by simp
  next
    case False
    then have "redact_object (YMap m) = YMap m" by (auto split: option.split yval.split)
    then show ?thesis using 2 by simp
  qed
qed (use assms(2) in \<open>cases w; simp\<close>)+

lemma kept_provider:
  assumes "yget p v = Some w" "is_atom w" "\<not> under provider_path p"
  shows "yget p (redact_provider v) = Some w"
  using assms(1)
proof (cases rule: yget_SomeD_cases)
  case (2 k q m v')
  have "\<not> under object_path q"
    using assms(3) 2(1) under_step [of object_path provider_path "Key k" q]
    by (auto simp: provider_path_def)
  with 2 assms(2) kept_object show ?thesis by (simp add: map_of_map_snd)
qed (use assms(2) in \<open>cases w; simp\<close>)+

lemma kept_resource:
  assumes "yget p v = Some w" "is_atom w" "\<not> under resource_path p"
  shows "yget p (redact_resource v) = Some w"
  using assms(1)
proof (cases rule: yget_SomeD_cases)
  case (2 k q m v')
  show ?thesis
  proof (cases "\<exists>ps. map_of m ''providers'' = Some (YSeq ps)")
    case True
    then obtain ps where ps: "map_of m ''providers'' = Some (YSeq ps)" by blast
    have "yget q (YSeq (map redact_provider ps)) = Some w" if "k = ''providers''"
    proof (rule kept_seq [where P = provider_path])
      show "yget q (YSeq ps) = Some w" using 2 ps that by simp
      show "\<not> under provider_path r" if "q = Idx i # r" for i r
        using assms(3) 2(1) \<open>k = ''providers''\<close> that
        by (auto simp: under_def resource_path_def) (metis append_Cons)
    qed (use assms(2) kept_provider in auto)
    then show ?thesis using 2 ps by simp
  next
    case False
    then have "redact_resource (YMap m) = YMap m" by (auto split: option.split yval.split)
    then show ?thesis using 2 by simp
  qed
qed (use assms(2) in \<open>cases w; simp\<close>)+

lemma kept_config:
  assumes "yget p (YMap data) = Some w" "is_atom w" "\<not> under is_secret_path p"
  shows "yget p (YMap (removeEncryptionProviderConfigSecrets data)) = Some w"
proof (cases "\<exists>rs. map_of data ''resources'' = Some (YSeq rs)")
  case True
  then obtain rs where rs: "map_of data ''resources'' = Some (YSeq rs)" by blast
  from assms(1) show ?thesis
  proof (cases rule: yget_SomeD_cases)
    case (2 k q m v')
    have "yget q (YSeq (map redact_resource rs)) = Some w" if "k = ''resources''"
    proof (rule kept_seq [where P = resource_path])
      show "yget q (YSeq rs) = Some w" using 2 rs that by simp
      show "\<not> under resource_path r" if "q = Idx i # r" for i r
        using assms(3) 2(1) \<open>k = ''resources''\<close> that
        by (auto simp: under_def is_secret_path_iff) (metis append_Cons)
    qed (use assms(2) kept_resource in auto)
    then show ?thesis using 2 rs by (auto simp: removeEncryptionProviderConfigSecrets_def)
  qed (use assms(2) in auto)
next
  case False
  then have "removeEncryptionProviderConfigSecrets data = data"
    by (auto simp: removeEncryptionProviderConfigSecrets_def split: option.split yval.split)
  then show ?thesis using assms(1) by simp
qed

lemma redact_idem:
  "redact_key (redact_key v) = redact_key v"
  "redact_object (redact_object v) = redact_object v"
  "redact_provider (redact_provider v) = redact_provider v"
  "redact_resource (redact_resource v) = redact_resource v"
proof -
  show k: "redact_key (redact_key v) = redact_key v" for v by (cases v) auto
  show o: "redact_object (redact_object v) = redact_object v" for v
    by (cases v) (auto simp: k comp_def split: option.split yval.split)
  show p: "redact_provider (redact_provider v) = redact_provider v" for v
    by (cases v) (auto simp: o)
  show "redact_resource (redact_resource v) = redact_resource v" for v
    by (cases v) (auto simp: p comp_def split: option.split yval.split)
qed

text \<open>Another value at a path that leads somewhere; else nothing changes.\<close>

fun yset :: "ystep list \<Rightarrow> yval \<Rightarrow> yval \<Rightarrow> yval" where
  "yset [] s v = s"
| "yset (Key k # p) s (YMap m) =
     (case map_of m k of None \<Rightarrow> YMap m | Some v \<Rightarrow> YMap (map_set k (yset p s v) m))"
| "yset (Idx i # p) s (YSeq vs) = (if i < length vs then YSeq (vs[i := yset p s (vs ! i)]) else YSeq vs)"
| "yset (st # p) s v = v"



lemma yset_Key_other: "(\<nexists>m. v = YMap m) \<Longrightarrow> yset (Key k # p) s v = v"
  by (cases v) auto









subsection \<open>Properties\<close>

text \<open>
  C6: after redaction every place where the format keeps a secret, in whatever resource,
  provider and key, is absent or holds the fixed text.
\<close>

theorem secrets_are_redacted:
  assumes "is_secret_path p"
  shows "yget p (YMap (removeEncryptionProviderConfigSecrets data)) \<in>
    {None, Some (YScalar ''<REDACTED>'')}"
  using hidden_secret_path [OF assms, of data] by (auto simp: hidden_def REDACTED_def)

definition sample_config :: "string \<Rightarrow> ydata" where
  "sample_config s =
     [(''kind'', YScalar ''EncryptionConfiguration''),
      (''resources'', YSeq [YMap
         [(''resources'', YSeq [YScalar ''secrets'']),
          (''providers'', YSeq
            [YMap [(''aescbc'', YMap [(''keys'', YSeq
               [YMap [(''name'', YScalar ''key1''), (''secret'', YScalar s)]])])],
             YMap [(''identity'', YMap [])]])]])]"

lemma secrets_are_redacted_witness:
  "yget [Key ''resources'', Idx 0, Key ''providers'', Idx 0, Key ''aescbc'', Key ''keys'', Idx 0,
      Key ''secret''] (YMap (removeEncryptionProviderConfigSecrets (sample_config ''c2VjcmV0'')))
   = Some (YScalar ''<REDACTED>'')"
proof -
  let ?p = "[Key ''resources'', Idx 0, Key ''providers'', Idx 0, Key ''aescbc'', Key ''keys'', Idx 0,
      Key ''secret'']"
  have "is_secret_path ?p" by simp
  then have "yget ?p (YMap (removeEncryptionProviderConfigSecrets (sample_config ''c2VjcmV0''))) \<in>
      {None, Some (YScalar ''<REDACTED>'')}" by (rule secrets_are_redacted)
  moreover have "yget ?p (YMap (removeEncryptionProviderConfigSecrets (sample_config ''c2VjcmV0''))) \<noteq> None"
    by code_simp
  ultimately show ?thesis by blast
qed

text \<open>
  C9: redaction changes nothing else: a scalar (or a value the code does not look into) that is
  not below such a place is still at its place.
\<close>

theorem redaction_keeps_the_rest:
  assumes "yget p (YMap data) = Some w" and "is_atom w"
    and "\<forall>q r. p = q @ r \<longrightarrow> \<not> is_secret_path q"
  shows "yget p (YMap (removeEncryptionProviderConfigSecrets data)) = Some w"
  using kept_config [OF assms(1,2)] assms(3) by (auto simp: under_def)

lemma redaction_keeps_the_rest_witness:
  "yget [Key ''resources'', Idx 0, Key ''providers'', Idx 0, Key ''aescbc'', Key ''keys'', Idx 0,
      Key ''name''] (YMap (removeEncryptionProviderConfigSecrets (sample_config ''x'')))
   = Some (YScalar ''key1'')"
proof (rule redaction_keeps_the_rest)
  show "\<forall>q r. [Key ''resources'', Idx 0, Key ''providers'', Idx 0, Key ''aescbc'', Key ''keys'', Idx 0,
      Key ''name''] = q @ r \<longrightarrow> \<not> is_secret_path q"
    by (auto simp: Cons_eq_append_conv)
qed code_simp+

text \<open>
  C37: a provider that is a mapping with a key that is no string is decoded to another Go type,
  which the loops skip: what is reported of the file encodes it with its secrets.
\<close>

theorem mixed_key_provider_is_reported:
  assumes "GetArg p ''--encryption-provider-config'' = (path, True)"
    and "MakeContaineredFileInfo os c p path True = (Inr read, c1)"
    and "yaml_Unmarshal (the (Content read)) = (data, None)" "Content read \<noteq> None"
    and "yget [Key ''resources'', Idx i, Key ''providers'', Idx j] (YMap data) = Some (YAnyMap m)"
    and "makeAPIserverEncryptionProviderConfigFile os yaml_Unmarshal json_Unmarshal yaml_Marshal c p = (Some fi, c')"
  shows "\<exists>d out. Content fi = Some out \<and> yaml_Marshal d = Inr out \<and>
    yget [Key ''resources'', Idx i, Key ''providers'', Idx j] (YMap d) = Some (YAnyMap m)"
proof (intro exI conjI)
  show "yget [Key ''resources'', Idx i, Key ''providers'', Idx j] (YMap (removeEncryptionProviderConfigSecrets data)) =
      Some (YAnyMap m)"
    by (rule kept_config [OF assms(5)]) (auto simp: under_def Cons_eq_append_conv)
  show "Content fi = Some (the (Content fi))"
    "yaml_Marshal (removeEncryptionProviderConfigSecrets data) = Inr (the (Content fi))"
    using assms by (auto simp: makeAPIserverEncryptionProviderConfigFile_def apiEncryptionProviderConfigArg_def
        Let_def split: sum.splits)
qed

text \<open>JSON is YAML, so a codec for the examples is the one of JSON.\<close>

fun json_of_y :: "yval \<Rightarrow> json" where
  "json_of_y YNull = JNull"
| "json_of_y (YScalar s) = JStr s"
| "json_of_y (YSeq vs) = JArr (map json_of_y vs)"
| "json_of_y (YMap m) = JObj (map (\<lambda>(k, v). (k, json_of_y v)) m)"
| "json_of_y (YAnyMap m) = JArr (map (\<lambda>(k, v). JArr [json_of_y k, json_of_y v]) m)"

fun y_of_json :: "json \<Rightarrow> yval" where
  "y_of_json (JStr s) = YScalar s"
| "y_of_json (JArr vs) = YSeq (map y_of_json vs)"
| "y_of_json (JObj m) = YMap (map (\<lambda>(k, v). (k, y_of_json v)) m)"
| "y_of_json (JInt i) = YScalar (strconv_Itoa i)"
| "y_of_json (JBool b) = YScalar (if b then ''true'' else ''false'')"
| "y_of_json JNull = YNull"

definition sample_yaml :: "bytes \<Rightarrow> ydata \<times> goerr option" where
  "sample_yaml b =
     (case map_option y_of_json (json_read b) of
        Some (YMap m) \<Rightarrow> (m, None)
      | _ \<Rightarrow> ([], Some (ErrText ''cannot unmarshal'')))"

definition sample_marshal :: "ydata \<Rightarrow> bytes result" where
  "sample_marshal d = Inr (json_text (json_of_y (YMap d)))"

definition sample_config_host :: "bytes \<Rightarrow> os_view" where
  "sample_config_host b = host_of [(''/proc/5/root/enc.yaml'', file_node 0x180 (0, 0) b)]"

definition sample_api_server :: ProcessDetails where
  "sample_api_server = \<lparr>CmdLine = [''kube-apiserver'', ''--encryption-provider-config=/enc.yaml''], PID = 5\<rparr>"

definition mixed_config :: ydata where
  "mixed_config = [(''resources'', YSeq [YMap [(''providers'', YSeq
     [YAnyMap [(YScalar ''aescbc'', YMap [(''keys'', YSeq [YMap [(''secret'', YScalar ''s'')]])]),
       (YNull, YNull)]])]])]"

lemma mixed_key_provider_is_reported_witness:
  "\<exists>fi c' d out m. makeAPIserverEncryptionProviderConfigFile (sample_config_host ''mixed'')
      (\<lambda>b. if b = ''mixed'' then (mixed_config, None) else sample_yaml b) (\<lambda>b d. (d, Some EOF)) sample_marshal
      Map.empty sample_api_server = (Some fi, c') \<and> Content fi = Some out \<and> sample_marshal d = Inr out \<and>
     yget [Key ''resources'', Idx 0, Key ''providers'', Idx 0] (YMap d) = Some (YAnyMap m)"
proof -
  let ?y = "\<lambda>b. if b = ''mixed'' then (mixed_config, None) else sample_yaml b"
  let ?m = "MakeContaineredFileInfo (sample_config_host ''mixed'') Map.empty sample_api_server ''/enc.yaml'' True"
  let ?r = "makeAPIserverEncryptionProviderConfigFile (sample_config_host ''mixed'') ?y
      (\<lambda>b d. (d, Some EOF)) sample_marshal Map.empty sample_api_server"
  have arg: "GetArg sample_api_server ''--encryption-provider-config'' = (''/enc.yaml'', True)" by code_simp
  have "case fst ?m of Inl _ \<Rightarrow> False | Inr read \<Rightarrow> Content read = Some ''mixed''" by code_simp
  then obtain read c1 where read: "?m = (Inr read, c1)" "Content read = Some ''mixed''"
    by (cases ?m) (auto split: sum.splits)
  have "fst ?r \<noteq> None" by code_simp
  then obtain fi c' where r: "?r = (Some fi, c')" by (cases ?r) auto
  have "yget [Key ''resources'', Idx 0, Key ''providers'', Idx 0] (YMap mixed_config) =
      Some (YAnyMap [(YScalar ''aescbc'', YMap [(''keys'', YSeq [YMap [(''secret'', YScalar ''s'')]])]), (YNull, YNull)])"
    by code_simp
  from mixed_key_provider_is_reported [OF arg read(1) _ _ this r] read(2) r show ?thesis by fastforce
qed




end
