(* ===== verification/Control_Plane.thy ===== *)
theory Control_Plane
  imports Node_Agents Encryption_Config
begin

text \<open>
  The control-plane sensor, the rest of \<open>sensor/controlplane.go\<close>.  Its Go structs embed and
  point to each other; here a nilable pointer is an option and the embedded \<open>*K8sProcessInfo\<close> of
  \<open>ApiServerInfo\<close> is the field \<open>ApiProcessInfo\<close>.
\<close>

definition apiServerExe :: string where "apiServerExe = ''/kube-apiserver''"
definition controllerManagerExe :: string where "controllerManagerExe = ''/kube-controller-manager''"
definition schedulerExe :: string where "schedulerExe = ''/kube-scheduler''"
definition etcdExe :: string where "etcdExe = ''/etcd''"
definition etcdDataDirArg :: string where "etcdDataDirArg = ''--data-dir''"
definition auditPolicyFileArg :: string where "auditPolicyFileArg = ''--audit-policy-file''"

definition apiServerSpecsPath :: string where
  "apiServerSpecsPath = ''/etc/kubernetes/manifests/kube-apiserver.yaml''"
definition controllerManagerSpecsPath :: string where
  "controllerManagerSpecsPath = ''/etc/kubernetes/manifests/kube-controller-manager.yaml''"
definition controllerManagerConfigPath :: string where
  "controllerManagerConfigPath = ''/etc/kubernetes/controller-manager.conf''"
definition schedulerSpecsPath :: string where
  "schedulerSpecsPath = ''/etc/kubernetes/manifests/kube-scheduler.yaml''"
definition schedulerConfigPath :: string where
  "schedulerConfigPath = ''/etc/kubernetes/scheduler.conf''"
definition etcdConfigPath :: string where "etcdConfigPath = ''/etc/kubernetes/manifests/etcd.yaml''"
definition adminConfigPath :: string where "adminConfigPath = ''/etc/kubernetes/admin.conf''"
definition pkiDir :: string where "pkiDir = ''/etc/kubernetes/pki''"

definition ErrDataDirNotFound :: goerr where
  "ErrDataDirNotFound = ErrText ''failed to find etcd data-dir''"

record K8sProcessInfo =
  SpecsFile :: "FileInfo option"
  ProcConfigFile :: "FileInfo option"
  ProcKubeConfigFile :: "FileInfo option"
  ProcClientCAFile :: "FileInfo option"
  ProcCmdLine :: string

record ApiServerInfo =
  EncryptionProviderConfigFile :: "FileInfo option"
  AuditPolicyFile :: "FileInfo option"
  ApiProcessInfo :: "K8sProcessInfo option"

record ControlPlaneInfo =
  APIServerInfo :: "ApiServerInfo option"
  ControllerManagerInfo :: "K8sProcessInfo option"
  SchedulerInfo :: "K8sProcessInfo option"
  EtcdConfigFile :: "FileInfo option"
  EtcdDataDir :: "FileInfo option"
  AdminConfigFile :: "FileInfo option"
  PKIDIr :: "FileInfo option"
  PKIFiles :: "FileInfo list"

definition getEtcdDataDir :: "os_view \<Rightarrow> string result" where
  "getEtcdDataDir os =
     (case LocateProcessByExecSuffix os etcdExe of
        Inl err \<Rightarrow> Inl (wrap_err ''failed to locate etcd process: '' err)
      | Inr proc \<Rightarrow>
          (case GetArg proc etcdDataDirArg of
             (dataDir, ok) \<Rightarrow> if \<not> ok \<or> dataDir = [] then Inl ErrDataDirNotFound else Inr dataDir))"

text \<open>One of the four files of a process; an empty path is skipped.\<close>

definition optional_host_info ::
  "os_view \<Rightarrow> userGroupCache \<Rightarrow> string \<Rightarrow> FileInfo option \<times> userGroupCache" where
  "optional_host_info os cache path =
     (if path = [] then (None, cache) else makeHostFileInfoVerbose os cache path False)"

definition makeProcessInfoVerbose ::
  "os_view \<Rightarrow> userGroupCache \<Rightarrow> ProcessDetails option \<Rightarrow> string \<Rightarrow> string \<Rightarrow> string \<Rightarrow> string \<Rightarrow>
     K8sProcessInfo option \<times> userGroupCache" where
  "makeProcessInfoVerbose os cache p specsPath configPath kubeConfigPath clientCaPath =
     (case optional_host_info os cache specsPath of (specs, cache1) \<Rightarrow>
     (case optional_host_info os cache1 configPath of (config, cache2) \<Rightarrow>
     (case optional_host_info os cache2 kubeConfigPath of (kubeconfig, cache3) \<Rightarrow>
     (case optional_host_info os cache3 clientCaPath of (clientCA, cache4) \<Rightarrow>
       let ret = \<lparr>SpecsFile = specs, ProcConfigFile = config, ProcKubeConfigFile = kubeconfig,
             ProcClientCAFile = clientCA,
             ProcCmdLine = (case p of None \<Rightarrow> [] | Some pr \<Rightarrow> RawCmd pr)\<rparr>
       in (if ret = \<lparr>SpecsFile = None, ProcConfigFile = None, ProcKubeConfigFile = None,
                     ProcClientCAFile = None, ProcCmdLine = []\<rparr> then None else Some ret,
           cache4)))))"

definition makeAPIserverAuditPolicyFile ::
  "os_view \<Rightarrow> userGroupCache \<Rightarrow> ProcessDetails \<Rightarrow> FileInfo option \<times> userGroupCache" where
  "makeAPIserverAuditPolicyFile os cache p =
     (case GetArg p auditPolicyFileArg of
        (auditPolicyFilePath, ok) \<Rightarrow>
          if \<not> ok then (None, cache)
          else makeContaineredFileInfoVerbose os cache p auditPolicyFilePath True)"

text \<open>The three third-party codecs of the encryption configuration.\<close>

record codecs =
  yaml_Unmarshal :: "bytes \<Rightarrow> ydata \<times> goerr option"
  json_Unmarshal :: "bytes \<Rightarrow> ydata \<Rightarrow> ydata \<times> goerr option"
  yaml_Marshal :: "ydata \<Rightarrow> bytes result"

text \<open>The three parts of the sensor: the API server, a process with two files, and etcd's data.\<close>

definition api_server_info ::
  "os_view \<Rightarrow> codecs \<Rightarrow> userGroupCache \<Rightarrow> ApiServerInfo option \<times> userGroupCache" where
  "api_server_info os cs cache =
     (case LocateProcessByExecSuffix os apiServerExe of
        Inl err \<Rightarrow> (None, cache)
      | Inr apiProc \<Rightarrow>
          (case makeProcessInfoVerbose os cache (Some apiProc) apiServerSpecsPath [] [] [] of (info, cache1) \<Rightarrow>
          (case makeAPIserverEncryptionProviderConfigFile os (yaml_Unmarshal cs) (json_Unmarshal cs)
                  (yaml_Marshal cs) cache1 apiProc of (enc, cache2) \<Rightarrow>
          (case makeAPIserverAuditPolicyFile os cache2 apiProc of (audit, cache3) \<Rightarrow>
            (Some \<lparr>EncryptionProviderConfigFile = enc, AuditPolicyFile = audit, ApiProcessInfo = info\<rparr>,
             cache3)))))"

definition component_info ::
  "os_view \<Rightarrow> userGroupCache \<Rightarrow> string \<Rightarrow> string \<Rightarrow> string \<Rightarrow> K8sProcessInfo option \<times> userGroupCache" where
  "component_info os cache exe specsPath configPath =
     (case LocateProcessByExecSuffix os exe of
        Inl err \<Rightarrow> (None, cache)
      | Inr p \<Rightarrow> makeProcessInfoVerbose os cache (Some p) specsPath configPath [] [])"

definition etcd_data_info :: "os_view \<Rightarrow> userGroupCache \<Rightarrow> FileInfo option \<times> userGroupCache" where
  "etcd_data_info os cache =
     (case getEtcdDataDir os of
        Inl err \<Rightarrow> (None, cache)
      | Inr etcdDataDir \<Rightarrow> makeHostFileInfoVerbose os cache etcdDataDir False)"

definition not_control_plane :: goerr where
  "not_control_plane = SenseError None ''not a control plane node'' ''SenseControlPlaneInfo'' 200"

definition SenseControlPlaneInfo ::
  "os_view \<Rightarrow> codecs \<Rightarrow> userGroupCache \<Rightarrow> ControlPlaneInfo result \<times> userGroupCache" where
  "SenseControlPlaneInfo os cs cache =
     (case api_server_info os cs cache of (api, cache1) \<Rightarrow>
     (case component_info os cache1 controllerManagerExe controllerManagerSpecsPath
             controllerManagerConfigPath of (controller, cache2) \<Rightarrow>
     (case component_info os cache2 schedulerExe schedulerSpecsPath schedulerConfigPath of
        (scheduler, cache3) \<Rightarrow>
     (case makeHostFileInfoVerbose os cache3 etcdConfigPath False of (etcd, cache4) \<Rightarrow>
     (case makeHostFileInfoVerbose os cache4 adminConfigPath False of (admin, cache5) \<Rightarrow>
     (case makeHostFileInfoVerbose os cache5 pkiDir False of (pki, cache6) \<Rightarrow>
     (case host_dir_files os cache6 pkiDir of ((files, err), cache7) \<Rightarrow>
     (case etcd_data_info os cache7 of (data, cache8) \<Rightarrow>
       (if api = None \<and> controller = None \<and> scheduler = None \<and> etcd = None \<and> data = None \<and> admin = None
        then Inl not_control_plane
        else Inr \<lparr>APIServerInfo = api, ControllerManagerInfo = controller, SchedulerInfo = scheduler,
                  EtcdConfigFile = etcd, EtcdDataDir = data, AdminConfigFile = admin, PKIDIr = pki,
                  PKIFiles = files\<rparr>,
        cache8)))))))))"


subsection \<open>The answer does not show the cache\<close>

lemma cache_blind_optional [blind_intros]: "cache_blind os (\<lambda>c. optional_host_info os c p)"
  unfolding optional_host_info_def by (intro blind_intros)

lemma cache_blind_process_info [blind_intros]:
  "cache_blind os (\<lambda>c. makeProcessInfoVerbose os c p a b d e)"
  unfolding makeProcessInfoVerbose_def Let_def by (intro blind_intros)

lemma cache_blind_audit [blind_intros]: "cache_blind os (\<lambda>c. makeAPIserverAuditPolicyFile os c p)"
  unfolding makeAPIserverAuditPolicyFile_def by (intro blind_intros)

lemma cache_blind_encryption [blind_intros]:
  "cache_blind os (\<lambda>c. makeAPIserverEncryptionProviderConfigFile os yu ju ym c p)"
  unfolding makeAPIserverEncryptionProviderConfigFile_def Let_def by (intro blind_intros)

lemma cache_blind_control_plane_parts [blind_intros]:
  "cache_blind os (\<lambda>c. api_server_info os cs c)"
  "cache_blind os (\<lambda>c. component_info os c exe a b)"
  "cache_blind os (\<lambda>c. etcd_data_info os c)"
  unfolding api_server_info_def component_info_def etcd_data_info_def by (intro blind_intros)+

lemma cache_blind_control_plane: "cache_blind os (SenseControlPlaneInfo os cs)"
  unfolding SenseControlPlaneInfo_def by (intro blind_intros)


subsection \<open>What a located process contributes\<close>

lemma RawCmd_nonempty: "CmdLine p \<noteq> [] \<Longrightarrow> hd (CmdLine p) \<noteq> [] \<Longrightarrow> RawCmd p \<noteq> []"
  by (cases "CmdLine p"; cases "tl (CmdLine p)") (auto simp: RawCmd_def)

lemma located_RawCmd:
  assumes "LocateProcessByExecSuffix os sfx = Inr p" shows "RawCmd p \<noteq> []"
proof -
  from assms obtain name where "probe_process os sfx name = Some p" by (rule LocateProcess_InrD)
  then show ?thesis by (rule probe_process_SomeD) (metis RawCmd_nonempty split_on_nonempty)
qed

lemma makeProcessInfo_located:
  assumes "RawCmd p \<noteq> []"
  shows "\<exists>info. fst (makeProcessInfoVerbose os c (Some p) a b d e) = Some info \<and> ProcCmdLine info = RawCmd p"
  using assms by (simp add: makeProcessInfoVerbose_def Let_def split: prod.split)

lemma component_info_None:
  "fst (component_info os c exe a b) = None \<longleftrightarrow> (\<forall>p. LocateProcessByExecSuffix os exe \<noteq> Inr p)"
proof (cases "LocateProcessByExecSuffix os exe")
  case (Inr p)
  from makeProcessInfo_located [OF located_RawCmd [OF this], of os c a b "[]" "[]"] Inr show ?thesis
    by (auto simp: component_info_def)
qed (simp add: component_info_def)

lemma api_server_info_Some:
  assumes "fst (api_server_info os cs c) = Some a"
  obtains p info where "LocateProcessByExecSuffix os apiServerExe = Inr p"
    "ApiProcessInfo a = Some info" "ProcCmdLine info = RawCmd p"
proof -
  from assms obtain p where p: "LocateProcessByExecSuffix os apiServerExe = Inr p"
    by (auto simp: api_server_info_def split: sum.splits)
  from makeProcessInfo_located [OF located_RawCmd [OF p], of os c apiServerSpecsPath "[]" "[]" "[]"]
  obtain info c1 where "makeProcessInfoVerbose os c (Some p) apiServerSpecsPath [] [] [] = (Some info, c1)"
    "ProcCmdLine info = RawCmd p" by (metis fst_conv surj_pair)
  with assms p show thesis by (auto simp: api_server_info_def split: prod.splits intro!: that)
qed

lemma api_server_info_None:
  "fst (api_server_info os cs c) = None \<longleftrightarrow> (\<forall>p. LocateProcessByExecSuffix os apiServerExe \<noteq> Inr p)"
  by (auto simp: api_server_info_def split: sum.splits prod.splits)

definition host_file :: "os_view \<Rightarrow> string \<Rightarrow> FileInfo option" where
  "host_file os p = to_option (file_info_of os HostFileSystemDefaultLocation p False)"

definition etcd_data :: "os_view \<Rightarrow> FileInfo option" where
  "etcd_data os = (case getEtcdDataDir os of Inl _ \<Rightarrow> None | Inr d \<Rightarrow> host_file os d)"

lemma host_file_step:
  assumes "cache_agrees os c"
  obtains c' where "makeHostFileInfoVerbose os c p False = (host_file os p, c')" "cache_agrees os c'"
  unfolding makeHostFileInfoVerbose_def host_file_def by (rule infos.makeE [OF assms]) blast

lemma etcd_data_step:
  assumes "cache_agrees os c"
  obtains c' where "etcd_data_info os c = (etcd_data os, c')"
proof (cases "getEtcdDataDir os")
  case (Inr d)
  from host_file_step [OF assms, of d] obtain c' where "makeHostFileInfoVerbose os c d False = (host_file os d, c')"
    by blast
  with Inr that show thesis by (simp add: etcd_data_info_def etcd_data_def)
qed (use that in \<open>simp add: etcd_data_info_def etcd_data_def\<close>)

text \<open>The sensor as its parts.\<close>

lemma SenseControlPlaneInfo_parts:
  assumes "cache_agrees os c"
  obtains api ctl sched c1 c2 where
    "api = fst (api_server_info os cs c)"
    "ctl = fst (component_info os c1 controllerManagerExe controllerManagerSpecsPath
       controllerManagerConfigPath)"
    "sched = fst (component_info os c2 schedulerExe schedulerSpecsPath schedulerConfigPath)"
    "fst (SenseControlPlaneInfo os cs c) =
      (if api = None \<and> ctl = None \<and> sched = None \<and> host_file os etcdConfigPath = None \<and>
          etcd_data os = None \<and> host_file os adminConfigPath = None
       then Inl not_control_plane
       else Inr \<lparr>APIServerInfo = api, ControllerManagerInfo = ctl, SchedulerInfo = sched,
              EtcdConfigFile = host_file os etcdConfigPath, EtcdDataDir = etcd_data os,
              AdminConfigFile = host_file os adminConfigPath, PKIDIr = host_file os pkiDir,
              PKIFiles = (case os_Open os (HostPath pkiDir) of Inl _ \<Rightarrow> []
                | Inr _ \<Rightarrow> dir_files maxRecursionDepth os pkiDir)\<rparr>)"
proof -
  obtain api c1 where 1: "api_server_info os cs c = (api, c1)" by fastforce
  with cache_blindD(2) [OF cache_blind_control_plane_parts(1) assms, of cs]
  have g1: "cache_agrees os c1" by simp
  obtain ctl c2 where 2: "component_info os c1 controllerManagerExe controllerManagerSpecsPath
       controllerManagerConfigPath = (ctl, c2)" by fastforce
  with cache_blindD(2) [OF cache_blind_control_plane_parts(2) g1, of controllerManagerExe
      controllerManagerSpecsPath controllerManagerConfigPath]
  have g2: "cache_agrees os c2" by simp
  obtain sched c3 where 3: "component_info os c2 schedulerExe schedulerSpecsPath schedulerConfigPath =
      (sched, c3)" by fastforce
  with cache_blindD(2) [OF cache_blind_control_plane_parts(2) g2, of schedulerExe schedulerSpecsPath
      schedulerConfigPath]
  have g3: "cache_agrees os c3" by simp
  from host_file_step [OF g3, of etcdConfigPath] obtain c4
    where 4: "makeHostFileInfoVerbose os c3 etcdConfigPath False = (host_file os etcdConfigPath, c4)"
      and g4: "cache_agrees os c4" by blast
  from host_file_step [OF g4, of adminConfigPath] obtain c5
    where 5: "makeHostFileInfoVerbose os c4 adminConfigPath False = (host_file os adminConfigPath, c5)"
      and g5: "cache_agrees os c5" by blast
  from host_file_step [OF g5, of pkiDir] obtain c6
    where 6: "makeHostFileInfoVerbose os c5 pkiDir False = (host_file os pkiDir, c6)"
      and g6: "cache_agrees os c6" by blast
  from host_dir_files_spec [OF g6, of pkiDir] obtain err c7 where
    7: "host_dir_files os c6 pkiDir = ((case os_Open os (HostPath pkiDir) of Inl _ \<Rightarrow> []
        | Inr _ \<Rightarrow> dir_files maxRecursionDepth os pkiDir, err), c7)" and g7: "cache_agrees os c7"
    by (metis prod.collapse)
  from etcd_data_step [OF g7] obtain c8 where 8: "etcd_data_info os c7 = (etcd_data os, c8)" .
  show thesis
    by (rule that [of api ctl c1 sched c2])
       (simp_all add: 1 2 3 4 5 6 7 8 SenseControlPlaneInfo_def)
qed


text \<open>The file informations in a report other than the two whose content is meant to be there.\<close>

definition proc_infos :: "K8sProcessInfo \<Rightarrow> FileInfo set" where
  "proc_infos pinfo =
     set_option (SpecsFile pinfo) \<union> set_option (ProcConfigFile pinfo) \<union>
     set_option (ProcKubeConfigFile pinfo) \<union> set_option (ProcClientCAFile pinfo)"

definition plain_infos :: "ControlPlaneInfo \<Rightarrow> FileInfo set" where
  "plain_infos info =
     set_option (EtcdConfigFile info) \<union> set_option (EtcdDataDir info) \<union>
     set_option (AdminConfigFile info) \<union> set_option (PKIDIr info) \<union> set (PKIFiles info) \<union>
     \<Union> (proc_infos ` set_option (ControllerManagerInfo info)) \<union>
     \<Union> (proc_infos ` set_option (SchedulerInfo info)) \<union>
     \<Union> (proc_infos ` set_option (Option.bind (APIServerInfo info) ApiProcessInfo))"

definition without_content :: "FileInfo set \<Rightarrow> bool" where
  "without_content F \<longleftrightarrow> (\<forall>fi \<in> F. Content fi = None)"

lemma without_content_simps [simp]:
  "without_content (A \<union> B) \<longleftrightarrow> without_content A \<and> without_content B"
  "without_content {}" "without_content (\<Union> (f ` S)) \<longleftrightarrow> (\<forall>x \<in> S. without_content (f x))"
  by (auto simp: without_content_def)

lemma without_content_host_info: "without_content (set_option (fst (makeHostFileInfoVerbose os c p False)))"
  by (auto simp: without_content_def makeHostFileInfoVerbose_def makeChangedRootFileInfoVerbose_def
      MakeChangedRootFileInfo_def dest: MakeFileInfo_InrD(2) split: sum.splits prod.splits)

lemma without_content_optional: "without_content (set_option (fst (optional_host_info os c p)))"
  using without_content_host_info [of os c p] by (simp add: optional_host_info_def)

lemma without_content_process_info:
  assumes "makeProcessInfoVerbose os c p a b d e = (Some info, c')"
  shows "without_content (proc_infos info)"
proof -
  obtain s c1 where 1: "optional_host_info os c a = (s, c1)" by fastforce
  obtain cf c2 where 2: "optional_host_info os c1 b = (cf, c2)" by fastforce
  obtain k c3 where 3: "optional_host_info os c2 d = (k, c3)" by fastforce
  obtain ca c4 where 4: "optional_host_info os c3 e = (ca, c4)" by fastforce
  have "without_content (set_option s)" "without_content (set_option cf)"
    "without_content (set_option k)" "without_content (set_option ca)"
    using without_content_optional [of os c a] without_content_optional [of os c1 b]
      without_content_optional [of os c2 d] without_content_optional [of os c3 e] 1 2 3 4 by simp_all
  with assms 1 2 3 4 show ?thesis
    by (auto simp: makeProcessInfoVerbose_def proc_infos_def Let_def split: if_splits)
qed

lemma without_content_component:
  "\<forall>pinfo \<in> set_option (fst (component_info os c exe a b)). without_content (proc_infos pinfo)"
proof (cases "LocateProcessByExecSuffix os exe")
  case (Inr p)
  then show ?thesis using without_content_process_info [of os c "Some p" a b "[]" "[]"]
    by (cases "makeProcessInfoVerbose os c (Some p) a b [] []") (auto simp: component_info_def)
qed (simp add: component_info_def)

lemma without_content_api:
  "\<forall>pinfo \<in> set_option (Option.bind (fst (api_server_info os cs c)) ApiProcessInfo).
     without_content (proc_infos pinfo)"
proof (cases "LocateProcessByExecSuffix os apiServerExe")
  case (Inr p)
  then show ?thesis using without_content_process_info [of os c "Some p" apiServerSpecsPath "[]" "[]" "[]"]
    by (cases "makeProcessInfoVerbose os c (Some p) apiServerSpecsPath [] [] []")
       (auto simp: api_server_info_def split: prod.splits)
qed (simp add: api_server_info_def)

lemma without_content_host_file: "without_content (set_option (host_file os p))"
  by (auto simp: without_content_def host_file_def to_option_def dest: file_info_of_InrD(2) split: sum.splits)

lemma without_content_dir_files: "without_content (set (dir_files d os dir))"
  by (auto simp: without_content_def dir_files_iff dest: file_info_of_InrD(2))

lemma without_content_etcd_data: "without_content (set_option (etcd_data os))"
  using without_content_host_file by (simp add: etcd_data_def split: sum.split)


subsection \<open>Properties\<close>

text \<open>
  C16: a node is reported as no control plane, with the error that becomes a reply of status 200,
  exactly when none of the three processes runs and neither etcd's manifest, the administrator's
  kubeconfig nor etcd's data directory can be described; the PKI directory does not count.
\<close>

theorem not_a_control_plane_iff:
  assumes "cache_agrees os c"
  shows "fst (SenseControlPlaneInfo os cs c) = Inl e \<longleftrightarrow>
    e = SenseError None ''not a control plane node'' ''SenseControlPlaneInfo'' 200 \<and>
    (\<forall>exe \<in> {apiServerExe, controllerManagerExe, schedulerExe}.
       \<forall>p. LocateProcessByExecSuffix os exe \<noteq> Inr p) \<and>
    host_file os etcdConfigPath = None \<and> host_file os adminConfigPath = None \<and> etcd_data os = None"
  by (rule SenseControlPlaneInfo_parts [OF assms, of cs])
     (auto simp: not_control_plane_def api_server_info_None component_info_None)

definition sample_worker :: os_view where
  "sample_worker = host_of
     [(''/proc'', dir_node [''42'']),
      (''/proc/42/cmdline'', file_node 0x124 (0, 0) ''/usr/bin/kubelet''),
      (''/host_fs/etc/kubernetes/pki'', dir_node [''ca.crt'']),
      (''/host_fs/etc/kubernetes/pki/ca.crt'', file_node 0x1A4 (0, 0) ''pem'')]"

definition no_codecs :: codecs where
  "no_codecs = \<lparr>yaml_Unmarshal = (\<lambda>b. ([], Some EOF)), json_Unmarshal = (\<lambda>b d. (d, Some EOF)),
     yaml_Marshal = (\<lambda>d. Inl EOF)\<rparr>"

lemma not_a_control_plane_iff_witness:
  "fst (SenseControlPlaneInfo sample_worker no_codecs Map.empty) =
     Inl (SenseError None ''not a control plane node'' ''SenseControlPlaneInfo'' 200)"
proof (subst not_a_control_plane_iff [OF cache_agrees_empty], intro conjI)
  have "\<forall>exe \<in> set [apiServerExe, controllerManagerExe, schedulerExe].
      case LocateProcessByExecSuffix sample_worker exe of Inl _ \<Rightarrow> True | Inr _ \<Rightarrow> False" by code_simp
  then show "\<forall>exe \<in> {apiServerExe, controllerManagerExe, schedulerExe}.
      \<forall>p. LocateProcessByExecSuffix sample_worker exe \<noteq> Inr p" by (auto split: sum.splits)
qed code_simp+

text \<open>
  When the API server's information is there its embedded process information is there too
  and holds the command line, so the fields promoted from the embedded pointer never go through
  nil.
\<close>

theorem api_server_process_info_present:
  assumes "cache_agrees os c" and "fst (SenseControlPlaneInfo os cs c) = Inr info"
    and "APIServerInfo info = Some a"
  shows "\<exists>p pi. LocateProcessByExecSuffix os ''/kube-apiserver'' = Inr p \<and>
    ApiProcessInfo a = Some pi \<and> ProcCmdLine pi = RawCmd p \<and> RawCmd p \<noteq> []"
proof -
  from assms(2,3) have "fst (api_server_info os cs c) = Some a"
    by (rule_tac SenseControlPlaneInfo_parts [OF assms(1), of cs]) (auto split: if_splits)
  then obtain p pi where "LocateProcessByExecSuffix os ''/kube-apiserver'' = Inr p"
    "ApiProcessInfo a = Some pi" "ProcCmdLine pi = RawCmd p"
    by (auto simp: apiServerExe_def elim: api_server_info_Some)
  with located_RawCmd show ?thesis by blast
qed

definition sample_master :: os_view where
  "sample_master = host_of
     [(''/proc'', dir_node [''5'']),
      (''/proc/5/cmdline'', file_node 0x124 (0, 0) (''kube-apiserver'' @ [NUL] @ ''--v=2''))]"

lemma api_server_process_info_present_witness:
  "\<exists>info a pi. fst (SenseControlPlaneInfo sample_master no_codecs Map.empty) = Inr info \<and>
     APIServerInfo info = Some a \<and> ApiProcessInfo a = Some pi \<and> ProcCmdLine pi = ''kube-apiserver --v=2''"
proof -
  have "case fst (SenseControlPlaneInfo sample_master no_codecs Map.empty) of
      Inl _ \<Rightarrow> False | Inr info \<Rightarrow> APIServerInfo info \<noteq> None" by code_simp
  then obtain info a where i: "fst (SenseControlPlaneInfo sample_master no_codecs Map.empty) = Inr info"
    "APIServerInfo info = Some a" by (auto split: sum.splits)
  from api_server_process_info_present [OF cache_agrees_empty this] obtain p pi where
    p: "LocateProcessByExecSuffix sample_master ''/kube-apiserver'' = Inr p"
    and pi: "ApiProcessInfo a = Some pi" "ProcCmdLine pi = RawCmd p" by blast
  have "map_sum id RawCmd (LocateProcessByExecSuffix sample_master ''/kube-apiserver'') =
      Inr ''kube-apiserver --v=2''" by code_simp
  with p have "RawCmd p = ''kube-apiserver --v=2''" by simp
  with i pi show ?thesis by auto
qed

text \<open>
  C17: apart from the encryption configuration and the audit policy, no content of a file is
  part of the report: of keys, certificates, manifests and kubeconfigs only the metadata is.
\<close>

theorem control_plane_report_without_contents:
  assumes "cache_agrees os c" and "fst (SenseControlPlaneInfo os cs c) = Inr info"
    and "fi \<in> plain_infos info"
  shows "Content fi = None"
proof (rule SenseControlPlaneInfo_parts [OF assms(1), of cs])
  fix api ctl sched c1 c2
  assume api: "api = fst (api_server_info os cs c)"
    and ctl: "ctl = fst (component_info os c1 controllerManagerExe controllerManagerSpecsPath
       controllerManagerConfigPath)"
    and sched: "sched = fst (component_info os c2 schedulerExe schedulerSpecsPath schedulerConfigPath)"
    and run: "fst (SenseControlPlaneInfo os cs c) =
      (if api = None \<and> ctl = None \<and> sched = None \<and> host_file os etcdConfigPath = None \<and>
          etcd_data os = None \<and> host_file os adminConfigPath = None
       then Inl not_control_plane
       else Inr \<lparr>APIServerInfo = api, ControllerManagerInfo = ctl, SchedulerInfo = sched,
              EtcdConfigFile = host_file os etcdConfigPath, EtcdDataDir = etcd_data os,
              AdminConfigFile = host_file os adminConfigPath, PKIDIr = host_file os pkiDir,
              PKIFiles = (case os_Open os (HostPath pkiDir) of Inl _ \<Rightarrow> []
                | Inr _ \<Rightarrow> dir_files maxRecursionDepth os pkiDir)\<rparr>)"
  have files: "without_content (set (PKIFiles info))" "EtcdConfigFile info = host_file os etcdConfigPath"
    "EtcdDataDir info = etcd_data os" "AdminConfigFile info = host_file os adminConfigPath"
    "PKIDIr info = host_file os pkiDir"
    using assms(2) run without_content_dir_files [of maxRecursionDepth os pkiDir]
    by (auto split: if_splits sum.splits)
  have procs: "APIServerInfo info = api" "ControllerManagerInfo info = ctl" "SchedulerInfo info = sched"
    using assms(2) run by (auto split: if_splits)
  have "without_content (plain_infos info)"
    unfolding plain_infos_def files procs api ctl sched without_content_simps
    using files(1) without_content_host_file without_content_etcd_data without_content_component
      without_content_api by blast
  with assms(3) show ?thesis by (simp add: without_content_def)
qed

definition sample_etcd :: os_view where
  "sample_etcd = host_of
     [(''/proc'', dir_node []),
      (''/host_fs/etc/kubernetes/admin.conf'', file_node 0x180 (0, 0) ''client-key-data: x'')]"

lemma control_plane_report_without_contents_witness:
  "\<exists>info fi. fst (SenseControlPlaneInfo sample_etcd no_codecs Map.empty) = Inr info \<and>
     AdminConfigFile info = Some fi \<and> Content fi = None"
proof -
  have "case fst (SenseControlPlaneInfo sample_etcd no_codecs Map.empty) of
      Inl _ \<Rightarrow> False | Inr info \<Rightarrow> AdminConfigFile info \<noteq> None" by code_simp
  then obtain info fi where i: "fst (SenseControlPlaneInfo sample_etcd no_codecs Map.empty) = Inr info"
    "AdminConfigFile info = Some fi" by (auto split: sum.splits)
  then have "fi \<in> plain_infos info" by (simp add: plain_infos_def)
  from control_plane_report_without_contents [OF cache_agrees_empty i(1) this] i show ?thesis by blast
qed

end
