(* ===== verification/Node_Sensors.thy ===== *)
theory Node_Sensors
  imports File_Info Proc
begin

text \<open>
  The sensors of the node itself: release, kernel version and hardening status
  (\<open>sensor/osrelease.go\<close>), the variables under \<open>/proc/sys/kernel\<close> (\<open>sensor/kernelvariables.go\<close>),
  open ports (\<open>sensor/network.go\<close>) and the cloud provider probe (\<open>sensor/cloudProvider.go\<close>).
\<close>

subsection \<open>Release and kernel version\<close>

definition etcDirName :: string where "etcDirName = ''/etc''"
definition osReleaseFileSuffix :: string where "osReleaseFileSuffix = ''os-release''"
definition appArmorProfilesFileName :: string where
  "appArmorProfilesFileName = ''/sys/kernel/security/apparmor/profiles''"
definition seLinuxConfigFileName :: string where
  "seLinuxConfigFileName = ''/etc/selinux/semanage.conf''"

definition os_release_name :: "string \<Rightarrow> string option" where
  "os_release_name name = (if strings_HasSuffix name osReleaseFileSuffix then Some name else None)"

definition getOsReleaseFile :: "os_view \<Rightarrow> string result" where
  "getOsReleaseFile os =
     (case os_Open os (HostPath etcDirName) of
        Inl err \<Rightarrow> Inl (ErrText (''failed to open etc dir: '' @ err_text err))
      | Inr etcDir \<Rightarrow>
          (case readdir_loop (search_body os_release_name) () (dir_stream (HostPath etcDirName) etcDir) of
             Inl name \<Rightarrow> Inr name
           | Inr (_, err) \<Rightarrow> Inl err))"

definition SenseOsRelease :: "os_view \<Rightarrow> bytes result" where
  "SenseOsRelease os =
     (case getOsReleaseFile os of
        Inr osFileName \<Rightarrow> ReadFileOnHostFileSystem os (path_Join [etcDirName, osFileName])
      | Inl err \<Rightarrow> Inl (ErrText (''failed to find os-release file: '' @ err_text err)))"

definition SenseKernelVersion :: "os_view \<Rightarrow> bytes result" where
  "SenseKernelVersion os = ReadFileOnHostFileSystem os (path_Join [procDirName, ''version''])"

lemma getOsReleaseFile_search:
  "getOsReleaseFile os =
     (case os_Open os (HostPath etcDirName) of
        Inl err \<Rightarrow> Inl (ErrText (''failed to open etc dir: '' @ err_text err))
      | Inr d \<Rightarrow>
          (case first_some os_release_name (listed id (h_names d) (h_list_end d)) of
             Some name \<Rightarrow> Inr name
           | None \<Rightarrow> Inl (list_end_err (HostPath etcDirName) (h_list_end d))))"
  by (simp add: getOsReleaseFile_def dir_stream_def readdir_loop_search split: sum.split option.split)


subsection \<open>Hardening status\<close>

record LinuxSecurityHardeningStatus =
  AppArmor :: string
  SeLinux :: string

definition getAppArmorStatus :: "os_view \<Rightarrow> string" where
  "getAppArmorStatus os =
     (case os_Open os (HostPath appArmorProfilesFileName) of
        Inl err \<Rightarrow> ''unloaded''
      | Inr profFile \<Rightarrow>
          (case ReadFileOnHostFileSystem os appArmorProfilesFileName of
             Inr content \<Rightarrow> if length content > 0 then content else ''stopped''
           | Inl err \<Rightarrow> ''stopped''))"

definition getSELinuxStatus :: "os_view \<Rightarrow> string" where
  "getSELinuxStatus os =
     (case os_Open os (HostPath seLinuxConfigFileName) of
        Inl err \<Rightarrow> ''not found''
      | Inr conFile \<Rightarrow>
          (case ReadFileOnHostFileSystem os appArmorProfilesFileName of
             Inr content \<Rightarrow> if length content > 0 then content else ''not found''
           | Inl err \<Rightarrow> ''not found''))"

definition SenseLinuxSecurityHardening :: "os_view \<Rightarrow> LinuxSecurityHardeningStatus result" where
  "SenseLinuxSecurityHardening os =
     Inr \<lparr>AppArmor = getAppArmorStatus os, SeLinux = getSELinuxStatus os\<rparr>"


subsection \<open>Kernel variables\<close>

record KernelVariable =
  Key_of :: string
  Value_of :: string
  Source_of :: string

definition procSysKernelDir :: string where "procSysKernelDir = ''/proc/sys/kernel''"

text \<open>
  How the walk can end without a list: an error, a panic (the method of a nil \<open>os.FileInfo\<close> is
  called when \<open>Stat\<close> fails), or the model's fuel.
\<close>

datatype walk_exit = WalkErr goerr | WalkPanic | WalkFuel

text \<open>\<open>%v\<close> of the list of variables, and of a nil error.\<close>

definition fmt_vars :: "KernelVariable list \<Rightarrow> string" where
  "fmt_vars vs =
     ''['' @ strings_Join (map (\<lambda>v. ''{'' @ Key_of v @ '' '' @ Value_of v @ '' '' @ Source_of v @ ''}'') vs) '' '' @
     '']''"

definition fmt_nil :: string where "fmt_nil = ''<nil>''"

text \<open>
  The loop body for one name.  The tests after \<open>Stat\<close> and after the copy look at the error of
  the directory listing, which is nil inside the loop: a failed \<open>Stat\<close> goes on to the nil file
  info, and a failed copy keeps what was read so far.
\<close>

definition visit_var ::
  "(string \<Rightarrow> handle \<Rightarrow> walk_exit + KernelVariable list) \<Rightarrow> os_view \<Rightarrow> string \<Rightarrow>
     KernelVariable list \<Rightarrow> string \<Rightarrow> walk_exit + KernelVariable list" where
  "visit_var call os dirPath varsList name =
     (let varFileName = path_Join [dirPath, name] in
      case os_Open os varFileName of
        Inl errOpen \<Rightarrow>
          if strings_Contains (err_text errOpen) ''permission denied'' then Inr varsList
          else Inl (WalkErr (ErrText (''failed to open file ('' @ varFileName @ ''): '' @ fmt_nil)))
      | Inr varFile \<Rightarrow>
          (case h_stat varFile of
             Inl errStat \<Rightarrow> Inl WalkPanic
           | Inr fileInfo \<Rightarrow>
               if mode_IsDir (Mode fileInfo) then
                 (case call varFileName varFile of
                    Inl (WalkErr errW) \<Rightarrow>
                      Inl (WalkErr (ErrText (''failed to walkVarsDir file ('' @ varFileName @ ''): '' @
                        err_text errW)))
                  | Inl e \<Rightarrow> Inl e
                  | Inr innerVars \<Rightarrow> Inr (varsList @ innerVars))
               else if mode_IsRegular (Mode fileInfo) then
                 Inr (varsList @ [\<lparr>Key_of = name, Value_of = h_data varFile, Source_of = varFileName\<rparr>])
               else Inr varsList))"

primrec walkVarsDir ::
  "nat \<Rightarrow> os_view \<Rightarrow> string \<Rightarrow> handle \<Rightarrow> walk_exit + KernelVariable list" where
  "walkVarsDir 0 = (\<lambda>os dirPath procDir. Inl WalkFuel)"
| "walkVarsDir (Suc fuel) = (\<lambda>os dirPath procDir.
     (case readdir_loop
             (\<lambda>s varsNames. loop_list (visit_var (walkVarsDir fuel os) os dirPath) s varsNames)
             [] (dir_stream dirPath procDir) of
        Inl e \<Rightarrow> Inl e
      | Inr (varsList, err) \<Rightarrow>
          if err \<noteq> EOF then
            Inl (WalkErr (WrapErr (''failed to Readdirnames of procSysKernelDir dir('' @ dirPath @ ''): '' @
              err_text err @ ''; found so far: '' @ fmt_vars varsList) err))
          else Inr varsList))"

definition SenseProcSysKernel :: "nat \<Rightarrow> os_view \<Rightarrow> walk_exit + KernelVariable list" where
  "SenseProcSysKernel fuel os =
     (case os_Open os procSysKernelDir of
        Inl err \<Rightarrow> Inl (WalkErr (ErrText (''failed to procSysKernelDir dir('' @ procSysKernelDir @ ''): '' @
          err_text err)))
      | Inr procDir \<Rightarrow> walkVarsDir fuel os procSysKernelDir procDir)"

definition SenseKernelConfs :: "KernelVariable list result" where
  "SenseKernelConfs = Inr []"

definition SenseKernelVariables :: "nat \<Rightarrow> os_view \<Rightarrow> walk_exit + KernelVariable list" where
  "SenseKernelVariables fuel os =
     (case SenseProcSysKernel fuel os of
        Inl e \<Rightarrow> Inl e
      | Inr vars \<Rightarrow> (case SenseKernelConfs of Inl e \<Rightarrow> Inr vars | Inr confVars \<Rightarrow> Inr (vars @ confVars)))"


subsection \<open>Open ports\<close>

text \<open>
  Parsing a file of \<open>/proc/net\<close> into its connections in the listening state is third-party
  code and the parameter \<open>parse\<close>.  A nil slice and an empty one differ in the report: \<open>None\<close>
  is the nil slice.
\<close>

definition ProcNetTCPPaths :: "string list" where
  "ProcNetTCPPaths = [''/proc/net/tcp'', ''/proc/net/tcp6'']"
definition ProcNetUDPPaths :: "string list" where
  "ProcNetUDPPaths = [''/proc/net/udp'', ''/proc/net/udp6'', ''/proc/net/udplite'', ''/proc/net/udplite6'']"
definition ProcNetICMPPaths :: "string list" where
  "ProcNetICMPPaths = [''/proc/net/icmp'', ''/proc/net/icmp6'']"

record 'c OpenPortsStatus =
  TcpPorts :: "'c list option"
  UdpPorts :: "'c list option"
  ICMPPorts :: "'c list option"

fun getOpenedPorts_from ::
  "os_view \<Rightarrow> (bytes \<Rightarrow> 'c list) \<Rightarrow> 'c list \<Rightarrow> string list \<Rightarrow> 'c list \<times> goerr option" where
  "getOpenedPorts_from os parse res [] = (res, None)"
| "getOpenedPorts_from os parse res (p # pathsList) =
     (case os_ReadFile os p of
        Inl err \<Rightarrow> (res, Some (ErrText (''failed to ReadFile('' @ p @ ''): '' @ err_text err)))
      | Inr bytesBuf \<Rightarrow> getOpenedPorts_from os parse (res @ parse bytesBuf) pathsList)"

definition getOpenedPorts ::
  "os_view \<Rightarrow> (bytes \<Rightarrow> 'c list) \<Rightarrow> string list \<Rightarrow> 'c list \<times> goerr option" where
  "getOpenedPorts os parse pathsList = getOpenedPorts_from os parse [] pathsList"

definition SenseOpenPorts :: "os_view \<Rightarrow> (bytes \<Rightarrow> 'c list) \<Rightarrow> 'c OpenPortsStatus result" where
  "SenseOpenPorts os parse =
     (let ports = (\<lambda>paths old. case getOpenedPorts os parse paths of
             (res, Some err) \<Rightarrow> old
           | (res, None) \<Rightarrow> Some res)
      in Inr \<lparr>TcpPorts = ports ProcNetTCPPaths (Some []),
              UdpPorts = ports ProcNetUDPPaths None,
              ICMPPorts = ports ProcNetICMPPaths None\<rparr>)"


subsection \<open>Cloud provider\<close>

text \<open>
  The HTTP request is third-party code: \<open>http_get url headers\<close> is the status code of the
  response or an error.
\<close>

record APIsURLs =
  url :: string
  headers :: "(string \<times> string) list"

definition CloudProviderMetaDataAPIs :: "APIsURLs list" where
  "CloudProviderMetaDataAPIs =
     [\<lparr>url = ''http://169.254.169.254/computeMetadata/v1/?alt=json&recursive=true'',
       headers = [(''Metadata-Flavor'', ''Google'')]\<rparr>,
      \<lparr>url = ''http://169.254.169.254/metadata/instance?api-version=2021-02-01'',
       headers = [(''Metadata'', ''true'')]\<rparr>,
      \<lparr>url = ''http://169.254.169.254/latest/meta-data/local-hostname'', headers = []\<rparr>]"

record CloudProviderInfo =
  ProviderMetaDataAPIAccess :: bool

fun any_api_answers ::
  "(string \<Rightarrow> (string \<times> string) list \<Rightarrow> int result) \<Rightarrow> APIsURLs list \<Rightarrow> bool" where
  "any_api_answers http_get [] = False"
| "any_api_answers http_get (req # reqs) =
     (case http_get (url req) (headers req) of
        Inr status \<Rightarrow> if status = 200 then True else any_api_answers http_get reqs
      | Inl err \<Rightarrow> any_api_answers http_get reqs)"

definition hasMetaDataAPIAccess ::
  "(string \<Rightarrow> (string \<times> string) list \<Rightarrow> int result) \<Rightarrow> bool" where
  "hasMetaDataAPIAccess http_get = any_api_answers http_get CloudProviderMetaDataAPIs"

definition SenseCloudProviderInfo ::
  "(string \<Rightarrow> (string \<times> string) list \<Rightarrow> int result) \<Rightarrow> CloudProviderInfo result" where
  "SenseCloudProviderInfo http_get =
     Inr \<lparr>ProviderMetaDataAPIAccess = hasMetaDataAPIAccess http_get\<rparr>"


subsection \<open>What the kernel walk lists\<close>

text \<open>The nesting of directories below an open directory is less than the bound.\<close>

primrec nested_below :: "nat \<Rightarrow> os_view \<Rightarrow> string \<Rightarrow> handle \<Rightarrow> bool" where
  "nested_below 0 = (\<lambda>os dir h. False)"
| "nested_below (Suc n) = (\<lambda>os dir h. \<forall>name \<in> set (h_names h).
     case os_Open os (path_Join [dir, name]) of
       Inl _ \<Rightarrow> True
     | Inr f \<Rightarrow> (case h_stat f of
           Inl _ \<Rightarrow> True
         | Inr st \<Rightarrow> mode_IsDir (Mode st) \<longrightarrow> nested_below n os (path_Join [dir, name]) f))"

text \<open>
  A tree that the walk gets through: listings end properly, every file can be opened or is
  refused with \<open>permission denied\<close>, and every opened file has a status.  Reading may fail.
\<close>

primrec walkable :: "nat \<Rightarrow> os_view \<Rightarrow> string \<Rightarrow> handle \<Rightarrow> bool" where
  "walkable 0 = (\<lambda>os dir h. False)"
| "walkable (Suc n) = (\<lambda>os dir h. h_list_end h = None \<and> (\<forall>name \<in> set (h_names h).
     case os_Open os (path_Join [dir, name]) of
       Inl e \<Rightarrow> strings_Contains (err_text e) ''permission denied''
     | Inr f \<Rightarrow> (case h_stat f of
           Inl _ \<Rightarrow> False
         | Inr st \<Rightarrow> mode_IsDir (Mode st) \<longrightarrow> walkable n os (path_Join [dir, name]) f)))"

primrec vars_below :: "nat \<Rightarrow> os_view \<Rightarrow> string \<Rightarrow> handle \<Rightarrow> KernelVariable list" where
  "vars_below 0 = (\<lambda>os dir h. [])"
| "vars_below (Suc n) = (\<lambda>os dir h. concat (map (\<lambda>name.
     case os_Open os (path_Join [dir, name]) of
       Inl _ \<Rightarrow> []
     | Inr f \<Rightarrow> (case h_stat f of
           Inl _ \<Rightarrow> []
         | Inr st \<Rightarrow>
             if mode_IsDir (Mode st) then vars_below n os (path_Join [dir, name]) f
             else if mode_IsRegular (Mode st)
             then [\<lparr>Key_of = name, Value_of = h_data f, Source_of = path_Join [dir, name]\<rparr>]
             else [])) (h_names h)))"

lemma walkVarsDir_loop:
  "walkVarsDir (Suc fuel) os dir h =
     (case loop_list (visit_var (walkVarsDir fuel os) os dir) [] (listed id (h_names h) (h_list_end h)) of
        Inl e \<Rightarrow> Inl e
      | Inr vs \<Rightarrow>
          (case h_list_end h of
             None \<Rightarrow> Inr vs
           | Some e \<Rightarrow> Inl (WalkErr (WrapErr (''failed to Readdirnames of procSysKernelDir dir('' @ dir @
               ''): '' @ err_text (PathError ''readdirent'' dir e) @ ''; found so far: '' @ fmt_vars vs)
               (PathError ''readdirent'' dir e)))))"
proof -
  let ?V = "visit_var (walkVarsDir fuel os) os dir"
  have loop: "readdir_loop (loop_list ?V) [] (dir_stream dir h) =
      (case loop_list ?V [] (listed id (h_names h) (h_list_end h)) of
         Inl r \<Rightarrow> Inl r | Inr s' \<Rightarrow> Inr (s', list_end_err dir (h_list_end h)))"
    using readdir_loop_listed [of ?V id "[]" dir "h_names h" "h_list_end h"] by (simp add: dir_stream_def)
  show ?thesis
  proof (cases "loop_list ?V [] (listed id (h_names h) (h_list_end h))")
    case (Inl e)
    then show ?thesis by (simp add: loop)
  next
    case (Inr vs)
    then show ?thesis by (cases "h_list_end h") (simp_all add: loop list_end_err_def)
  qed
qed

lemma visit_var_walkable:
  assumes "case os_Open os (path_Join [dir, name]) of
       Inl e \<Rightarrow> strings_Contains (err_text e) ''permission denied''
     | Inr f \<Rightarrow> (case h_stat f of
           Inl _ \<Rightarrow> False
         | Inr st \<Rightarrow> mode_IsDir (Mode st) \<longrightarrow> call (path_Join [dir, name]) f =
             Inr (vars_below n os (path_Join [dir, name]) f))"
  shows "visit_var call os dir vs name = Inr (vs @ (case os_Open os (path_Join [dir, name]) of
       Inl _ \<Rightarrow> []
     | Inr f \<Rightarrow> (case h_stat f of
           Inl _ \<Rightarrow> []
         | Inr st \<Rightarrow>
             if mode_IsDir (Mode st) then vars_below n os (path_Join [dir, name]) f
             else if mode_IsRegular (Mode st)
             then [\<lparr>Key_of = name, Value_of = h_data f, Source_of = path_Join [dir, name]\<rparr>]
             else [])))"
  using assms by (auto simp: visit_var_def Let_def split: sum.splits)

lemma loop_list_concat_map:
  assumes "\<And>x vs. x \<in> set xs \<Longrightarrow> body vs x = Inr (vs @ f x)"
  shows "loop_list body vs xs = Inr (vs @ concat (map f xs))"
  using assms by (induction xs arbitrary: vs) simp_all

lemma walkVarsDir_walkable:
  "walkable n os dir h \<Longrightarrow> n \<le> fuel \<Longrightarrow> walkVarsDir fuel os dir h = Inr (vars_below n os dir h)"
proof (induction n arbitrary: fuel dir h)
  case (Suc n)
  then obtain fuel' where fuel: "fuel = Suc fuel'" "n \<le> fuel'" by (cases fuel) auto
  have step: "visit_var (walkVarsDir fuel' os) os dir vs name = Inr (vs @ (case os_Open os (path_Join [dir, name]) of
       Inl _ \<Rightarrow> []
     | Inr f \<Rightarrow> (case h_stat f of
           Inl _ \<Rightarrow> []
         | Inr st \<Rightarrow>
             if mode_IsDir (Mode st) then vars_below n os (path_Join [dir, name]) f
             else if mode_IsRegular (Mode st)
             then [\<lparr>Key_of = name, Value_of = h_data f, Source_of = path_Join [dir, name]\<rparr>]
             else [])))" if "name \<in> set (h_names h)" for vs name
    using Suc.prems(1) that Suc.IH [OF _ fuel(2)]
    by (intro visit_var_walkable) (auto split: sum.splits)
  have "h_list_end h = None" using Suc.prems(1) by simp
  then show ?case unfolding fuel(1) walkVarsDir_loop
    by (simp add: loop_list_concat_map [OF step])
qed simp

text \<open>Enough fuel always ends the walk, whatever it meets.\<close>

lemma loop_list_avoids:
  assumes "\<And>s x. x \<in> set xs \<Longrightarrow> body s x \<noteq> Inl r"
  shows "loop_list body s xs \<noteq> Inl r"
  using assms by (induction xs arbitrary: s) (auto split: sum.splits)

lemma walkVarsDir_enough_fuel:
  "nested_below n os dir h \<Longrightarrow> n \<le> fuel \<Longrightarrow> walkVarsDir fuel os dir h \<noteq> Inl WalkFuel"
proof (induction n arbitrary: fuel dir h)
  case (Suc n)
  then obtain fuel' where fuel: "fuel = Suc fuel'" "n \<le> fuel'" by (cases fuel) auto
  have "loop_list (visit_var (walkVarsDir fuel' os) os dir) [] (listed id (h_names h) (h_list_end h))
      \<noteq> Inl WalkFuel"
  proof (rule loop_list_avoids)
    fix vs name assume "name \<in> set (listed id (h_names h) (h_list_end h))"
    then have "name \<in> set (h_names h)" using set_listed_subset [of id] by fastforce
    then show "visit_var (walkVarsDir fuel' os) os dir vs name \<noteq> Inl WalkFuel"
      using Suc.prems(1) Suc.IH [OF _ fuel(2)]
      by (auto simp: visit_var_def Let_def split: sum.splits walk_exit.splits)
  qed
  then show ?case unfolding fuel(1) walkVarsDir_loop by (auto split: sum.split option.split)
qed simp

text \<open>The files of a list, when all of them can be read.\<close>

definition all_contents :: "os_view \<Rightarrow> string list \<Rightarrow> bytes list option" where
  "all_contents os paths =
     (if \<forall>p \<in> set paths. \<exists>b. os_ReadFile os p = Inr b
      then Some (map (\<lambda>p. case os_ReadFile os p of Inr b \<Rightarrow> b | Inl _ \<Rightarrow> []) paths) else None)"

lemma getOpenedPorts_contents:
  "(case getOpenedPorts os parse paths of (res, Some err) \<Rightarrow> old | (res, None) \<Rightarrow> Some res) =
   (case all_contents os paths of None \<Rightarrow> old | Some bs \<Rightarrow> Some (concat (map parse bs)))"
proof -
  have "(case getOpenedPorts_from os parse acc paths of (res, Some err) \<Rightarrow> old | (res, None) \<Rightarrow> Some res) =
      (case all_contents os paths of None \<Rightarrow> old | Some bs \<Rightarrow> Some (acc @ concat (map parse bs)))" for acc
    by (induction paths arbitrary: acc) (auto simp: all_contents_def split: sum.splits if_splits)
  from this [of "[]"] show ?thesis unfolding getOpenedPorts_def append_Nil .
qed


subsection \<open>Properties\<close>

text \<open>
  C24: on every node with a directory tree under \<open>/proc/sys/kernel\<close> of bounded depth that can be
  walked, the reported variables are exactly the regular files of the tree in directory order,
  each with the bytes that could be read of it: a failed read is not noticed and gives the
  variable with the part read before (for a refused read, the empty value).
\<close>

theorem kernel_variables_are_the_regular_files:
  assumes "os_Open os procSysKernelDir = Inr h" and "walkable n os procSysKernelDir h" and "n \<le> fuel"
  shows "SenseKernelVariables fuel os = Inr (vars_below n os procSysKernelDir h)"
  using assms walkVarsDir_walkable [OF assms(2,3)]
  by (simp add: SenseKernelVariables_def SenseProcSysKernel_def SenseKernelConfs_def)

definition sample_kernel :: os_view where
  "sample_kernel = host_of
     [(''/proc/sys/kernel'', dir_node [''a'', ''d'']),
      (''/proc/sys/kernel/a'', file_node 0x1A4 (0, 0) ''1''),
      (''/proc/sys/kernel/d'', dir_node [''secret'']),
      (''/proc/sys/kernel/d/secret'',
        (\<lparr>Mode = 0x180, Sys = None\<rparr>,
         \<lparr>h_data = [], h_read_end = Some EPERM, h_names = [], h_list_end = None,
          h_stat = Inr \<lparr>Mode = 0x180, Sys = None\<rparr>\<rparr>))]"

lemma kernel_variables_are_the_regular_files_witness:
  "SenseKernelVariables 5 sample_kernel = Inr
     [\<lparr>Key_of = ''a'', Value_of = ''1'', Source_of = ''/proc/sys/kernel/a''\<rparr>,
      \<lparr>Key_of = ''secret'', Value_of = '''', Source_of = ''/proc/sys/kernel/d/secret''\<rparr>]"
proof -
  let ?h = "snd (dir_node [''a'', ''d''])"
  have "os_Open sample_kernel procSysKernelDir = Inr ?h" by code_simp
  moreover have "walkable 2 sample_kernel procSysKernelDir ?h" by code_simp
  ultimately have "SenseKernelVariables 5 sample_kernel = Inr (vars_below 2 sample_kernel procSysKernelDir ?h)"
    by (rule kernel_variables_are_the_regular_files) simp
  also have "vars_below 2 sample_kernel procSysKernelDir ?h =
     [\<lparr>Key_of = ''a'', Value_of = ''1'', Source_of = ''/proc/sys/kernel/a''\<rparr>,
      \<lparr>Key_of = ''secret'', Value_of = '''', Source_of = ''/proc/sys/kernel/d/secret''\<rparr>]" by code_simp
  finally show ?thesis .
qed

text \<open>
  C25: the recursion, which has no limit in the code, ends on every tree of bounded depth,
  whatever errors occur in it.
\<close>

theorem kernel_walk_terminates:
  assumes "os_Open os procSysKernelDir = Inr h" and "nested_below n os procSysKernelDir h" and "n \<le> fuel"
  shows "SenseKernelVariables fuel os \<noteq> Inl WalkFuel"
  using assms walkVarsDir_enough_fuel [OF assms(2,3)]
  by (auto simp: SenseKernelVariables_def SenseProcSysKernel_def SenseKernelConfs_def split: sum.split)

lemma kernel_walk_terminates_witness:
  "SenseKernelVariables 2 sample_kernel \<noteq> Inl WalkFuel"
proof -
  have "os_Open sample_kernel procSysKernelDir = Inr (snd (dir_node [''a'', ''d'']))"
    "nested_below 2 sample_kernel procSysKernelDir (snd (dir_node [''a'', ''d'']))" by code_simp+
  then show ?thesis by (rule kernel_walk_terminates) simp
qed

text \<open>
  A file whose status cannot be had after it was opened makes the walk panic: the check
  after \<open>Stat\<close> tests another error variable, and the nil file info is used.
\<close>

theorem stat_failure_panics:
  assumes "h_names h = pre @ name # post" and "h_list_end h = None"
    and "\<forall>n \<in> set pre. \<exists>vs. \<forall>acc. visit_var (walkVarsDir fuel os) os dir acc n = Inr (acc @ vs)"
    and "os_Open os (path_Join [dir, name]) = Inr f" and "h_stat f = Inl e"
  shows "walkVarsDir (Suc fuel) os dir h = Inl WalkPanic"
proof -
  have "\<exists>vs. loop_list (visit_var (walkVarsDir fuel os) os dir) acc pre = Inr vs" for acc
    by (rule loop_list_total) (use assms(3) in blast)
  then obtain vs where "loop_list (visit_var (walkVarsDir fuel os) os dir) [] pre = Inr vs" by blast
  then show ?thesis
    using assms(1,2,4,5) by (simp add: walkVarsDir_loop loop_list_append visit_var_def del: walkVarsDir.simps)
qed

definition sample_stale :: os_view where
  "sample_stale = host_of
     [(''/proc/sys/kernel'', dir_node [''a'', ''gone'']),
      (''/proc/sys/kernel/a'', file_node 0x1A4 (0, 0) ''1''),
      (''/proc/sys/kernel/gone'',
        (\<lparr>Mode = 0x1A4, Sys = None\<rparr>,
         \<lparr>h_data = [], h_read_end = None, h_names = [], h_list_end = None, h_stat = Inl EIO\<rparr>))]"

lemma stat_failure_panics_witness:
  "walkVarsDir 3 sample_stale ''/proc/sys/kernel'' (snd (dir_node [''a'', ''gone''])) = Inl WalkPanic"
proof -
  let ?f = "\<lparr>h_data = [], h_read_end = None, h_names = [], h_list_end = None, h_stat = Inl EIO\<rparr>"
  let ?v = "\<lparr>Key_of = ''a'', Value_of = ''1'', Source_of = ''/proc/sys/kernel/a''\<rparr>"
  have opn: "os_Open sample_stale (path_Join [''/proc/sys/kernel'', ''a'']) =
      Inr (snd (file_node 0x1A4 (0, 0) ''1''))" by code_simp
  have st: "h_stat (snd (file_node 0x1A4 (0, 0) ''1'')) = Inr (fst (file_node 0x1A4 (0, 0) ''1''))" by code_simp
  have dirs: "\<not> mode_IsDir (Mode (fst (file_node 0x1A4 (0, 0) ''1'')))"
    "mode_IsRegular (Mode (fst (file_node 0x1A4 (0, 0) ''1'')))" by code_simp+
  have "visit_var (walkVarsDir 2 sample_stale) sample_stale ''/proc/sys/kernel'' acc ''a'' = Inr (acc @ [?v])" for acc
  proof -
    have "path_Join [''/proc/sys/kernel'', ''a''] = ''/proc/sys/kernel/a''" by code_simp
    moreover have "h_data (snd (file_node 0x1A4 (0, 0) ''1'')) = ''1''" by code_simp
    ultimately show ?thesis using opn st dirs by (simp add: visit_var_def)
  qed
  then have "\<forall>n \<in> set [''a'']. \<exists>vs. \<forall>acc. visit_var (walkVarsDir 2 sample_stale) sample_stale
      ''/proc/sys/kernel'' acc n = Inr (acc @ vs)" by auto
  moreover have "os_Open sample_stale (path_Join [''/proc/sys/kernel'', ''gone'']) = Inr ?f" by code_simp
  moreover have "h_names (snd (dir_node [''a'', ''gone''])) = [''a''] @ ''gone'' # []"
    "h_list_end (snd (dir_node [''a'', ''gone''])) = None" by code_simp+
  ultimately have "walkVarsDir (Suc 2) sample_stale ''/proc/sys/kernel'' (snd (dir_node [''a'', ''gone'']))
      = Inl WalkPanic" by (intro stat_failure_panics [where f = ?f and pre = "[''a'']"]) simp_all
  then show ?thesis by (simp only: numeral_3_eq_3 numeral_2_eq_2)
qed

text \<open>
  A file that disappears between the listing and the opening ends the whole sensor, and the
  message does not hold the reason.
\<close>

theorem vanished_variable_fails_everything:
  assumes "h_names h = name # rest" and "h_list_end h = None"
    and "os_Open os (path_Join [dir, name]) = Inl e"
    and "\<not> strings_Contains (err_text e) ''permission denied''"
  shows "walkVarsDir (Suc fuel) os dir h =
    Inl (WalkErr (ErrText (''failed to open file ('' @ path_Join [dir, name] @ ''): <nil>'')))"
  using assms by (simp add: walkVarsDir_loop visit_var_def fmt_nil_def del: walkVarsDir.simps)

lemma vanished_variable_fails_everything_witness:
  "walkVarsDir 1 sample_kernel ''/proc/sys/kernel'' (snd (dir_node [''gone'', ''a''])) =
     Inl (WalkErr (ErrText ''failed to open file (/proc/sys/kernel/gone): <nil>''))"
proof -
  have "os_Open sample_kernel (path_Join [''/proc/sys/kernel'', ''gone'']) =
      Inl (PathError ''open'' ''/proc/sys/kernel/gone'' ENOENT)"
    "\<not> strings_Contains (err_text (PathError ''open'' ''/proc/sys/kernel/gone'' ENOENT)) ''permission denied''"
    "h_names (snd (dir_node [''gone'', ''a''])) = ''gone'' # [''a'']"
    "h_list_end (snd (dir_node [''gone'', ''a''])) = None"
    "path_Join [''/proc/sys/kernel'', ''gone''] = ''/proc/sys/kernel/gone''"
    by code_simp+
  with vanished_variable_fails_everything [of "snd (dir_node [''gone'', ''a''])" "''gone''" "[''a'']"
      sample_kernel "''/proc/sys/kernel''" _ 0]
  show ?thesis by simp
qed

text \<open>
  The reported SELinux status is never the node's SELinux configuration: it is the text
  \<open>not found\<close> or a copy of the AppArmor status.
\<close>

theorem selinux_status_is_apparmor_status:
  assumes "SenseLinuxSecurityHardening os = Inr st"
  shows "SeLinux st = ''not found'' \<or> SeLinux st = AppArmor st"
proof -
  have "view_open os (HostPath appArmorProfilesFileName) = Inr h" if
    "os_ReadFile os (HostPath appArmorProfilesFileName) = Inr b"
    "os_Open os (HostPath appArmorProfilesFileName) = Inr h" for b h
    using that by (simp add: os_Open_def split: sum.splits)
  then show ?thesis using assms
    by (auto simp: SenseLinuxSecurityHardening_def getSELinuxStatus_def getAppArmorStatus_def
        ReadFileOnHostFileSystem_def os_ReadFile_def split: sum.splits option.splits)
qed

definition sample_hardened :: os_view where
  "sample_hardened = host_of
     [(''/host_fs/etc/selinux/semanage.conf'', file_node 0x1A4 (0, 0) ''module-store = direct''),
      (''/host_fs/sys/kernel/security/apparmor/profiles'', file_node 0x124 (0, 0) ''docker-default (enforce)'')]"

lemma selinux_status_is_apparmor_status_witness:
  "\<exists>st. SenseLinuxSecurityHardening sample_hardened = Inr st \<and> SeLinux st = ''docker-default (enforce)''"
proof -
  obtain st where st: "SenseLinuxSecurityHardening sample_hardened = Inr st"
    by (simp add: SenseLinuxSecurityHardening_def)
  have "AppArmor st = ''docker-default (enforce)''" "SeLinux st \<noteq> ''not found''"
  proof -
    have "getAppArmorStatus sample_hardened = ''docker-default (enforce)''"
      "getSELinuxStatus sample_hardened \<noteq> ''not found''" by code_simp+
    with st show "AppArmor st = ''docker-default (enforce)''" "SeLinux st \<noteq> ''not found''"
      by (auto simp: SenseLinuxSecurityHardening_def)
  qed
  with selinux_status_is_apparmor_status [OF st] st show ?thesis by simp
qed

text \<open>
  C36: the open ports of a protocol are reported only when every one of its files can be read:
  then all the connections of all of them, otherwise none, also of the files that were read.
\<close>

theorem open_ports_all_or_nothing:
  "SenseOpenPorts os parse = Inr
     \<lparr>TcpPorts = (case all_contents os [''/proc/net/tcp'', ''/proc/net/tcp6''] of
        None \<Rightarrow> Some [] | Some bs \<Rightarrow> Some (concat (map parse bs))),
      UdpPorts = map_option (\<lambda>bs. concat (map parse bs)) (all_contents os
        [''/proc/net/udp'', ''/proc/net/udp6'', ''/proc/net/udplite'', ''/proc/net/udplite6'']),
      ICMPPorts = map_option (\<lambda>bs. concat (map parse bs)) (all_contents os
        [''/proc/net/icmp'', ''/proc/net/icmp6''])\<rparr>"
  unfolding SenseOpenPorts_def Let_def getOpenedPorts_contents ProcNetTCPPaths_def ProcNetUDPPaths_def
    ProcNetICMPPaths_def
  by (simp split: option.split)

text \<open>
  The release that is reported is the file below \<open>/etc\<close> whose name is the first, in the
  order in which the directory lists its entries, to end in \<open>os-release\<close>.
\<close>

theorem os_release_is_first_match:
  assumes "SenseOsRelease os = Inr b"
  shows "\<exists>d before name after. os_Open os (HostPath ''/etc'') = Inr d \<and>
    listed id (h_names d) (h_list_end d) = before @ name # after \<and>
    suffix ''os-release'' name \<and> (\<forall>n \<in> set before. \<not> suffix ''os-release'' n) \<and>
    os_ReadFile os (HostPath (path_Join [''/etc'', name])) = Inr b"
proof -
  from assms obtain name d where d: "os_Open os (HostPath ''/etc'') = Inr d"
    and f: "first_some os_release_name (listed id (h_names d) (h_list_end d)) = Some name"
    and b: "os_ReadFile os (HostPath (path_Join [''/etc'', name])) = Inr b"
    by (auto simp: SenseOsRelease_def getOsReleaseFile_search etcDirName_def ReadFileOnHostFileSystem_def
        split: sum.splits option.splits)
  from first_some_SomeD [OF f] obtain before x after where
    "listed id (h_names d) (h_list_end d) = before @ x # after" "os_release_name x = Some name"
    "\<forall>n \<in> set before. os_release_name n = None" by blast
  moreover from this have "x = name" "suffix ''os-release'' name"
      "\<forall>n \<in> set before. \<not> suffix ''os-release'' n"
    by (auto simp: os_release_name_def strings_HasSuffix_def osReleaseFileSuffix_def split: if_splits)
  ultimately show ?thesis using d b by blast
qed

definition sample_release :: os_view where
  "sample_release = host_of
     [(''/host_fs/etc'', dir_node [''passwd'', ''lsb-os-release'', ''os-release'']),
      (''/host_fs/etc/lsb-os-release'', file_node 0x1A4 (0, 0) ''LSB''),
      (''/host_fs/etc/os-release'', file_node 0x1A4 (0, 0) ''NAME=x'')]"

lemma os_release_is_first_match_witness:
  "SenseOsRelease sample_release = Inr ''LSB'' \<and>
   (\<exists>name. suffix ''os-release'' name \<and>
      os_ReadFile sample_release (HostPath (path_Join [''/etc'', name])) = Inr ''LSB'')"
proof -
  have run: "SenseOsRelease sample_release = Inr ''LSB''" by code_simp
  from os_release_is_first_match [OF this] run show ?thesis by blast
qed

end
