(* ===== verification/Report_Json.thy ===== *)
theory Report_Json
  imports Go_Json Control_Plane Node_Sensors "HOL-Library.Monad_Syntax"
begin

text \<open>
  The JSON of the reports: what the field tags of the Go structs make of each of them.  A field
  without \<open>omitempty\<close> is always there; with it, an empty string, slice, false or nil pointer is
  left out.  A byte slice is base64 text.  The embedded pointer of \<open>ApiServerInfo\<close> adds the
  fields of the struct it points to, or none.

  The \<open>client_\<close> functions read a report back, with the zero value for a missing field, and the
  shapes describe the documents; both are the specification.
\<close>

subsection \<open>The fields of a struct\<close>

definition ptr_field :: "string \<Rightarrow> ('a \<Rightarrow> json) \<Rightarrow> 'a option \<Rightarrow> (string \<times> json) list" where
  "ptr_field k f v = (case v of None \<Rightarrow> [] | Some x \<Rightarrow> [(k, f x)])"

definition slice_field :: "string \<Rightarrow> ('a \<Rightarrow> json) \<Rightarrow> 'a list \<Rightarrow> (string \<times> json) list" where
  "slice_field k f vs = (if vs = [] then [] else [(k, JArr (map f vs))])"

definition text_field :: "string \<Rightarrow> string \<Rightarrow> (string \<times> json) list" where
  "text_field k s = (if s = [] then [] else [(k, JStr s)])"

definition bytes_field :: "string \<Rightarrow> bytes option \<Rightarrow> (string \<times> json) list" where
  "bytes_field k b = (case b of None \<Rightarrow> [] | Some bs \<Rightarrow> if bs = [] then [] else [(k, JStr (base64_encode bs))])"

lemmas field_defs = ptr_field_def slice_field_def text_field_def bytes_field_def

definition json_of_FileOwnership :: "FileOwnership \<Rightarrow> json" where
  "json_of_FileOwnership ow =
     JObj (text_field ''err'' (Err ow) @
       [(''uid'', JInt (UID ow)), (''gid'', JInt (GID ow)),
        (''username'', JStr (O_Username ow)), (''groupname'', JStr (O_Groupname ow))])"

definition json_of_FileInfo :: "FileInfo \<Rightarrow> json" where
  "json_of_FileInfo f =
     JObj ([(''ownership'', json_of_FileOwnership (Ownership f)), (''path'', JStr (FPath f))] @
       bytes_field ''content'' (Content f) @ [(''permissions'', JInt (Permissions f))])"

definition json_of_KubeletInfo :: "KubeletInfo \<Rightarrow> json" where
  "json_of_KubeletInfo i =
     JObj (slice_field ''serviceFiles'' json_of_FileInfo (ServiceFiles i) @
       ptr_field ''configFile'' json_of_FileInfo (ConfigFile i) @
       ptr_field ''kubeConfigFile'' json_of_FileInfo (KubeConfigFile i) @
       ptr_field ''clientCAFile'' json_of_FileInfo (ClientCAFile i) @
       [(''cmdLine'', JStr (KubeletCmdLine i))])"

definition json_of_KubeProxyInfo :: "KubeProxyInfo \<Rightarrow> json" where
  "json_of_KubeProxyInfo i =
     JObj (ptr_field ''kubeConfigFile'' json_of_FileInfo (ProxyKubeConfigFile i) @
       [(''cmdLine'', JStr (ProxyCmdLine i))])"

definition json_of_CNIInfo :: "CNIInfo \<Rightarrow> json" where
  "json_of_CNIInfo i =
     JObj (slice_field ''CNIConfigFiles'' json_of_FileInfo (CNIConfigFiles i) @
       slice_field ''CNINames'' JStr (CNINames i))"

definition fields_of_K8sProcessInfo :: "K8sProcessInfo \<Rightarrow> (string \<times> json) list" where
  "fields_of_K8sProcessInfo i =
     ptr_field ''specsFile'' json_of_FileInfo (SpecsFile i) @
     ptr_field ''configFile'' json_of_FileInfo (ProcConfigFile i) @
     ptr_field ''kubeConfigFile'' json_of_FileInfo (ProcKubeConfigFile i) @
     ptr_field ''clientCAFile'' json_of_FileInfo (ProcClientCAFile i) @
     [(''cmdLine'', JStr (ProcCmdLine i))]"

definition json_of_ApiServerInfo :: "ApiServerInfo \<Rightarrow> json" where
  "json_of_ApiServerInfo i =
     JObj (ptr_field ''encryptionProviderConfigFile'' json_of_FileInfo (EncryptionProviderConfigFile i) @
       ptr_field ''auditPolicyFile'' json_of_FileInfo (AuditPolicyFile i) @
       (case ApiProcessInfo i of None \<Rightarrow> [] | Some p \<Rightarrow> fields_of_K8sProcessInfo p))"

definition json_of_K8sProcessInfo :: "K8sProcessInfo \<Rightarrow> json" where
  "json_of_K8sProcessInfo i = JObj (fields_of_K8sProcessInfo i)"

definition json_of_ControlPlaneInfo :: "ControlPlaneInfo \<Rightarrow> json" where
  "json_of_ControlPlaneInfo i =
     JObj (ptr_field ''APIServerInfo'' json_of_ApiServerInfo (APIServerInfo i) @
       ptr_field ''controllerManagerInfo'' json_of_K8sProcessInfo (ControllerManagerInfo i) @
       ptr_field ''schedulerInfo'' json_of_K8sProcessInfo (SchedulerInfo i) @
       ptr_field ''etcdConfigFile'' json_of_FileInfo (EtcdConfigFile i) @
       ptr_field ''etcdDataDir'' json_of_FileInfo (EtcdDataDir i) @
       ptr_field ''adminConfigFile'' json_of_FileInfo (AdminConfigFile i) @
       ptr_field ''PKIDir'' json_of_FileInfo (PKIDIr i) @
       slice_field ''PKIFiles'' json_of_FileInfo (PKIFiles i))"

definition json_of_KernelVariable :: "KernelVariable \<Rightarrow> json" where
  "json_of_KernelVariable v =
     JObj [(''key'', JStr (Key_of v)), (''value'', JStr (Value_of v)), (''source'', JStr (Source_of v))]"

definition json_of_Hardening :: "LinuxSecurityHardeningStatus \<Rightarrow> json" where
  "json_of_Hardening s = JObj [(''appArmor'', JStr (AppArmor s)), (''seLinux'', JStr (SeLinux s))]"

definition json_of_CloudProviderInfo :: "CloudProviderInfo \<Rightarrow> json" where
  "json_of_CloudProviderInfo i =
     JObj (if ProviderMetaDataAPIAccess i then [(''providerMetaDataAPIAccess'', JBool True)] else [])"

text \<open>
  The element type of the port lists is a third-party struct: \<open>conn\<close> gives its JSON, or the error
  of encoding it, which fails the document.
\<close>

fun map_result :: "('a \<Rightarrow> 'b result) \<Rightarrow> 'a list \<Rightarrow> 'b list result" where
  "map_result f [] = Inr []"
| "map_result f (x # xs) =
     (case f x of
        Inl err \<Rightarrow> Inl err
      | Inr y \<Rightarrow> (case map_result f xs of Inl err \<Rightarrow> Inl err | Inr ys \<Rightarrow> Inr (y # ys)))"

text \<open>A slice without \<open>omitempty\<close>: null when it is nil.\<close>

definition json_ports :: "('c \<Rightarrow> json result) \<Rightarrow> 'c list option \<Rightarrow> json result" where
  "json_ports conn ports =
     (case ports of
        None \<Rightarrow> Inr JNull
      | Some ps \<Rightarrow> (case map_result conn ps of Inl err \<Rightarrow> Inl err | Inr vs \<Rightarrow> Inr (JArr vs)))"

definition json_of_OpenPortsStatus :: "('c \<Rightarrow> json result) \<Rightarrow> 'c OpenPortsStatus \<Rightarrow> json result" where
  "json_of_OpenPortsStatus conn s =
     (case map_result (json_ports conn) [TcpPorts s, UdpPorts s, ICMPPorts s] of
        Inl err \<Rightarrow> Inl err
      | Inr vs \<Rightarrow> Inr (JObj (zip [''tcpPorts'', ''udpPorts'', ''icmpPorts''] vs)))"

text \<open>The exported fields of a \<open>SenseError\<close> but the message are tagged away.\<close>

fun json_of_SenseError :: "goerr \<Rightarrow> json" where
  "json_of_SenseError (SenseError e m f c) = JObj [(''error'', JStr m)]"
| "json_of_SenseError _ = JNull"

text \<open>A nil pointer in an interface is encoded as null.\<close>

definition json_pointer :: "('a \<Rightarrow> json) \<Rightarrow> 'a option \<Rightarrow> json" where
  "json_pointer f p = (case p of None \<Rightarrow> JNull | Some x \<Rightarrow> f x)"

subsection \<open>Reading reports\<close>

text \<open>A field of an object by its name: absent and null are the zero value.\<close>

definition jget :: "string \<Rightarrow> json \<Rightarrow> json option" where
  "jget k v = (case v of JObj kvs \<Rightarrow> map_of kvs k | _ \<Rightarrow> None)"

definition get_str :: "string \<Rightarrow> json \<Rightarrow> string option" where
  "get_str k v = (case jget k v of None \<Rightarrow> Some [] | Some (JStr s) \<Rightarrow> Some s | _ \<Rightarrow> None)"

definition get_int :: "string \<Rightarrow> json \<Rightarrow> int option" where
  "get_int k v = (case jget k v of None \<Rightarrow> Some 0 | Some (JInt i) \<Rightarrow> Some i | _ \<Rightarrow> None)"

definition get_bytes :: "string \<Rightarrow> json \<Rightarrow> bytes option option" where
  "get_bytes k v =
     (case jget k v of
        None \<Rightarrow> Some None
      | Some (JStr s) \<Rightarrow> map_option Some (base64_decode s)
      | _ \<Rightarrow> None)"

definition read_ptr :: "(json \<Rightarrow> 'a option) \<Rightarrow> json option \<Rightarrow> 'a option option" where
  "read_ptr client v =
     (case v of None \<Rightarrow> Some None | Some JNull \<Rightarrow> Some None | Some w \<Rightarrow> map_option Some (client w))"

definition read_slice :: "(json \<Rightarrow> 'a option) \<Rightarrow> json option \<Rightarrow> 'a list option" where
  "read_slice client v =
     (case v of
        None \<Rightarrow> Some []
      | Some (JArr ws) \<Rightarrow> those (map client ws)
      | _ \<Rightarrow> None)"

definition get_ptr :: "string \<Rightarrow> (json \<Rightarrow> 'a option) \<Rightarrow> json \<Rightarrow> 'a option option" where
  "get_ptr k client v = read_ptr client (jget k v)"

definition get_slice :: "string \<Rightarrow> (json \<Rightarrow> 'a option) \<Rightarrow> json \<Rightarrow> 'a list option" where
  "get_slice k client v = read_slice client (jget k v)"

definition client_FileOwnership :: "json \<Rightarrow> FileOwnership option" where
  "client_FileOwnership v =
     do { err \<leftarrow> get_str ''err'' v; uid \<leftarrow> get_int ''uid'' v; gid \<leftarrow> get_int ''gid'' v;
          user \<leftarrow> get_str ''username'' v; group \<leftarrow> get_str ''groupname'' v;
          Some \<lparr>Err = err, UID = uid, GID = gid, O_Username = user, O_Groupname = group\<rparr> }"

definition client_FileInfo :: "json \<Rightarrow> FileInfo option" where
  "client_FileInfo v =
     do { ow \<leftarrow> jget ''ownership'' v; ownership \<leftarrow> client_FileOwnership ow;
          path \<leftarrow> get_str ''path'' v; content \<leftarrow> get_bytes ''content'' v;
          permissions \<leftarrow> get_int ''permissions'' v;
          Some \<lparr>Ownership = ownership, FPath = path, Content = content, Permissions = permissions\<rparr> }"

definition client_KubeletInfo :: "json \<Rightarrow> KubeletInfo option" where
  "client_KubeletInfo v =
     do { services \<leftarrow> get_slice ''serviceFiles'' client_FileInfo v;
          config \<leftarrow> get_ptr ''configFile'' client_FileInfo v;
          kubeconfig \<leftarrow> get_ptr ''kubeConfigFile'' client_FileInfo v;
          ca \<leftarrow> get_ptr ''clientCAFile'' client_FileInfo v;
          cmdline \<leftarrow> get_str ''cmdLine'' v;
          Some \<lparr>ServiceFiles = services, ConfigFile = config, KubeConfigFile = kubeconfig,
             ClientCAFile = ca, KubeletCmdLine = cmdline\<rparr> }"

definition client_K8sProcessInfo :: "json \<Rightarrow> K8sProcessInfo option" where
  "client_K8sProcessInfo v =
     do { specs \<leftarrow> get_ptr ''specsFile'' client_FileInfo v;
          config \<leftarrow> get_ptr ''configFile'' client_FileInfo v;
          kubeconfig \<leftarrow> get_ptr ''kubeConfigFile'' client_FileInfo v;
          ca \<leftarrow> get_ptr ''clientCAFile'' client_FileInfo v;
          cmdline \<leftarrow> get_str ''cmdLine'' v;
          Some \<lparr>SpecsFile = specs, ProcConfigFile = config, ProcKubeConfigFile = kubeconfig,
             ProcClientCAFile = ca, ProcCmdLine = cmdline\<rparr> }"

text \<open>The embedded pointer is set as soon as one of its fields is there; \<open>cmdLine\<close> always is.\<close>

definition client_ApiServerInfo :: "json \<Rightarrow> ApiServerInfo option" where
  "client_ApiServerInfo v =
     do { enc \<leftarrow> get_ptr ''encryptionProviderConfigFile'' client_FileInfo v;
          audit \<leftarrow> get_ptr ''auditPolicyFile'' client_FileInfo v;
          info \<leftarrow> (if jget ''cmdLine'' v = None then Some None else map_option Some (client_K8sProcessInfo v));
          Some \<lparr>EncryptionProviderConfigFile = enc, AuditPolicyFile = audit, ApiProcessInfo = info\<rparr> }"

definition client_ControlPlaneInfo :: "json \<Rightarrow> ControlPlaneInfo option" where
  "client_ControlPlaneInfo v =
     do { api \<leftarrow> get_ptr ''APIServerInfo'' client_ApiServerInfo v;
          controller \<leftarrow> get_ptr ''controllerManagerInfo'' client_K8sProcessInfo v;
          scheduler \<leftarrow> get_ptr ''schedulerInfo'' client_K8sProcessInfo v;
          etcd \<leftarrow> get_ptr ''etcdConfigFile'' client_FileInfo v;
          data \<leftarrow> get_ptr ''etcdDataDir'' client_FileInfo v;
          admin \<leftarrow> get_ptr ''adminConfigFile'' client_FileInfo v;
          pki \<leftarrow> get_ptr ''PKIDir'' client_FileInfo v;
          files \<leftarrow> get_slice ''PKIFiles'' client_FileInfo v;
          Some \<lparr>APIServerInfo = api, ControllerManagerInfo = controller, SchedulerInfo = scheduler,
             EtcdConfigFile = etcd, EtcdDataDir = data, AdminConfigFile = admin, PKIDIr = pki,
             PKIFiles = files\<rparr> }"

text \<open>An empty content cannot be told from no content.\<close>

definition seen_FileInfo :: "FileInfo \<Rightarrow> FileInfo" where
  "seen_FileInfo f = f\<lparr>Content := (if Content f = Some [] then None else Content f)\<rparr>"

definition seen_KubeletInfo :: "KubeletInfo \<Rightarrow> KubeletInfo" where
  "seen_KubeletInfo i =
     i\<lparr>ServiceFiles := map seen_FileInfo (ServiceFiles i), ConfigFile := map_option seen_FileInfo (ConfigFile i),
       KubeConfigFile := map_option seen_FileInfo (KubeConfigFile i),
       ClientCAFile := map_option seen_FileInfo (ClientCAFile i)\<rparr>"

definition seen_K8sProcessInfo :: "K8sProcessInfo \<Rightarrow> K8sProcessInfo" where
  "seen_K8sProcessInfo i =
     i\<lparr>SpecsFile := map_option seen_FileInfo (SpecsFile i),
       ProcConfigFile := map_option seen_FileInfo (ProcConfigFile i),
       ProcKubeConfigFile := map_option seen_FileInfo (ProcKubeConfigFile i),
       ProcClientCAFile := map_option seen_FileInfo (ProcClientCAFile i)\<rparr>"

definition seen_ApiServerInfo :: "ApiServerInfo \<Rightarrow> ApiServerInfo" where
  "seen_ApiServerInfo i =
     i\<lparr>EncryptionProviderConfigFile := map_option seen_FileInfo (EncryptionProviderConfigFile i),
       AuditPolicyFile := map_option seen_FileInfo (AuditPolicyFile i),
       ApiProcessInfo := map_option seen_K8sProcessInfo (ApiProcessInfo i)\<rparr>"

definition seen_ControlPlaneInfo :: "ControlPlaneInfo \<Rightarrow> ControlPlaneInfo" where
  "seen_ControlPlaneInfo i =
     i\<lparr>APIServerInfo := map_option seen_ApiServerInfo (APIServerInfo i),
       ControllerManagerInfo := map_option seen_K8sProcessInfo (ControllerManagerInfo i),
       SchedulerInfo := map_option seen_K8sProcessInfo (SchedulerInfo i),
       EtcdConfigFile := map_option seen_FileInfo (EtcdConfigFile i),
       EtcdDataDir := map_option seen_FileInfo (EtcdDataDir i),
       AdminConfigFile := map_option seen_FileInfo (AdminConfigFile i),
       PKIDIr := map_option seen_FileInfo (PKIDIr i),
       PKIFiles := map seen_FileInfo (PKIFiles i)\<rparr>"


subsection \<open>What is written is read\<close>

named_theorems json_fields \<open>looking up the fields of a written struct\<close>

text \<open>A field is found when no later field has its name, and passed over when the name is another.\<close>

lemma map_of_ptr_field [json_fields]:
  "map_of kvs k = None \<Longrightarrow> map_of (ptr_field k f v @ kvs) k = map_option f v"
  "k' \<noteq> k \<Longrightarrow> map_of (ptr_field k f v @ kvs) k' = map_of kvs k'"
  "map_of (ptr_field k f v) k = map_option f v"
  "k' \<noteq> k \<Longrightarrow> map_of (ptr_field k f v) k' = None"
  by (cases v; auto simp: ptr_field_def)+

lemma map_of_slice_field [json_fields]:
  "map_of kvs k = None \<Longrightarrow>
     map_of (slice_field k f vs @ kvs) k = (if vs \<noteq> [] then Some (JArr (map f vs)) else None)"
  "k' \<noteq> k \<Longrightarrow> map_of (slice_field k f vs @ kvs) k' = map_of kvs k'"
  "map_of (slice_field k f vs) k = (if vs \<noteq> [] then Some (JArr (map f vs)) else None)"
  "k' \<noteq> k \<Longrightarrow> map_of (slice_field k f vs) k' = None"
  by (auto simp: slice_field_def)

lemma map_of_text_field [json_fields]:
  "map_of kvs k = None \<Longrightarrow> map_of (text_field k s @ kvs) k = (if s \<noteq> [] then Some (JStr s) else None)"
  "k' \<noteq> k \<Longrightarrow> map_of (text_field k s @ kvs) k' = map_of kvs k'"
  by (auto simp: text_field_def)

lemma map_of_bytes_field [json_fields]:
  "map_of kvs k = None \<Longrightarrow>
     map_of (bytes_field k b @ kvs) k =
       (if b \<noteq> None \<and> b \<noteq> Some [] then Some (JStr (base64_encode (the b))) else None)"
  "k' \<noteq> k \<Longrightarrow> map_of (bytes_field k b @ kvs) k' = map_of kvs k'"
  by (auto simp: bytes_field_def split: option.splits)

lemma map_of_skip: "map_of kvs k = None \<Longrightarrow> map_of (kvs @ kvs') k = map_of kvs' k"
  by (simp add: map_add_def split: option.split)

declare map_of_append [simp del]

lemma jget_JObj [json_fields]: "jget k (JObj kvs) = map_of kvs k"
  by (simp add: jget_def)

lemma those_map: "(\<And>x. client (f x) = Some (seen x)) \<Longrightarrow> those (map client (map f xs)) = Some (map seen xs)"
  by (induction xs) simp_all

text \<open>A struct is encoded as an object, so a pointer to it is never read as null.\<close>

lemma struct_not_null [simp]:
  "json_of_FileInfo f \<noteq> JNull" "json_of_ApiServerInfo a \<noteq> JNull" "json_of_K8sProcessInfo p \<noteq> JNull"
  by (simp_all add: json_of_FileInfo_def json_of_ApiServerInfo_def json_of_K8sProcessInfo_def)

lemma client_FileOwnership_back: "client_FileOwnership (json_of_FileOwnership ow) = Some ow"
  by (simp add: client_FileOwnership_def json_of_FileOwnership_def get_str_def get_int_def json_fields)

lemma client_FileInfo_back [simp]: "client_FileInfo (json_of_FileInfo f) = Some (seen_FileInfo f)"
  by (cases "Content f")
    (auto simp: client_FileInfo_def json_of_FileInfo_def get_str_def get_int_def get_bytes_def json_fields
      client_FileOwnership_back base64_decode_encode seen_FileInfo_def)

lemma read_ptr_back:
  assumes "\<And>x. client (f x) = Some (seen x)" "\<And>x. f x \<noteq> JNull"
  shows "read_ptr client (map_option f p) = Some (map_option seen p)"
proof (cases p)
  case (Some x)
  then show ?thesis using assms [of x] by (cases "f x") (simp_all add: read_ptr_def)
qed (simp add: read_ptr_def)

lemma read_slice_back:
  assumes "\<And>x. client (f x) = Some (seen x)"
  shows "read_slice client (if vs \<noteq> [] then Some (JArr (map f vs)) else None) = Some (map seen vs)"
  using those_map [of client f seen vs] assms by (simp add: read_slice_def)

lemma read_FileInfo_back [json_fields]:
  "read_ptr client_FileInfo (map_option json_of_FileInfo p) = Some (map_option seen_FileInfo p)"
  "read_slice client_FileInfo (if vs \<noteq> [] then Some (JArr (map json_of_FileInfo vs)) else None) =
     Some (map seen_FileInfo vs)"
  by (rule read_ptr_back read_slice_back; simp)+

lemmas get_defs = get_str_def get_ptr_def get_slice_def

lemma client_KubeletInfo_back: "client_KubeletInfo (json_of_KubeletInfo i) = Some (seen_KubeletInfo i)"
  by (simp add: client_KubeletInfo_def json_of_KubeletInfo_def get_defs json_fields seen_KubeletInfo_def)

lemma client_K8sProcessInfo_back:
  "client_K8sProcessInfo (json_of_K8sProcessInfo i) = Some (seen_K8sProcessInfo i)"
  by (simp add: client_K8sProcessInfo_def json_of_K8sProcessInfo_def fields_of_K8sProcessInfo_def get_defs
      json_fields seen_K8sProcessInfo_def)

text \<open>The fields of the embedded struct are found behind those of the embedding one.\<close>

lemma client_K8sProcessInfo_embedded:
  assumes "map_of kvs ''specsFile'' = None" "map_of kvs ''configFile'' = None"
    "map_of kvs ''kubeConfigFile'' = None" "map_of kvs ''clientCAFile'' = None" "map_of kvs ''cmdLine'' = None"
  shows "client_K8sProcessInfo (JObj (kvs @ fields_of_K8sProcessInfo i)) = Some (seen_K8sProcessInfo i)"
  using assms
  by (simp add: client_K8sProcessInfo_def fields_of_K8sProcessInfo_def get_defs json_fields map_of_skip
      seen_K8sProcessInfo_def)

lemma client_ApiServerInfo_back: "client_ApiServerInfo (json_of_ApiServerInfo i) = Some (seen_ApiServerInfo i)"
proof (cases "ApiProcessInfo i")
  case None
  then show ?thesis
    by (simp add: client_ApiServerInfo_def json_of_ApiServerInfo_def get_defs json_fields seen_ApiServerInfo_def)
next
  case (Some p)
  let ?kvs = "ptr_field ''encryptionProviderConfigFile'' json_of_FileInfo (EncryptionProviderConfigFile i) @
     ptr_field ''auditPolicyFile'' json_of_FileInfo (AuditPolicyFile i)"
  have json: "json_of_ApiServerInfo i = JObj (?kvs @ fields_of_K8sProcessInfo p)"
    using Some by (simp add: json_of_ApiServerInfo_def)
  have own: "map_of (fields_of_K8sProcessInfo p) ''encryptionProviderConfigFile'' = None"
    "map_of (fields_of_K8sProcessInfo p) ''auditPolicyFile'' = None"
    "map_of (fields_of_K8sProcessInfo p) ''cmdLine'' = Some (JStr (ProcCmdLine p))"
    by (simp_all add: fields_of_K8sProcessInfo_def json_fields)
  have "client_K8sProcessInfo (json_of_ApiServerInfo i) = Some (seen_K8sProcessInfo p)"
    unfolding json by (rule client_K8sProcessInfo_embedded) (simp_all add: json_fields)
  then show ?thesis
    using Some own by (simp add: client_ApiServerInfo_def json get_defs json_fields seen_ApiServerInfo_def)
qed

lemma read_parts_back [json_fields]:
  "read_ptr client_ApiServerInfo (map_option json_of_ApiServerInfo a) = Some (map_option seen_ApiServerInfo a)"
  "read_ptr client_K8sProcessInfo (map_option json_of_K8sProcessInfo p) = Some (map_option seen_K8sProcessInfo p)"
  by (rule read_ptr_back; simp add: client_ApiServerInfo_back client_K8sProcessInfo_back)+

lemma client_ControlPlaneInfo_back:
  "client_ControlPlaneInfo (json_of_ControlPlaneInfo i) = Some (seen_ControlPlaneInfo i)"
  by (simp add: client_ControlPlaneInfo_def json_of_ControlPlaneInfo_def get_defs json_fields
      seen_ControlPlaneInfo_def)

declare map_of_append [simp]


subsection \<open>Shapes\<close>

datatype shape =
    SAny | SNull | SString | SBase64 | STrue
  | SInt_in int int
  | SList shape
  | SEither shape shape
  | SObject "(string \<times> bool \<times> shape) list"

definition field_ok :: "bool \<Rightarrow> (json \<Rightarrow> bool) \<Rightarrow> json option \<Rightarrow> bool" where
  "field_ok required ok v = (case v of None \<Rightarrow> \<not> required | Some w \<Rightarrow> ok w)"

lemma field_ok_cong [fundef_cong]:
  "r = r' \<Longrightarrow> v = v' \<Longrightarrow> (\<And>w. v' = Some w \<Longrightarrow> ok w = ok' w) \<Longrightarrow> field_ok r ok v = field_ok r' ok' v'"
  by (cases v) (auto simp: field_ok_def)

text \<open>
  An object has each required field, each of its fields at most once and in its shape, and no
  other field.
\<close>

fun has_shape :: "shape \<Rightarrow> json \<Rightarrow> bool" where
  "has_shape SAny v = True"
| "has_shape SNull v = (v = JNull)"
| "has_shape STrue v = (v = JBool True)"
| "has_shape SString v = (case v of JStr s \<Rightarrow> True | _ \<Rightarrow> False)"
| "has_shape SBase64 v = (case v of JStr s \<Rightarrow> valid_utf8 s \<and> base64_decode s \<noteq> None | _ \<Rightarrow> False)"
| "has_shape (SInt_in lo hi) v = (case v of JInt i \<Rightarrow> lo \<le> i \<and> i \<le> hi | _ \<Rightarrow> False)"
| "has_shape (SList sh) v = (case v of JArr vs \<Rightarrow> \<forall>w \<in> set vs. has_shape sh w | _ \<Rightarrow> False)"
| "has_shape (SEither sh sh') v = (has_shape sh v \<or> has_shape sh' v)"
| "has_shape (SObject fs) v =
     (case v of
        JObj kvs \<Rightarrow>
          distinct (map fst kvs) \<and> set (map fst kvs) \<subseteq> set (map fst fs) \<and>
          (\<forall>f \<in> set fs. field_ok (fst (snd f)) (has_shape (snd (snd f))) (map_of kvs (fst f)))
      | _ \<Rightarrow> False)"

definition ownership_shape :: shape where
  "ownership_shape =
     SObject [(''err'', False, SString), (''uid'', True, SInt_in (- 1) 4294967295),
       (''gid'', True, SInt_in (- 1) 4294967295), (''username'', True, SString),
       (''groupname'', True, SString)]"

definition file_shape :: shape where
  "file_shape =
     SObject [(''ownership'', True, ownership_shape), (''path'', True, SString),
       (''content'', False, SBase64), (''permissions'', True, SInt_in 0 511)]"

definition process_fields :: "(string \<times> bool \<times> shape) list" where
  "process_fields =
     [(''specsFile'', False, file_shape), (''configFile'', False, file_shape),
      (''kubeConfigFile'', False, file_shape), (''clientCAFile'', False, file_shape)]"

definition kubelet_shape :: shape where
  "kubelet_shape =
     SObject [(''serviceFiles'', False, SList file_shape), (''configFile'', False, file_shape),
       (''kubeConfigFile'', False, file_shape), (''clientCAFile'', False, file_shape),
       (''cmdLine'', True, SString)]"

definition kubeproxy_shape :: shape where
  "kubeproxy_shape = SObject [(''kubeConfigFile'', False, file_shape), (''cmdLine'', True, SString)]"

definition cni_shape :: shape where
  "cni_shape = SObject [(''CNIConfigFiles'', False, SList file_shape), (''CNINames'', False, SList SString)]"

definition process_shape :: shape where
  "process_shape = SObject (process_fields @ [(''cmdLine'', True, SString)])"

definition api_server_shape :: shape where
  "api_server_shape =
     SObject ([(''encryptionProviderConfigFile'', False, file_shape), (''auditPolicyFile'', False, file_shape)] @
       process_fields @ [(''cmdLine'', False, SString)])"

definition control_plane_shape :: shape where
  "control_plane_shape =
     SObject [(''APIServerInfo'', False, api_server_shape), (''controllerManagerInfo'', False, process_shape),
       (''schedulerInfo'', False, process_shape), (''etcdConfigFile'', False, file_shape),
       (''etcdDataDir'', False, file_shape), (''adminConfigFile'', False, file_shape),
       (''PKIDir'', False, file_shape), (''PKIFiles'', False, SList file_shape)]"

definition error_shape :: shape where "error_shape = SObject [(''error'', True, SString)]"

definition variable_shape :: shape where
  "variable_shape = SObject [(''key'', True, SString), (''value'', True, SString), (''source'', True, SString)]"

definition hardening_shape :: shape where
  "hardening_shape = SObject [(''appArmor'', True, SString), (''seLinux'', True, SString)]"

definition cloud_shape :: shape where
  "cloud_shape = SObject [(''providerMetaDataAPIAccess'', False, STrue)]"

definition ports_shape :: shape where
  "ports_shape =
     SObject [(''tcpPorts'', True, SList SAny), (''udpPorts'', True, SEither SNull (SList SAny)),
       (''icmpPorts'', True, SEither SNull (SList SAny))]"


subsection \<open>Well-formed reports\<close>

text \<open>What a file information is by its construction (see \<open>file_info_well_formed\<close>).\<close>

definition wf_info :: "FileInfo \<Rightarrow> bool" where
  "wf_info f \<longleftrightarrow> 0 \<le> Permissions f \<and> Permissions f \<le> 511 \<and>
     - 1 \<le> UID (Ownership f) \<and> UID (Ownership f) \<le> 4294967295 \<and>
     - 1 \<le> GID (Ownership f) \<and> GID (Ownership f) \<le> 4294967295"

abbreviation wf_opt :: "FileInfo option \<Rightarrow> bool" where "wf_opt \<equiv> pred_option wf_info"
abbreviation wf_infos :: "FileInfo list \<Rightarrow> bool" where "wf_infos \<equiv> list_all wf_info"

named_theorems json_shapes \<open>the keys and the shapes of the fields of a written struct\<close>

text \<open>The keys of a written struct are among its field names, in their order.\<close>

lemma field_keys [json_shapes]:
  "subseq ks0 ks \<Longrightarrow> subseq (map fst (ptr_field k f v) @ ks0) (k # ks)"
  "subseq ks0 ks \<Longrightarrow> subseq (map fst (slice_field k g vs) @ ks0) (k # ks)"
  "subseq ks0 ks \<Longrightarrow> subseq (map fst (text_field k s) @ ks0) (k # ks)"
  "subseq ks0 ks \<Longrightarrow> subseq (map fst (bytes_field k b) @ ks0) (k # ks)"
  "subseq (map fst (slice_field k g vs)) [k]"
  "subseq (map fst (ptr_field k f v)) (k # ks)"
  by (auto simp: field_defs split: option.splits)

lemma subseq_keys: "subseq xs ys \<Longrightarrow> set xs \<subseteq> set ys \<and> (distinct ys \<longrightarrow> distinct xs)"
  by (induction rule: list_emb.induct) auto

lemma object_shape:
  assumes "subseq (map fst kvs) (map fst fs)" "distinct (map fst fs)"
    and "\<forall>f \<in> set fs. field_ok (fst (snd f)) (has_shape (snd (snd f))) (map_of kvs (fst f))"
  shows "has_shape (SObject fs) (JObj kvs)"
  using assms subseq_keys [OF assms(1)] by simp

lemma field_shapes [json_shapes]:
  "field_ok False (has_shape sh) (map_option f v) \<longleftrightarrow> pred_option (\<lambda>x. has_shape sh (f x)) v"
  "field_ok False (has_shape (SList sh)) (if vs \<noteq> [] then Some (JArr (map g vs)) else None) \<longleftrightarrow>
     list_all (\<lambda>x. has_shape sh (g x)) vs"
  "field_ok False (has_shape SString) (if s \<noteq> [] then Some (JStr s) else None)"
  "field_ok False (has_shape SBase64) (if b \<noteq> None \<and> b \<noteq> Some [] then Some (JStr (base64_encode (the b))) else None)"
  "field_ok r (has_shape sh) (Some w) \<longleftrightarrow> has_shape sh w"
  "field_ok r ok None \<longleftrightarrow> \<not> r"
  by (cases v) (auto simp: field_ok_def list_all_iff base64_decode_encode)

lemma ownership_has_shape:
  assumes "- 1 \<le> UID ow" "UID ow \<le> 4294967295" "- 1 \<le> GID ow" "GID ow \<le> 4294967295"
  shows "has_shape ownership_shape (json_of_FileOwnership ow)"
  using assms unfolding json_of_FileOwnership_def ownership_shape_def
  by (intro object_shape) (simp_all add: json_fields json_shapes del: map_of_append)

lemma file_has_shape: "wf_info f \<Longrightarrow> has_shape file_shape (json_of_FileInfo f)"
  using ownership_has_shape [of "Ownership f"] unfolding json_of_FileInfo_def file_shape_def wf_info_def
  by (intro object_shape) (simp_all add: json_fields json_shapes base64_decode_encode del: map_of_append has_shape.simps(9))

definition wf_process :: "K8sProcessInfo \<Rightarrow> bool" where
  "wf_process i \<longleftrightarrow> wf_opt (SpecsFile i) \<and> wf_opt (ProcConfigFile i) \<and> wf_opt (ProcKubeConfigFile i) \<and>
     wf_opt (ProcClientCAFile i)"

definition wf_api_server :: "ApiServerInfo \<Rightarrow> bool" where
  "wf_api_server i \<longleftrightarrow> wf_opt (EncryptionProviderConfigFile i) \<and> wf_opt (AuditPolicyFile i) \<and>
     pred_option wf_process (ApiProcessInfo i)"

definition wf_control_plane :: "ControlPlaneInfo \<Rightarrow> bool" where
  "wf_control_plane i \<longleftrightarrow> pred_option wf_api_server (APIServerInfo i) \<and>
     pred_option wf_process (ControllerManagerInfo i) \<and> pred_option wf_process (SchedulerInfo i) \<and>
     wf_opt (EtcdConfigFile i) \<and> wf_opt (EtcdDataDir i) \<and> wf_opt (AdminConfigFile i) \<and>
     wf_opt (PKIDIr i) \<and> wf_infos (PKIFiles i)"

definition wf_kubelet :: "KubeletInfo \<Rightarrow> bool" where
  "wf_kubelet i \<longleftrightarrow> wf_infos (ServiceFiles i) \<and> wf_opt (ConfigFile i) \<and> wf_opt (KubeConfigFile i) \<and>
     wf_opt (ClientCAFile i)"

lemma wf_opt_shape [json_shapes]:
  "wf_opt v \<Longrightarrow> pred_option (\<lambda>x. has_shape file_shape (json_of_FileInfo x)) v"
  "wf_infos vs \<Longrightarrow> list_all (\<lambda>x. has_shape file_shape (json_of_FileInfo x)) vs"
  by (auto simp: file_has_shape list_all_iff elim: option.pred_mono_strong)

lemma kubelet_has_shape: "wf_kubelet i \<Longrightarrow> has_shape kubelet_shape (json_of_KubeletInfo i)"
  unfolding json_of_KubeletInfo_def kubelet_shape_def wf_kubelet_def
  by (intro object_shape) (simp_all add: json_fields json_shapes del: map_of_append has_shape.simps(9))

lemma kubeproxy_has_shape:
  "wf_opt (ProxyKubeConfigFile i) \<Longrightarrow> has_shape kubeproxy_shape (json_of_KubeProxyInfo i)"
  unfolding json_of_KubeProxyInfo_def kubeproxy_shape_def by (intro object_shape) (simp_all add: json_fields json_shapes del: map_of_append has_shape.simps(9))

lemma cni_has_shape: "wf_infos (CNIConfigFiles i) \<Longrightarrow> has_shape cni_shape (json_of_CNIInfo i)"
  unfolding json_of_CNIInfo_def cni_shape_def by (intro object_shape)
    (simp_all add: json_fields json_shapes list_all_iff file_has_shape del: map_of_append has_shape.simps(9))

lemma process_has_shape: "wf_process i \<Longrightarrow> has_shape process_shape (json_of_K8sProcessInfo i)"
  unfolding json_of_K8sProcessInfo_def fields_of_K8sProcessInfo_def process_shape_def process_fields_def
    wf_process_def
  by (intro object_shape) (simp_all add: json_fields json_shapes del: map_of_append has_shape.simps(9))

lemma api_server_has_shape: "wf_api_server i \<Longrightarrow> has_shape api_server_shape (json_of_ApiServerInfo i)"
  unfolding json_of_ApiServerInfo_def fields_of_K8sProcessInfo_def api_server_shape_def process_fields_def
    wf_api_server_def wf_process_def
  by (cases "ApiProcessInfo i"; intro object_shape)
    (simp_all add: json_fields json_shapes del: map_of_append has_shape.simps(9))

lemma parts_have_shape [json_shapes]:
  "pred_option wf_process v \<Longrightarrow> pred_option (\<lambda>x. has_shape process_shape (json_of_K8sProcessInfo x)) v"
  "pred_option wf_api_server a \<Longrightarrow> pred_option (\<lambda>x. has_shape api_server_shape (json_of_ApiServerInfo x)) a"
  by (auto simp: process_has_shape api_server_has_shape elim: option.pred_mono_strong)

lemma control_plane_has_shape:
  "wf_control_plane i \<Longrightarrow> has_shape control_plane_shape (json_of_ControlPlaneInfo i)"
  unfolding json_of_ControlPlaneInfo_def control_plane_shape_def wf_control_plane_def
  by (intro object_shape) (simp_all add: json_fields json_shapes del: map_of_append has_shape.simps(9))

lemma variable_has_shape: "has_shape variable_shape (json_of_KernelVariable v)"
  by (simp add: json_of_KernelVariable_def variable_shape_def field_ok_def)

lemma hardening_has_shape: "has_shape hardening_shape (json_of_Hardening s)"
  by (simp add: json_of_Hardening_def hardening_shape_def field_ok_def)

lemma cloud_has_shape: "has_shape cloud_shape (json_of_CloudProviderInfo i)"
  by (simp add: json_of_CloudProviderInfo_def cloud_shape_def field_ok_def)

lemma error_has_shape: "has_shape error_shape (json_of_SenseError (SenseError e m f c))"
  by (simp add: error_shape_def field_ok_def)

lemma map_result_total: "(\<And>x. x \<in> set xs \<Longrightarrow> \<exists>y. f x = Inr y) \<Longrightarrow> \<exists>ys. map_result f xs = Inr ys"
proof (induction xs)
  case (Cons x xs)
  then obtain y ys where "f x = Inr y" "map_result f xs = Inr ys" by (meson list.set_intros)
  then show ?case by simp
qed simp

lemma json_ports_shape:
  assumes "\<And>p. \<exists>v. conn p = Inr v"
  shows "\<exists>v. json_ports conn ps = Inr v \<and> has_shape (if ps = None then SNull else SList SAny) v"
proof (cases ps)
  case (Some qs)
  obtain vs where "map_result conn qs = Inr vs" using map_result_total [of qs conn] assms by blast
  with Some show ?thesis by (simp add: json_ports_def)
qed (simp add: json_ports_def)

lemma ports_have_shape:
  assumes conn: "\<And>p. \<exists>v. conn p = Inr v" and tcp: "TcpPorts s \<noteq> None"
  shows "\<exists>v. json_of_OpenPortsStatus conn s = Inr v \<and> has_shape ports_shape v"
proof -
  obtain t u i where "json_ports conn (TcpPorts s) = Inr t" "json_ports conn (UdpPorts s) = Inr u"
    "json_ports conn (ICMPPorts s) = Inr i"
    and "has_shape (SList SAny) t" "has_shape (SEither SNull (SList SAny)) u"
    "has_shape (SEither SNull (SList SAny)) i"
    using json_ports_shape [of conn "TcpPorts s"] json_ports_shape [of conn "UdpPorts s"]
      json_ports_shape [of conn "ICMPPorts s"] conn tcp by (auto split: if_splits)
  then show ?thesis by (simp add: json_of_OpenPortsStatus_def ports_shape_def field_ok_def)
qed


subsection \<open>Shapes survive the wire\<close>

fun plain_keys :: "shape \<Rightarrow> bool" where
  "plain_keys (SObject fs) \<longleftrightarrow> (\<forall>f \<in> set fs. valid_utf8 (fst f) \<and> plain_keys (snd (snd f)))"
| "plain_keys (SList sh) \<longleftrightarrow> plain_keys sh"
| "plain_keys (SEither sh sh') \<longleftrightarrow> plain_keys sh \<and> plain_keys sh'"
| "plain_keys _ \<longleftrightarrow> True"

lemma has_shape_valid_text: "has_shape sh v \<Longrightarrow> plain_keys sh \<Longrightarrow> has_shape sh (json_valid_text v)"
proof (induction sh v rule: has_shape.induct)
  case (9 fs v)
  then obtain kvs where v: "v = JObj kvs" and keys: "distinct (map fst kvs)" "set (map fst kvs) \<subseteq> set (map fst fs)"
    and fields: "\<forall>f \<in> set fs. field_ok (fst (snd f)) (has_shape (snd (snd f))) (map_of kvs (fst f))"
    by (cases v) auto
  have key: "to_valid k = k" if "k \<in> set (map fst kvs)" for k
  proof -
    from that keys(2) have "k \<in> set (map fst fs)" by blast
    then obtain f where "f \<in> set fs" "k = fst f" by auto
    with 9(3) show ?thesis by (simp add: to_valid_id)
  qed
  then have obj: "json_valid_text v = JObj (map (\<lambda>(k, w). (k, json_valid_text w)) kvs)"
    unfolding v by (auto split: prod.splits intro!: key) force
  have "field_ok (fst (snd f)) (has_shape (snd (snd f))) (map_option json_valid_text (map_of kvs (fst f)))"
    if f: "f \<in> set fs" for f
  proof (cases "map_of kvs (fst f)")
    case None
    with fields f show ?thesis by (auto simp: field_ok_def)
  next
    case (Some w)
    then have "has_shape (snd (snd f)) (json_valid_text w)"
      using 9(1) [OF v f] 9(3) fields f by (auto simp: field_ok_def)
    with Some show ?thesis by (simp add: field_ok_def)
  qed
  then have "\<forall>f \<in> set fs. field_ok (fst (snd f)) (has_shape (snd (snd f)))
      (map_of (map (\<lambda>(k, w). (k, json_valid_text w)) kvs) (fst f))"
    by (simp add: map_of_map)
  moreover have "map fst (map (\<lambda>(k, w). (k, json_valid_text w)) kvs) = map fst kvs"
    by (simp add: case_prod_beta)
  ultimately show ?case
    using keys unfolding obj has_shape.simps json.case by (simp only: simp_thms)
qed (auto simp: to_valid_id split: json.splits)

text \<open>All shapes have plain field names.\<close>

lemma report_keys_plain:
  "plain_keys kubelet_shape" "plain_keys kubeproxy_shape" "plain_keys cni_shape"
  "plain_keys control_plane_shape" "plain_keys error_shape" "plain_keys variable_shape"
  "plain_keys hardening_shape" "plain_keys cloud_shape" "plain_keys ports_shape"
  by code_simp+

end
