(* ===== verification/Report_Types.thy ===== *)
theory Report_Types
  imports Report_Json
begin

text \<open>
  Every report is well formed, whatever the host and whatever the cache of names holds: the file
  informations in it have nine permission bits and owners that are 32-bit ids or -1.  The lemmas
  go through the operations from \<open>MakeFileInfo\<close> up to the sensors.
\<close>

named_theorems wf_rules \<open>operations whose file informations are well formed\<close>

lemma MakeFileInfo_wf:
  assumes "MakeFileInfo os p rc = Inr fi" shows "wf_info fi"
  using MakeFileInfo_InrD [OF assms] MakeFileInfo_owner [OF assms] by (auto simp: wf_info_def)

lemma MakeChangedRootFileInfo_wf:
  assumes "fst (MakeChangedRootFileInfo os c root p rc) = Inr fi" shows "wf_info fi"
  using assms MakeFileInfo_wf [of os "path_Join [root, p]" rc]
  by (auto simp: MakeChangedRootFileInfo_def wf_info_def split: sum.splits prod.splits)

lemma makeChangedRootFileInfoVerbose_wf [wf_rules]: "wf_opt (fst (makeChangedRootFileInfoVerbose os c root p rc))"
  using MakeChangedRootFileInfo_wf [of os c root p rc]
  by (auto simp: makeChangedRootFileInfoVerbose_def split: prod.splits sum.splits)

lemma makeHostFileInfoVerbose_wf [wf_rules]: "wf_opt (fst (makeHostFileInfoVerbose os c p rc))"
  by (simp add: makeHostFileInfoVerbose_def wf_rules)

lemma makeContaineredFileInfoVerbose_wf [wf_rules]: "wf_opt (fst (makeContaineredFileInfoVerbose os c pr p rc))"
  by (simp add: makeContaineredFileInfoVerbose_def wf_rules)

lemma makeContaineredFileInfoFromListVerbose_wf [wf_rules]:
  "wf_opt (fst (makeContaineredFileInfoFromListVerbose os c pr ps rc))"
proof (induction ps arbitrary: c)
  case (Cons p ps)
  have "wf_opt (fst (makeChangedRootFileInfoVerbose os c (RootDir pr) p rc))" by (rule wf_rules)
  with Cons.IH show ?case by (auto split: prod.splits option.splits)
qed simp


subsection \<open>The directory walk\<close>

lemma record_entry_wf: "wf_infos (fst s) \<Longrightarrow> wf_infos (fst (record_entry os p st s))"
  using makeHostFileInfoVerbose_wf [of os "snd s" p False]
  by (auto simp: record_entry_def split: prod.splits option.splits)

lemma makeHostDirFilesInfoVerbose_wf:
  assumes "makeHostDirFilesInfoVerbose fuel os r dir level s = Some (ret, s')" "wf_infos (fst s)"
  shows "wf_infos (fst s') \<and> wf_infos (fst ret)"
  using assms
proof (induction fuel arbitrary: dir level s ret s')
  case (Suc fuel)
  let ?body = "visit_entry (makeHostDirFilesInfoVerbose fuel os r) os dir r level"
  have body: "wf_infos (fst s')" if "wf_infos (fst s)" "?body s n = Inr s'" for s n s'
    using that Suc.IH [of "path_Join [dir, n]" "level + 1" s] record_entry_wf
    by (cases s) (auto simp: visit_entry_def Let_def split: sum.splits if_splits option.splits)
  show ?case
  proof (cases "os_Open os (HostPath dir)")
    case (Inr h)
    have "wf_infos (fst t)" if "loop_list ?body s ns = Inr t" for ns t
      using loop_list_invariant [OF that, of "\<lambda>s. wf_infos (fst s)"] body Suc.prems(2) by blast
    with Inr Suc.prems show ?thesis
      by (auto simp: dir_stream_def readdir_loop_listed split: sum.splits)
  qed (use Suc.prems in auto)
qed simp

lemma host_dir_files_wf [wf_rules]: "wf_infos (fst (fst (host_dir_files os c dir)))"
  using makeHostDirFilesInfoVerbose_wf [of maxRecursionDepth os True dir 0 "([], c)"]
  by (auto simp: host_dir_files_def split: option.splits prod.splits)


subsection \<open>The sensors\<close>

lemma append_host_infos_wf [wf_rules]: "wf_infos (fst (append_host_infos os c files))"
proof (induction files arbitrary: c)
  case (Cons f files)
  have "wf_opt (fst (makeHostFileInfoVerbose os c f False))" by (rule wf_rules)
  with Cons.IH show ?case by (auto simp: split_beta split: option.splits)
qed simp

lemma makeKubeletServiceFilesInfo_wf [wf_rules]: "wf_infos (fst (makeKubeletServiceFilesInfo os u c pid))"
  by (simp add: makeKubeletServiceFilesInfo_def wf_rules split: sum.split)

lemma info_by_arg_or_defaults_wf [wf_rules]: "wf_opt (fst (info_by_arg_or_defaults os c p arg ds))"
  by (simp add: info_by_arg_or_defaults_def wf_rules split: prod.split)

lemma SenseKubeletInfo_wf: "wf_kubelet (fst (fst (SenseKubeletInfo os u ca c)))"
  by (simp add: SenseKubeletInfo_def wf_kubelet_def empty_KubeletInfo_def Let_def split_beta wf_rules
      split: sum.split)

lemma SenseKubeProxyInfo_wf: "wf_opt (ProxyKubeConfigFile (fst (fst (SenseKubeProxyInfo os c))))"
  by (simp add: SenseKubeProxyInfo_def split_beta wf_rules split: sum.split)

lemma SenseCNIInfo_wf: "wf_infos (CNIConfigFiles (fst (fst (SenseCNIInfo os toml c))))"
  by (simp add: SenseCNIInfo_def makeCNIConfigFilesInfo_def Let_def split_beta wf_rules
      split: sum.split option.split)

lemma optional_host_info_wf [wf_rules]: "wf_opt (fst (optional_host_info os c p))"
  by (simp add: optional_host_info_def wf_rules)

lemma makeProcessInfoVerbose_wf [wf_rules]:
  "pred_option wf_process (fst (makeProcessInfoVerbose os c p a b d e))"
  by (simp add: makeProcessInfoVerbose_def Let_def split_beta wf_process_def wf_rules)

lemma wf_info_content [simp]: "wf_info (fi\<lparr>Content := b\<rparr>) = wf_info fi"
  by (simp add: wf_info_def)

lemma encryption_file_wf [wf_rules]:
  "wf_opt (fst (makeAPIserverEncryptionProviderConfigFile os yu ju ym c p))"
proof -
  have "MakeContaineredFileInfo os c p q True = (Inr fi, c') \<Longrightarrow> wf_info fi" for q fi c'
    using MakeChangedRootFileInfo_wf [of os c "RootDir p" q True fi] by (simp add: MakeContaineredFileInfo_def)
  then show ?thesis
    by (auto simp: makeAPIserverEncryptionProviderConfigFile_def Let_def
        split: prod.splits sum.splits option.splits)
qed

lemma audit_file_wf [wf_rules]: "wf_opt (fst (makeAPIserverAuditPolicyFile os c p))"
  by (simp add: makeAPIserverAuditPolicyFile_def split_beta wf_rules)

lemma api_server_info_wf [wf_rules]: "pred_option wf_api_server (fst (api_server_info os cs c))"
  by (simp add: api_server_info_def wf_api_server_def split_beta wf_rules split: sum.split)

lemma component_info_wf [wf_rules]: "pred_option wf_process (fst (component_info os c exe a b))"
  by (simp add: component_info_def wf_rules split: sum.split)

lemma etcd_data_info_wf [wf_rules]: "wf_opt (fst (etcd_data_info os c))"
  by (simp add: etcd_data_info_def wf_rules split: sum.split)

lemma SenseControlPlaneInfo_wf:
  assumes "fst (SenseControlPlaneInfo os cs c) = Inr i" shows "wf_control_plane i"
  using assms
  by (simp add: SenseControlPlaneInfo_def split_beta split: if_split_asm)
    (drule sym, simp add: wf_control_plane_def wf_rules)

end
