(* ===== verification/Http_Server.thy ===== *)
theory Http_Server
  imports Report_Types
begin

text \<open>
  The HTTP side: \<open>httphandlers.go\<close>, the routing and the middleware of \<open>sensor.go\<close>, and the
  error type of \<open>sensor/error.go\<close>.

  A response writer is the header map being edited, the status and the copy of the headers that
  went out with it, and the body.  The writer that the logging filter of \<open>sensor.go\<close> hands on copies
  what is written; \<open>resBody\<close> is its copy, and \<open>None\<close> for a writer without one.  The wrappers of the
  telemetry and router packages pass everything through.  An operation that panics is \<open>None\<close>; the
  reply of a handler tells a panic from a walk that the fuel of the model did not suffice for.
\<close>

subsection \<open>The response writer\<close>

record response =
  r_header :: "(string \<times> string) list"
  r_status :: "int option"
  r_sent :: "(string \<times> string) list"
  r_body :: bytes
  resBody :: "bytes option"

definition new_response :: response where
  "new_response = \<lparr>r_header = [], r_status = None, r_sent = [], r_body = [], resBody = None\<rparr>"

definition header_Set :: "string \<Rightarrow> string \<Rightarrow> response \<Rightarrow> response" where
  "header_Set k v w = w\<lparr>r_header := map_set k v (r_header w)\<rparr>"

text \<open>
  The first call sends the headers as they are; later ones are ignored.  Informational codes do
  not count as the header, and a code that is no status panics.
\<close>

definition WriteHeader :: "int \<Rightarrow> response \<Rightarrow> response option" where
  "WriteHeader code w =
     (if r_status w \<noteq> None then Some w
      else if code < 100 \<or> code > 999 then None
      else if code \<le> 199 \<and> code \<noteq> 101 then Some w
      else Some (w\<lparr>r_status := Some code, r_sent := r_header w\<rparr>))"

definition body_allowed :: "int \<Rightarrow> bool" where
  "body_allowed code \<longleftrightarrow> \<not> (100 \<le> code \<and> code \<le> 199) \<and> code \<noteq> 204 \<and> code \<noteq> 304"

definition ResponseWriter_Write :: "bytes \<Rightarrow> response \<Rightarrow> response option" where
  "ResponseWriter_Write b w =
     Option.bind (if r_status w = None then WriteHeader 200 w else Some w)
       (\<lambda>w. Some (case r_status w of
          Some code \<Rightarrow> if body_allowed code then w\<lparr>r_body := r_body w @ b\<rparr> else w
        | None \<Rightarrow> w))"

text \<open>\<open>bodyLogWriter.Write\<close>: the copy, then the writer below.\<close>

definition blw_Write :: "bytes \<Rightarrow> bytes \<Rightarrow> response \<Rightarrow> response option" where
  "blw_Write b copy w = ResponseWriter_Write b (w\<lparr>resBody := Some (copy @ b)\<rparr>)"

definition Write_body :: "bytes \<Rightarrow> response \<Rightarrow> response option" where
  "Write_body b w = (case resBody w of None \<Rightarrow> ResponseWriter_Write b w | Some copy \<Rightarrow> blw_Write b copy w)"

definition http_Error :: "string \<Rightarrow> int \<Rightarrow> response \<Rightarrow> response option" where
  "http_Error msg code w =
     Option.bind
       (WriteHeader code
          (header_Set ''X-Content-Type-Options'' ''nosniff''
             (header_Set ''Content-Type'' ''text/plain; charset=utf-8'' w)))
       (Write_body (msg @ [NL]))"


subsection \<open>SenseError\<close>

text \<open>\<open>(*SenseError).Is\<close>: the message and the code decide.\<close>

fun SenseError_Is :: "goerr \<Rightarrow> goerr \<Rightarrow> bool" where
  "SenseError_Is (SenseError e1 m1 f1 c1) (SenseError e2 m2 f2 c2) \<longleftrightarrow> m1 = m2 \<and> c1 = c2"
| "SenseError_Is _ _ \<longleftrightarrow> False"

fun SenseError_Unwrap :: "goerr \<Rightarrow> goerr option" where
  "SenseError_Unwrap (SenseError e m f c) = e"
| "SenseError_Unwrap _ = None"


subsection \<open>GenericSensorHandler\<close>

definition json_Encode :: "bytes result \<Rightarrow> response \<Rightarrow> response option" where
  "json_Encode encoded w =
     (case encoded of Inl err \<Rightarrow> Some w | Inr b \<Rightarrow> Write_body (b @ [NL]) w)"

text \<open>
  \<open>enc\<close> encodes the content and \<open>enc_err\<close> a \<open>*SenseError\<close>, without the newline that the encoder
  appends.  Only an error that is itself a \<open>*SenseError\<close> is treated as one.
\<close>

definition GenericSensorHandler ::
  "('v \<Rightarrow> bytes result) \<Rightarrow> (goerr \<Rightarrow> bytes result) \<Rightarrow> response \<Rightarrow> 'v \<Rightarrow> goerr option \<Rightarrow> string \<Rightarrow>
     response option" where
  "GenericSensorHandler enc enc_err w respContent respErr senseName =
     (case respErr of
        None \<Rightarrow> Option.bind (WriteHeader 200 w) (json_Encode (enc respContent))
      | Some e \<Rightarrow>
          (case e of
             SenseError _ _ _ code \<Rightarrow>
               Option.bind (WriteHeader code w) (json_Encode (enc_err e))
           | _ \<Rightarrow> http_Error (''failed to '' @ senseName @ '': '' @ err_text e) 500 w))"


subsection \<open>Probes\<close>

definition healthzHandler :: "response \<Rightarrow> response option" where
  "healthzHandler w =
     Option.bind (WriteHeader 200 w)
       (\<lambda>w. Write_body (''{'' @ [CHR 0x22] @ ''alive'' @ [CHR 0x22] @ '': true}'') (header_Set ''Content-Type'' ''application/json'' w))"

text \<open>\<open>isReady\<close> is \<open>None\<close> for the nil pointer.\<close>

definition readyzHandler :: "bool option \<Rightarrow> response \<Rightarrow> response option" where
  "readyzHandler isReady w =
     (if isReady \<noteq> Some True then http_Error ''Service Unavailable'' 503 w
      else Option.bind (WriteHeader 200 w)
        (\<lambda>w. Write_body (''{'' @ [CHR 0x22] @ ''ready'' @ [CHR 0x22] @ '': true}'') (header_Set ''Content-Type'' ''application/json'' w)))"



subsection \<open>The server\<close>

text \<open>What a handler comes to.\<close>

datatype stop = Panics | Unfinished

type_synonym reply = "stop + response"

definition returned :: "response option \<Rightarrow> reply" where
  "returned r = (case r of None \<Rightarrow> Inl Panics | Some w \<Rightarrow> Inr w)"

lemma returned_simps [simp]:
  "returned None = Inl Panics" "returned (Some w) = Inr w"
  "returned r = Inr w \<longleftrightarrow> r = Some w" "returned r \<noteq> Inl Unfinished" "Inl Unfinished \<noteq> returned r"
  by (cases r; simp add: returned_def)+

text \<open>
  What the outside gives to a request: the host, the third-party decoders and clients, the fuel
  of the kernel walk, and the JSON of a connection, which is a third-party struct.
\<close>

record 'c env =
  e_os :: os_view
  e_toml :: toml_decoder
  e_unit :: "32 word \<Rightarrow> string result"
  e_ca :: "bytes \<Rightarrow> string result"
  e_codecs :: codecs
  e_http :: "string \<Rightarrow> (string \<times> string) list \<Rightarrow> int result"
  e_ports :: "bytes \<Rightarrow> 'c list"
  e_fuel :: nat
  e_conn :: "'c \<Rightarrow> json result"

text \<open>The encoders of the sensors' results; only the third-party part of a port list can fail.\<close>

definition json_bytes :: "('a \<Rightarrow> json) \<Rightarrow> 'a \<Rightarrow> bytes result" where
  "json_bytes f x = Inr (json_text (f x))"

definition json_error :: "goerr \<Rightarrow> bytes result" where
  "json_error = json_bytes json_of_SenseError"

definition json_open_ports :: "('c \<Rightarrow> json result) \<Rightarrow> 'c OpenPortsStatus option \<Rightarrow> bytes result" where
  "json_open_ports conn status =
     (case status of
        None \<Rightarrow> Inr (json_text JNull)
      | Some s \<Rightarrow> (case json_of_OpenPortsStatus conn s of Inl err \<Rightarrow> Inl err | Inr v \<Rightarrow> Inr (json_text v)))"

text \<open>The variables of the process: the version, the readiness flag and the name cache.\<close>

record server =
  BuildVersion :: string
  isReady :: bool
  nameCache :: userGroupCache

datatype handler =
    Healthz | Readyz | OsRelease | KernelVersion | Hardening | OpenedPorts | KernelVariables
  | KubeletInfo_H | KubeProxy_H | ControlPlane_H | CloudProvider_H | Version_H | CNI_H

text \<open>The handlers can be enumerated, so a claim about all of them is decided by evaluation.\<close>

instantiation handler :: enum
begin

definition enum_handler :: "handler list" where
  "enum_handler =
     [Healthz, Readyz, OsRelease, KernelVersion, Hardening, OpenedPorts, KernelVariables,
      KubeletInfo_H, KubeProxy_H, ControlPlane_H, CloudProvider_H, Version_H, CNI_H]"

definition enum_all_handler :: "(handler \<Rightarrow> bool) \<Rightarrow> bool" where
  "enum_all_handler P = list_all P enum_class.enum"

definition enum_ex_handler :: "(handler \<Rightarrow> bool) \<Rightarrow> bool" where
  "enum_ex_handler P = list_ex P enum_class.enum"

instance
proof
  show univ: "(UNIV :: handler set) = set enum_class.enum"
    by (auto simp: enum_handler_def intro: handler.exhaust)
  show "distinct (enum_class.enum :: handler list)" by (simp add: enum_handler_def)
  show "enum_class.enum_all P = Ball UNIV P" for P :: "handler \<Rightarrow> bool"
    by (simp add: enum_all_handler_def list_all_iff univ)
  show "enum_class.enum_ex P = Bex UNIV P" for P :: "handler \<Rightarrow> bool"
    by (simp add: enum_ex_handler_def list_ex_iff univ)
qed

end

definition healthzEP :: string where "healthzEP = ''/healthz''"
definition readyzEP :: string where "readyzEP = ''/readyz''"

text \<open>\<open>initHTTPHandlers\<close>.\<close>

definition routes :: "(string \<times> handler) list" where
  "routes =
     [(healthzEP, Healthz), (readyzEP, Readyz),
      (''/osrelease'', OsRelease), (''/kernelversion'', KernelVersion),
      (''/linuxsecurityhardening'', Hardening), (''/openedports'', OpenedPorts),
      (''/linuxkernelvariables'', KernelVariables), (''/kubeletinfo'', KubeletInfo_H),
      (''/kubeproxyinfo'', KubeProxy_H), (''/controlplaneinfo'', ControlPlane_H),
      (''/cloudproviderinfo'', CloudProvider_H), (''/version'', Version_H), (''/cniinfo'', CNI_H)]"

text \<open>\<open>versionHandler\<close> changes the global it reads.\<close>

definition versionHandler ::
  "(string \<Rightarrow> bytes result) \<Rightarrow> (goerr \<Rightarrow> bytes result) \<Rightarrow> string \<Rightarrow> response \<Rightarrow>
     response option \<times> string" where
  "versionHandler enc enc_err version w =
     (let (err, version') =
        (if version = [] then (Some (ErrText ''host scanner BuildVersion is empty''), ''unknown'')
         else (None, version))
      in (GenericSensorHandler enc enc_err w version' err ''VersionHandler'', version'))"

text \<open>\<open>osReleaseHandler\<close> and \<open>kernelVersionHandler\<close>: the file as it is.\<close>

definition raw_handler :: "string \<Rightarrow> response \<Rightarrow> bytes result \<Rightarrow> response option" where
  "raw_handler prefix_text w fileContent =
     (case fileContent of
        Inl err \<Rightarrow> http_Error (prefix_text @ err_text err) 500 w
      | Inr content \<Rightarrow> Option.bind (WriteHeader 200 w) (Write_body content))"

definition osReleaseHandler :: "os_view \<Rightarrow> response \<Rightarrow> response option" where
  "osReleaseHandler os w = raw_handler ''failed to SenseOsRelease: '' w (SenseOsRelease os)"

definition kernelVersionHandler :: "os_view \<Rightarrow> response \<Rightarrow> response option" where
  "kernelVersionHandler os w =
     raw_handler ''failed to sense kernelVersionHandler: '' w (SenseKernelVersion os)"

text \<open>The walk panics itself; fuel that does not suffice is an end that the program does not have.\<close>

definition LinuxKernelVariablesHandler ::
  "(KernelVariable list \<Rightarrow> bytes result) \<Rightarrow> (goerr \<Rightarrow> bytes result) \<Rightarrow> nat \<Rightarrow> os_view \<Rightarrow> response \<Rightarrow>
     reply" where
  "LinuxKernelVariablesHandler enc enc_err fuel os w =
     (case SenseKernelVariables fuel os of
        Inr vars \<Rightarrow> returned (GenericSensorHandler enc enc_err w vars None ''SenseKernelVariables'')
      | Inl (WalkErr e) \<Rightarrow> returned (GenericSensorHandler enc enc_err w [] (Some e) ''SenseKernelVariables'')
      | Inl WalkPanic \<Rightarrow> Inl Panics
      | Inl WalkFuel \<Rightarrow> Inl Unfinished)"

definition err_of :: "'a result \<Rightarrow> goerr option" where
  "err_of r = (case r of Inl err \<Rightarrow> Some err | Inr _ \<Rightarrow> None)"

text \<open>
  The handlers of the sensors: the sensor, then the generic handler.
\<close>

definition serve :: "'c env \<Rightarrow> server \<Rightarrow> handler \<Rightarrow> response \<Rightarrow> reply \<times> server" where
  "serve e s h w =
     (case h of
        Healthz \<Rightarrow> (returned (healthzHandler w), s)
      | Readyz \<Rightarrow> (returned (readyzHandler (Some (isReady s)) w), s)
      | OsRelease \<Rightarrow> (returned (osReleaseHandler (e_os e) w), s)
      | KernelVersion \<Rightarrow> (returned (kernelVersionHandler (e_os e) w), s)
      | Hardening \<Rightarrow>
          (returned (GenericSensorHandler (json_bytes (json_pointer json_of_Hardening)) json_error w
             (to_option (SenseLinuxSecurityHardening (e_os e))) (err_of (SenseLinuxSecurityHardening (e_os e)))
             ''sense linuxSecurityHardeningHandler''), s)
      | OpenedPorts \<Rightarrow>
          (returned (GenericSensorHandler (json_open_ports (e_conn e)) json_error w
             (to_option (SenseOpenPorts (e_os e) (e_ports e))) (err_of (SenseOpenPorts (e_os e) (e_ports e)))
             ''SenseOpenPorts''), s)
      | KernelVariables \<Rightarrow>
          (LinuxKernelVariablesHandler (json_bytes (\<lambda>vars. JArr (map json_of_KernelVariable vars))) json_error (e_fuel e) (e_os e) w, s)
      | KubeletInfo_H \<Rightarrow>
          (case SenseKubeletInfo (e_os e) (e_unit e) (e_ca e) (nameCache s) of
             ((resp, err), c) \<Rightarrow>
               (returned (GenericSensorHandler (json_bytes json_of_KubeletInfo) json_error w resp err ''SenseKubeletInfo''),
                s\<lparr>nameCache := c\<rparr>))
      | KubeProxy_H \<Rightarrow>
          (case SenseKubeProxyInfo (e_os e) (nameCache s) of
             ((resp, err), c) \<Rightarrow>
               (returned (GenericSensorHandler (json_bytes json_of_KubeProxyInfo) json_error w resp err ''SenseKubeProxyInfo''),
                s\<lparr>nameCache := c\<rparr>))
      | ControlPlane_H \<Rightarrow>
          (case SenseControlPlaneInfo (e_os e) (e_codecs e) (nameCache s) of
             (resp, c) \<Rightarrow>
               (returned (GenericSensorHandler (json_bytes (json_pointer json_of_ControlPlaneInfo)) json_error w (to_option resp)
                  (err_of resp) ''SenseControlPlaneInfo''),
                s\<lparr>nameCache := c\<rparr>))
      | CloudProvider_H \<Rightarrow>
          (returned (GenericSensorHandler (json_bytes (json_pointer json_of_CloudProviderInfo)) json_error w
             (to_option (SenseCloudProviderInfo (e_http e))) (err_of (SenseCloudProviderInfo (e_http e)))
             ''SenseCloudProviderInfo''), s)
      | Version_H \<Rightarrow>
          (case versionHandler (json_bytes JStr) json_error (BuildVersion s) w of
             (r, v) \<Rightarrow> (returned r, s\<lparr>BuildVersion := v\<rparr>))
      | CNI_H \<Rightarrow>
          (case SenseCNIInfo (e_os e) (e_toml e) (nameCache s) of
             ((resp, err), c) \<Rightarrow>
               (returned (GenericSensorHandler (json_bytes json_of_CNIInfo) json_error w resp err ''SenseCNIInfo''),
                s\<lparr>nameCache := c\<rparr>)))"


subsection \<open>Routing\<close>

text \<open>\<open>strings.ToLower\<close>; \<open>uni\<close> maps a string that is not all ASCII.\<close>

definition lower_char :: "char \<Rightarrow> char" where
  "lower_char c =
     (if 65 \<le> (of_char c :: nat) \<and> (of_char c :: nat) \<le> 90 then char_of ((of_char c :: nat) + 32) else c)"

definition strings_ToLower :: "(string \<Rightarrow> string) \<Rightarrow> string \<Rightarrow> string" where
  "strings_ToLower uni s =
     (if \<forall>c \<in> set s. (of_char c :: nat) < 128 then map lower_char s else uni s)"

text \<open>\<open>CaselessMatcher\<close>: the path the rest of the chain sees.\<close>

definition CaselessMatcher :: "(string \<Rightarrow> string) \<Rightarrow> string \<Rightarrow> string" where
  "CaselessMatcher uni path = strings_ToLower uni path"

text \<open>
  The default mux, on patterns without a trailing slash: an unclean path is redirected to the
  clean one, a clean path is looked up as it is.
\<close>

definition cleanPath :: "string \<Rightarrow> string" where
  "cleanPath p =
     (if p = [] then ''/''
      else let p = (if hd p \<noteq> slash then slash # p else p);
               np = path_Clean p
           in if last p = slash \<and> np \<noteq> ''/'' then np @ ''/'' else np)"

datatype dispatch = Handle handler | Redirect string | NotFound

definition mux_dispatch :: "string \<Rightarrow> dispatch" where
  "mux_dispatch path =
     (if cleanPath path \<noteq> path then Redirect (cleanPath path)
      else case map_of routes path of Some h \<Rightarrow> Handle h | None \<Rightarrow> NotFound)"

text \<open>The filter of the telemetry wrapper.\<close>

definition filteredEndPoints :: "string list" where "filteredEndPoints = [healthzEP, readyzEP]"

fun traced :: "string list \<Rightarrow> string \<Rightarrow> bool" where
  "traced [] path = True"
| "traced (f # fs) path = (if path = f then False else traced fs path)"


subsection \<open>Histories\<close>

text \<open>
  \<open>setupReadyz\<close> stores false and starts a goroutine that stores true; requests come at any time
  before and after.
\<close>

datatype 'c event = GoReady | Request "'c env" handler

definition start_server :: "string \<Rightarrow> server" where
  "start_server version = \<lparr>BuildVersion = version, isReady = False, nameCache = Map.empty\<rparr>"

fun server_step :: "server \<Rightarrow> 'c event \<Rightarrow> reply list \<times> server" where
  "server_step s GoReady = ([], s\<lparr>isReady := True\<rparr>)"
| "server_step s (Request e h) = (case serve e s h new_response of (r, s') \<Rightarrow> ([r], s'))"

fun server_run :: "server \<Rightarrow> 'c event list \<Rightarrow> reply list \<times> server" where
  "server_run s [] = ([], s)"
| "server_run s (ev # evs) =
     (case server_step s ev of (rs, s') \<Rightarrow> (case server_run s' evs of (rs', s'') \<Rightarrow> (rs @ rs', s'')))"

subsection \<open>Facts about replies\<close>

lemma WriteHeader_new [simp]:
  "200 \<le> code \<Longrightarrow> code \<le> 999 \<Longrightarrow>
     WriteHeader code w = (if r_status w = None then Some (w\<lparr>r_status := Some code, r_sent := r_header w\<rparr>)
       else Some w)"
  by (simp add: WriteHeader_def)

lemmas write_defs = Write_body_def blw_Write_def ResponseWriter_Write_def

lemma Write_body_status: "r_status w = Some c \<Longrightarrow> \<exists>w'. Write_body b w = Some w' \<and> r_status w' = Some c"
  by (simp add: write_defs split: option.split)

lemma json_Encode_status: "r_status w = Some c \<Longrightarrow> \<exists>w'. json_Encode r w = Some w' \<and> r_status w' = Some c"
  by (cases r) (simp_all add: json_Encode_def Write_body_status)

lemma http_Error_status:
  "200 \<le> code \<Longrightarrow> code \<le> 999 \<Longrightarrow> r_status w = None \<Longrightarrow>
     \<exists>w'. http_Error msg code w = Some w' \<and> r_status w' = Some code"
  by (simp add: http_Error_def header_Set_def Write_body_status)

text \<open>The status an error becomes.\<close>

fun error_status :: "goerr \<Rightarrow> int" where
  "error_status (SenseError e m f code) = code"
| "error_status _ = 500"

lemma generic_status_None:
  "r_status w = None \<Longrightarrow>
     \<exists>w'. GenericSensorHandler enc enc_err w resp None name = Some w' \<and> r_status w' = Some 200"
  by (simp add: GenericSensorHandler_def json_Encode_status)

lemma generic_status_Some:
  assumes "r_status w = None" "200 \<le> error_status e" "error_status e \<le> 999"
  shows "\<exists>w'. GenericSensorHandler enc enc_err w resp (Some e) name = Some w' \<and>
    r_status w' = Some (error_status e)"
  using assms by (cases e) (simp_all add: GenericSensorHandler_def json_Encode_status http_Error_status)

lemma new_response_simps [simp]:
  "r_status new_response = None" "resBody new_response = None" "r_body new_response = []"
  by (simp_all add: new_response_def)


lemma isReady_serve [simp]: "isReady (snd (serve e s h w)) = isReady s"
  by (cases h) (simp_all add: serve_def split: prod.split)

lemma serve_Readyz: "serve e s Readyz w = (returned (readyzHandler (Some (isReady s)) w), s)"
  by (simp add: serve_def)

text \<open>The sensors whose error is none or the one of status 200.\<close>

lemma SenseControlPlaneInfo_error:
  "fst (SenseControlPlaneInfo os cs c) = Inl e \<Longrightarrow> e = not_control_plane"
  by (auto simp: SenseControlPlaneInfo_def split: prod.splits if_splits)

lemma SenseCNIInfo_no_error: "snd (fst (SenseCNIInfo os toml c)) = None"
  by (simp add: SenseCNIInfo_def split: prod.split)

definition succeeds :: "reply \<Rightarrow> bool" where
  "succeeds r \<longleftrightarrow> (\<exists>w. r = Inr w \<and> r_status w = Some 200)"

lemma succeeds_generic:
  "err = None \<or> err = Some not_control_plane \<Longrightarrow> r_status w = None \<Longrightarrow>
     succeeds (returned (GenericSensorHandler enc enc_err w resp err name))"
  using generic_status_None [of w enc enc_err resp name]
    generic_status_Some [of w not_control_plane enc enc_err resp name]
  by (auto simp: succeeds_def not_control_plane_def)

lemma err_of_control_plane: "err_of (fst (SenseControlPlaneInfo os cs c)) \<in> {None, Some not_control_plane}"
  by (cases "fst (SenseControlPlaneInfo os cs c)") (auto simp: err_of_def dest: SenseControlPlaneInfo_error)


lemma serve_succeeds:
  assumes "h \<in> {ControlPlane_H, CNI_H, Hardening, OpenedPorts, CloudProvider_H}" "r_status w = None"
  shows "succeeds (fst (serve e s h w))"
  using assms err_of_control_plane [of "e_os e" "e_codecs e" "nameCache s"]
    SenseCNIInfo_no_error [of "e_os e" "e_toml e" "nameCache s"]
  by (auto simp: serve_def err_of_def SenseLinuxSecurityHardening_def SenseOpenPorts_def
      SenseCloudProviderInfo_def Let_def split: prod.split sum.splits intro!: succeeds_generic)

lemma readyz_status:
  assumes "r_status w = None"
  shows "\<exists>w'. readyzHandler (Some b) w = Some w' \<and> r_status w' = Some (if b then 200 else 503)"
proof (cases b)
  case True
  then show ?thesis using assms by (simp add: readyzHandler_def write_defs body_allowed_def header_Set_def split: option.split)
next
  case False
  then show ?thesis using assms http_Error_status [of 503 w "''Service Unavailable''"]
    by (simp add: readyzHandler_def)
qed


subsection \<open>Properties\<close>

text \<open>
  C32: a sensor's reply has status 200 and the encoded result for a result, the code of a
  \<open>SenseError\<close> and the encoded error for one, and status 500 with a text for every other error; it
  never panics for codes from 200 to 999.  A value that cannot be encoded, and a code that
  allows no body, give an empty one.
\<close>

theorem sensor_reply_status:
  assumes "\<forall>e. err = Some e \<longrightarrow> 200 \<le> error_status e \<and> error_status e \<le> 999"
  shows "\<exists>w. GenericSensorHandler enc enc_err new_response resp err name = Some w \<and>
    r_status w = Some (case err of None \<Rightarrow> 200 | Some e \<Rightarrow> error_status e) \<and>
    r_body w =
      (case err of
         None \<Rightarrow> (case enc resp of Inl _ \<Rightarrow> [] | Inr b \<Rightarrow> b @ [NL])
       | Some e \<Rightarrow>
           (case e of
              SenseError _ _ _ code \<Rightarrow>
                (case enc_err e of Inl _ \<Rightarrow> [] | Inr b \<Rightarrow> if code \<in> {204, 304} then [] else b @ [NL])
            | _ \<Rightarrow> ''failed to '' @ name @ '': '' @ err_text e @ [NL]))"
  using assms
  by (cases err)
    (auto simp: GenericSensorHandler_def json_Encode_def http_Error_def header_Set_def write_defs body_allowed_def
      split: sum.split goerr.split)

lemma sensor_reply_status_witness:
  "\<exists>w. GenericSensorHandler (\<lambda>_ :: unit. Inl EOF) (\<lambda>_. Inr ''{}'') new_response ()
     (Some (SenseError None ''not a control plane node'' ''f'' 200)) ''x'' = Some w \<and> r_status w = Some 200 \<and>
     r_body w = ''{}'' @ [NL]"
  using sensor_reply_status [of "Some (SenseError None ''not a control plane node'' ''f'' 200)"
      "\<lambda>_ :: unit. Inl EOF" "\<lambda>_. Inr ''{}''" "()" "''x''"] by auto

text \<open>
  The probes' content type never reaches the client: it is set after the header went out.
\<close>

theorem probe_content_type_lost:
  "\<exists>w w'. healthzHandler new_response = Some w \<and> readyzHandler (Some True) new_response = Some w' \<and>
    r_status w = Some 200 \<and> r_status w' = Some 200 \<and>
    map_of (r_header w) ''Content-Type'' = Some ''application/json'' \<and> map_of (r_sent w) ''Content-Type'' = None \<and>
    map_of (r_header w') ''Content-Type'' = Some ''application/json'' \<and> map_of (r_sent w') ''Content-Type'' = None"
  by (simp add: healthzHandler_def readyzHandler_def write_defs body_allowed_def header_Set_def
      new_response_def)

text \<open>
  Without a build version the first version request fails with status 500 and every later
  one succeeds with the version \<open>unknown\<close>: the handler overwrites the variable it has just
  complained about.
\<close>

theorem version_error_only_once:
  assumes "BuildVersion s = []"
  shows "\<exists>w. fst (serve e s Version_H new_response) = Inr w \<and> r_status w = Some 500 \<and>
    BuildVersion (snd (serve e s Version_H new_response)) = ''unknown'' \<and>
    (\<exists>w'. fst (serve e' (snd (serve e s Version_H new_response)) Version_H new_response) = Inr w' \<and>
       r_status w' = Some 200)"
proof -
  have first: "serve e s Version_H new_response =
      (returned (GenericSensorHandler (json_bytes JStr) json_error new_response ''unknown''
         (Some (ErrText ''host scanner BuildVersion is empty'')) ''VersionHandler''),
       s\<lparr>BuildVersion := ''unknown''\<rparr>)"
    using assms by (simp add: serve_def versionHandler_def Let_def)
  have second: "fst (serve e' (s\<lparr>BuildVersion := ''unknown''\<rparr>) Version_H new_response) =
      returned (GenericSensorHandler (json_bytes JStr) json_error new_response ''unknown'' None ''VersionHandler'')"
    by (simp add: serve_def versionHandler_def Let_def)
  show ?thesis
    unfolding first fst_conv snd_conv second
    using generic_status_Some [of new_response "ErrText ''host scanner BuildVersion is empty''"
        "json_bytes JStr" json_error "''unknown''" "''VersionHandler''"]
      generic_status_None [of new_response "json_bytes JStr" json_error "''unknown''" "''VersionHandler''"]
    by simp
qed

definition sample_env :: "unit env" where
  "sample_env =
     \<lparr>e_os = host_of [], e_toml = (\<lambda>k f. Inl EOF), e_unit = (\<lambda>_. Inl EOF), e_ca = (\<lambda>_. Inl EOF),
      e_codecs = no_codecs, e_http = (\<lambda>u h. Inl EOF), e_ports = (\<lambda>_. []), e_fuel = 10,
      e_conn = (\<lambda>_. Inr JNull)\<rparr>"

lemma version_error_only_once_witness:
  "\<exists>w. fst (serve sample_env (start_server '''') Version_H new_response) = Inr w \<and> r_status w = Some 500"
proof -
  have "BuildVersion (start_server '''') = []" by (simp add: start_server_def)
  from version_error_only_once [OF this, of sample_env sample_env] show ?thesis by blast
qed

text \<open>
  C33: the reply to the control-plane, CNI, hardening, port and cloud requests has status 200
  whatever goes wrong on the node: also a node that is no control plane answers with success,
  and its error is in the body only.
\<close>

theorem replies_that_always_succeed:
  assumes "h \<in> {ControlPlane_H, CNI_H, Hardening, OpenedPorts, CloudProvider_H}"
  shows "\<exists>w. fst (serve e s h new_response) = Inr w \<and> r_status w = Some 200"
  using serve_succeeds [OF assms, of new_response e s] by (simp add: succeeds_def)

lemma replies_that_always_succeed_witness:
  "\<exists>w. fst (serve sample_env (start_server '''') ControlPlane_H new_response) = Inr w \<and>
     r_status w = Some 200"
  by (rule replies_that_always_succeed) simp

text \<open>
  C34: a request path is handled exactly when its lower-case form is a registered path, and by
  the handler registered for it: every handler can be reached, and in any case.
\<close>

theorem caseless_dispatch:
  assumes "\<forall>c \<in> set p. (of_char c :: nat) < 128"
  shows "(mux_dispatch (CaselessMatcher uni p) = Handle h \<longleftrightarrow> (map lower_char p, h) \<in> set routes) \<and>
    (\<exists>q. mux_dispatch (CaselessMatcher uni q) = Handle h)"
proof
  have lower: "CaselessMatcher uni p = map lower_char p"
    using assms by (simp add: CaselessMatcher_def strings_ToLower_def)
  have "\<forall>r \<in> set (map fst routes). cleanPath r = r" by code_simp
  then have clean: "(r, h) \<in> set routes \<Longrightarrow> cleanPath r = r" for r by force
  have "distinct (map fst routes)" by code_simp
  then have "map_of routes r = Some h \<longleftrightarrow> (r, h) \<in> set routes" for r by simp
  moreover have "mux_dispatch r = Handle h \<longleftrightarrow> cleanPath r = r \<and> map_of routes r = Some h" for r
    by (simp add: mux_dispatch_def split: option.split)
  ultimately show "mux_dispatch (CaselessMatcher uni p) = Handle h \<longleftrightarrow> (map lower_char p, h) \<in> set routes"
    unfolding lower using clean by blast
next
  have all: "\<forall>h. \<exists>r \<in> set routes. mux_dispatch (fst r) = Handle h" by code_simp
  have "\<forall>r \<in> set routes. map lower_char (fst r) = fst r \<and> (\<forall>c \<in> set (fst r). (of_char c :: nat) < 128)"
    by code_simp
  then have "CaselessMatcher uni (fst r) = fst r" if "r \<in> set routes" for r
    using that by (simp add: CaselessMatcher_def strings_ToLower_def)
  with all show "\<exists>q. mux_dispatch (CaselessMatcher uni q) = Handle h" by metis
qed

lemma caseless_dispatch_witness:
  "mux_dispatch (CaselessMatcher id ''/KubeletInfo'') = Handle KubeletInfo_H"
proof -
  have "\<forall>c \<in> set ''/KubeletInfo''. (of_char c :: nat) < 128"
    "(map lower_char ''/KubeletInfo'', KubeletInfo_H) \<in> set routes" by code_simp+
  with caseless_dispatch [of "''/KubeletInfo''" id KubeletInfo_H] show ?thesis by blast
qed

text \<open>
  C35: the readiness probe answers 503 until the goroutine has run and 200 from then on, in every
  history of requests.
\<close>

theorem readiness_is_monotone:
  "\<exists>w. fst (serve e (snd (server_run (start_server v) evs)) Readyz new_response) = Inr w \<and>
     r_status w = Some (if GoReady \<in> set evs then 200 else 503)"
proof -
  have ready: "isReady (snd (server_run s evs)) \<longleftrightarrow> isReady s \<or> GoReady \<in> set evs" for s
  proof (induction evs arbitrary: s)
    case (Cons ev evs)
    have "isReady (snd (server_step s ev)) \<longleftrightarrow> isReady s \<or> ev = GoReady"
    proof (cases ev)
      case (Request e h)
      then show ?thesis using isReady_serve [of e s h new_response]
        by (cases "serve e s h new_response") simp
    qed simp
    moreover obtain rs s' where step: "server_step s ev = (rs, s')" by fastforce
    moreover have "snd (server_run s (ev # evs)) = snd (server_run s' evs)"
      using step by (simp split: prod.split)
    ultimately show ?case using Cons.IH [of s'] by auto
  qed simp
  have flag: "isReady (snd (server_run (start_server v) evs)) = (GoReady \<in> set evs)"
    unfolding ready by (simp add: start_server_def)
  show ?thesis unfolding serve_Readyz fst_conv flag returned_simps by (rule readyz_status) simp
qed

end
