(* ===== verification/Reply_Contents.thy ===== *)
theory Reply_Contents
  imports Http_Server
begin

text \<open>
  What the clients of the scanner get: the body of a reply of status 200, read as JSON, has the
  shape of its endpoint, and the reports of the kubelet and the control plane are read back as
  the sensors made them.
\<close>

subsection \<open>Bodies\<close>

lemma generic_body_None:
  assumes "GenericSensorHandler enc enc_err new_response resp None name = Some w" "enc resp = Inr b"
  shows "r_status w = Some 200 \<and> r_body w = b @ [NL]"
  using assms by (auto simp: GenericSensorHandler_def json_Encode_def write_defs body_allowed_def new_response_def)

lemma generic_body_SenseError:
  assumes "GenericSensorHandler enc enc_err new_response resp (Some (SenseError e m f 200)) name = Some w"
    "enc_err (SenseError e m f 200) = Inr b"
  shows "r_status w = Some 200 \<and> r_body w = b @ [NL]"
  using assms by (auto simp: GenericSensorHandler_def json_Encode_def write_defs body_allowed_def new_response_def)

lemma generic_other_error:
  assumes "GenericSensorHandler enc enc_err new_response resp (Some e) name = Some w" "error_status e = 500"
  shows "r_status w = Some 500"
  using assms generic_status_Some [of new_response e enc enc_err resp name] by simp

text \<open>A reply of status 200 carries a document of the given shape.\<close>

definition answers :: "shape \<Rightarrow> reply \<Rightarrow> bool" where
  "answers sh r \<longleftrightarrow>
     (\<forall>w. r = Inr w \<longrightarrow> r_status w = Some 200 \<longrightarrow> (\<exists>v. json_read (r_body w) = Some v \<and> has_shape sh v))"

lemma read_document:
  assumes "has_shape sh v" "plain_keys sh"
  shows "\<exists>u. json_read (json_text v @ [NL]) = Some u \<and> has_shape sh u"
  using assms by (simp add: json_read_text has_shape_valid_text)

lemma answers_value:
  assumes "enc resp = Inr (json_text v)" "has_shape sh v" "plain_keys sh"
  shows "answers sh (returned (GenericSensorHandler enc enc_err new_response resp None name))"
  using assms read_document [OF assms(2,3)] by (auto simp: answers_def dest: generic_body_None)

lemma answers_json:
  "has_shape sh (f resp) \<Longrightarrow> plain_keys sh \<Longrightarrow>
     answers sh (returned (GenericSensorHandler (json_bytes f) enc_err new_response resp None name))"
  by (rule answers_value) (simp_all add: json_bytes_def)

lemma answers_error:
  "error_status e = 500 \<Longrightarrow> answers sh (returned (GenericSensorHandler enc enc_err new_response resp (Some e) name))"
  by (auto simp: answers_def dest: generic_other_error)

lemma answers_SenseError:
  assumes "plain_keys sh" "has_shape sh (json_of_SenseError (SenseError e m f 200))"
  shows "answers sh (returned (GenericSensorHandler enc json_error new_response resp (Some (SenseError e m f 200)) name))"
proof -
  have "json_error (SenseError e m f 200) = Inr (json_text (json_of_SenseError (SenseError e m f 200)))"
    by (simp add: json_error_def json_bytes_def)
  from generic_body_SenseError [where enc_err = json_error and e = e and m = m and f = f, OF _ this] read_document [OF assms(2,1)]
  show ?thesis unfolding answers_def returned_simps by metis
qed


subsection \<open>The interface of a report\<close>

text \<open>
  A type that the handlers write as JSON: the client's decoder reads back what is seen of a value,
  and the document of a well-formed value has a shape.  The replies of every such type follow.
\<close>

locale report_type =
  fixes to_json :: "'a \<Rightarrow> json" and of_json :: "json \<Rightarrow> 'a option" and seen :: "'a \<Rightarrow> 'a"
    and sh :: shape and wf :: "'a \<Rightarrow> bool"
  assumes read_back: "of_json (to_json x) = Some (seen x)"
    and shaped: "wf x \<Longrightarrow> has_shape sh (to_json x)"
    and plain: "plain_keys sh"
begin

lemma reply:
  assumes "enc resp = Inr (json_text (to_json x))" "json_utf8 (to_json x)"
  shows "\<exists>w. GenericSensorHandler enc enc_err new_response resp None name = Some w \<and> r_status w = Some 200 \<and>
    Option.bind (json_read (r_body w)) of_json = Some (seen x)"
proof -
  obtain w where w: "GenericSensorHandler enc enc_err new_response resp None name = Some w"
    using generic_status_None [of new_response] by fastforce
  from generic_body_None [where enc = enc and resp = resp, OF this assms(1)]
  show ?thesis using w assms(2) by (simp add: json_read_text json_valid_text_id read_back)
qed

lemma reply_shaped:
  assumes "enc resp = Inr (json_text (to_json x))" "wf x"
  shows "answers sh (returned (GenericSensorHandler enc enc_err new_response resp None name))"
  using assms shaped plain by (intro answers_value)

lemma reply_or_error:
  assumes "enc resp = Inr (json_text (to_json x))" "wf x" "\<And>e. err = Some e \<Longrightarrow> error_status e = 500"
  shows "answers sh (returned (GenericSensorHandler enc enc_err new_response resp err name))"
  using assms by (cases err) (auto intro: reply_shaped answers_error)

end

interpretation kubelet_report:
  report_type json_of_KubeletInfo client_KubeletInfo seen_KubeletInfo kubelet_shape wf_kubelet
  by unfold_locales (simp_all add: client_KubeletInfo_back kubelet_has_shape report_keys_plain)

interpretation control_plane_report:
  report_type json_of_ControlPlaneInfo client_ControlPlaneInfo seen_ControlPlaneInfo control_plane_shape
    wf_control_plane
  by unfold_locales (simp_all add: client_ControlPlaneInfo_back control_plane_has_shape report_keys_plain)


subsection \<open>The sensors' errors are no SenseErrors\<close>

lemma loop_list_InlD: "loop_list body s xs = Inl r \<Longrightarrow> \<exists>s x. x \<in> set xs \<and> body s x = Inl r"
  by (induction xs arbitrary: s) (fastforce split: sum.splits)+

lemma SenseKernelVariables_error: "SenseKernelVariables fuel os = Inl (WalkErr e) \<Longrightarrow> error_status e = 500"
proof -
  have visit: "visit_var call os dir vs n = Inl (WalkErr e) \<Longrightarrow> error_status e = 500" for call dir vs n
    by (auto simp: visit_var_def Let_def split: sum.splits if_splits walk_exit.splits)
  have "walkVarsDir fuel os dir h = Inl (WalkErr e) \<Longrightarrow> error_status e = 500" for dir h
  proof (cases fuel)
    case (Suc n)
    let ?loop = "loop_list (visit_var (walkVarsDir n os) os dir) [] (listed (\<lambda>ns. ns) (h_names h) (h_list_end h))"
    assume "walkVarsDir fuel os dir h = Inl (WalkErr e)"
    with Suc show ?thesis
      by (cases ?loop) (auto simp: dir_stream_def readdir_loop_listed [where ord = "\<lambda>ns. ns"]
          split: if_splits dest!: loop_list_InlD dest: visit)
  qed simp
  then show "SenseKernelVariables fuel os = Inl (WalkErr e) \<Longrightarrow> error_status e = 500"
    by (auto simp: SenseKernelVariables_def SenseProcSysKernel_def SenseKernelConfs_def split: sum.splits)
qed

lemma SenseKubeletInfo_error:
  "snd (fst (SenseKubeletInfo os u ca c)) = Some e \<Longrightarrow> error_status e = 500"
  by (auto simp: SenseKubeletInfo_def wrap_err_def Let_def split: sum.splits prod.splits)

lemma SenseKubeProxyInfo_error:
  "snd (fst (SenseKubeProxyInfo os c)) = Some e \<Longrightarrow> error_status e = 500"
  by (auto simp: SenseKubeProxyInfo_def wrap_err_def split: sum.splits prod.splits)


subsection \<open>The shape of each reply\<close>

text \<open>The endpoints that answer JSON; a node that is no control plane answers an error object.\<close>

definition reply_shape :: "handler \<Rightarrow> shape option" where
  "reply_shape h =
     (case h of
        KubeletInfo_H \<Rightarrow> Some kubelet_shape
      | KubeProxy_H \<Rightarrow> Some kubeproxy_shape
      | ControlPlane_H \<Rightarrow> Some (SEither control_plane_shape error_shape)
      | CNI_H \<Rightarrow> Some cni_shape
      | Hardening \<Rightarrow> Some hardening_shape
      | OpenedPorts \<Rightarrow> Some ports_shape
      | KernelVariables \<Rightarrow> Some (SList variable_shape)
      | CloudProvider_H \<Rightarrow> Some cloud_shape
      | Version_H \<Rightarrow> Some SString
      | _ \<Rightarrow> None)"

lemma answers_kubelet: "answers kubelet_shape (fst (serve e s KubeletInfo_H new_response))"
proof -
  obtain i err c where sense: "SenseKubeletInfo (e_os e) (e_unit e) (e_ca e) (nameCache s) = ((i, err), c)"
    using prod_cases3 by (metis surj_pair)
  then have "wf_kubelet i" using SenseKubeletInfo_wf by (metis fst_conv)
  moreover have "err = Some e' \<Longrightarrow> error_status e' = 500" for e'
    using SenseKubeletInfo_error sense by (metis fst_conv snd_conv)
  ultimately have "answers kubelet_shape
      (returned (GenericSensorHandler (json_bytes json_of_KubeletInfo) json_error new_response i err ''SenseKubeletInfo''))"
    by (intro kubelet_report.reply_or_error) (simp_all add: json_bytes_def)
  with sense show ?thesis by (simp add: serve_def)
qed

lemma answers_kubeproxy: "answers kubeproxy_shape (fst (serve e s KubeProxy_H new_response))"
proof -
  obtain i err c where sense: "SenseKubeProxyInfo (e_os e) (nameCache s) = ((i, err), c)" by (metis surj_pair)
  then have "wf_opt (ProxyKubeConfigFile i)" using SenseKubeProxyInfo_wf by (metis fst_conv)
  moreover have "err = Some e' \<Longrightarrow> error_status e' = 500" for e'
    using SenseKubeProxyInfo_error sense by (metis fst_conv snd_conv)
  ultimately have "answers kubeproxy_shape
      (returned (GenericSensorHandler (json_bytes json_of_KubeProxyInfo) json_error new_response i err ''SenseKubeProxyInfo''))"
    by (cases err) (auto simp: kubeproxy_has_shape report_keys_plain intro: answers_json answers_error)
  with sense show ?thesis by (simp add: serve_def)
qed

lemma answers_cni: "answers cni_shape (fst (serve e s CNI_H new_response))"
proof -
  obtain i c where sense: "SenseCNIInfo (e_os e) (e_toml e) (nameCache s) = ((i, None), c)"
    using SenseCNIInfo_no_error by (metis surj_pair fst_conv snd_conv)
  then have "has_shape cni_shape (json_of_CNIInfo i)" using SenseCNIInfo_wf cni_has_shape by (metis fst_conv)
  with sense show ?thesis
    by (auto simp: serve_def report_keys_plain intro: answers_json)
qed

lemma answers_control_plane:
  "answers (SEither control_plane_shape error_shape) (fst (serve e s ControlPlane_H new_response))"
proof -
  let ?sh = "SEither control_plane_shape error_shape"
  have plain: "plain_keys ?sh" by (simp add: report_keys_plain)
  obtain r c where sense: "SenseControlPlaneInfo (e_os e) (e_codecs e) (nameCache s) = (r, c)" by fastforce
  have "answers ?sh (returned (GenericSensorHandler (json_bytes (json_pointer json_of_ControlPlaneInfo)) json_error
      new_response (to_option r) (err_of r) ''SenseControlPlaneInfo''))"
  proof (cases r)
    case (Inl x)
    with sense SenseControlPlaneInfo_error [of "e_os e" "e_codecs e" "nameCache s" x]
    have "err_of r = Some (SenseError None ''not a control plane node'' ''SenseControlPlaneInfo'' 200)"
      by (simp add: err_of_def not_control_plane_def)
    moreover have "has_shape ?sh (json_of_SenseError (SenseError e' m f k))" for e' m f k
      using error_has_shape [of e' m f k] by simp
    ultimately show ?thesis using answers_SenseError [OF plain] by simp
  next
    case (Inr i)
    with sense SenseControlPlaneInfo_wf [of "e_os e" "e_codecs e" "nameCache s" i]
    have "has_shape ?sh (json_of_ControlPlaneInfo i)" using control_plane_has_shape by simp
    with Inr plain show ?thesis
      by (auto simp: err_of_def json_pointer_def intro!: answers_json)
  qed
  with sense show ?thesis by (simp add: serve_def)
qed

lemma answers_kernel_variables: "answers (SList variable_shape) (fst (serve e s KernelVariables new_response))"
proof (cases "SenseKernelVariables (e_fuel e) (e_os e)")
  case (Inl x)
  then show ?thesis
    using SenseKernelVariables_error [of "e_fuel e" "e_os e"]
    by (cases x) (auto simp: serve_def LinuxKernelVariablesHandler_def answers_def dest: generic_other_error)
next
  case (Inr vars)
  have "has_shape (SList variable_shape) (JArr (map json_of_KernelVariable vars))"
    by (simp add: variable_has_shape)
  with Inr show ?thesis
    by (auto simp del: has_shape.simps simp: serve_def LinuxKernelVariablesHandler_def report_keys_plain
        intro!: answers_json)
qed

lemma answers_simple:
  "answers hardening_shape (fst (serve e s Hardening new_response))"
  "answers cloud_shape (fst (serve e s CloudProvider_H new_response))"
  by (auto simp: serve_def SenseLinuxSecurityHardening_def SenseCloudProviderInfo_def err_of_def json_pointer_def
      Let_def hardening_has_shape cloud_has_shape report_keys_plain intro!: answers_json)

lemma answers_ports:
  assumes "\<And>c. \<exists>v. e_conn e c = Inr v"
  shows "answers ports_shape (fst (serve e s OpenedPorts new_response))"
proof -
  obtain st where st: "SenseOpenPorts (e_os e) (e_ports e) = Inr st" "TcpPorts st \<noteq> None"
    by (auto simp: SenseOpenPorts_def Let_def split: prod.splits option.splits)
  from ports_have_shape [of "e_conn e", OF assms st(2)] obtain v
    where "json_of_OpenPortsStatus (e_conn e) st = Inr v" "has_shape ports_shape v" by blast
  with st(1) show ?thesis
    by (auto simp: serve_def err_of_def json_open_ports_def report_keys_plain intro!: answers_value)
qed

lemma answers_version: "answers SString (fst (serve e s Version_H new_response))"
  by (auto simp: serve_def versionHandler_def Let_def intro!: answers_json answers_error)

subsection \<open>Properties\<close>

text \<open>
  C3: the body of every JSON reply of status 200 is one document of the shape of its endpoint,
  whatever the state of the host and of the server: required fields are there, no unknown ones,
  permissions are nine bits, owners 32-bit ids or -1, contents base64.
\<close>

theorem sensor_replies_have_their_shape:
  assumes "fst (serve e s h new_response) = Inr w" "r_status w = Some 200" "reply_shape h = Some sh"
    and "h = OpenedPorts \<longrightarrow> (\<forall>c. \<exists>v. e_conn e c = Inr v)"
  shows "\<exists>v. json_read (r_body w) = Some v \<and> has_shape sh v"
proof -
  have "answers sh (fst (serve e s h new_response))"
    using assms(3,4) answers_kubelet answers_kubeproxy answers_cni answers_control_plane
      answers_kernel_variables answers_simple answers_ports [of e] answers_version
    by (cases h) (auto simp: reply_shape_def simp del: has_shape.simps)
  with assms(1,2) show ?thesis by (simp add: answers_def)
qed

lemma sensor_replies_have_their_shape_witness:
  "\<exists>w v. fst (serve sample_env (start_server '''') Hardening new_response) = Inr w \<and>
     json_read (r_body w) = Some v \<and> has_shape hardening_shape v"
proof -
  have "\<exists>w. fst (serve sample_env (start_server '''') Hardening new_response) = Inr w \<and> r_status w = Some 200"
    by (simp add: serve_def err_of_def SenseLinuxSecurityHardening_def Let_def generic_status_None)
  then obtain w where w: "fst (serve sample_env (start_server '''') Hardening new_response) = Inr w"
    "r_status w = Some 200" by blast
  have "reply_shape Hardening = Some hardening_shape" by (simp add: reply_shape_def)
  from sensor_replies_have_their_shape [OF w this] w(1) show ?thesis by blast
qed

text \<open>
  C8: a client that decodes the kubelet's reply gets back what the sensor found, field by field
  and file by file, contents included, when the strings are UTF-8; only an empty content is read
  as none.
\<close>

theorem kubelet_report_roundtrip:
  assumes "SenseKubeletInfo (e_os e) (e_unit e) (e_ca e) (nameCache s) = ((info, None), c)"
    and "json_utf8 (json_of_KubeletInfo info)"
  shows "\<exists>w. fst (serve e s KubeletInfo_H new_response) = Inr w \<and> r_status w = Some 200 \<and>
    Option.bind (json_read (r_body w)) client_KubeletInfo = Some (seen_KubeletInfo info)"
  using kubelet_report.reply [of "json_bytes json_of_KubeletInfo" info info json_error "''SenseKubeletInfo''"] assms
  by (simp add: serve_def json_bytes_def)

lemma kubelet_report_roundtrip_witness:
  "\<exists>w. fst (serve (sample_env\<lparr>e_os := sample_kubelet_host\<rparr>) (start_server '''') KubeletInfo_H new_response) = Inr w \<and>
     map_option KubeletCmdLine (Option.bind (json_read (r_body w)) client_KubeletInfo) =
       Some ''/usr/bin/kubelet --kubeconfig=/k.conf ''"
proof -
  let ?e = "sample_env\<lparr>e_os := sample_kubelet_host\<rparr>"
  let ?r = "SenseKubeletInfo sample_kubelet_host (\<lambda>_. Inl EOF) (\<lambda>_. Inl EOF) Map.empty"
  have facts: "snd (fst ?r) = None" "json_utf8 (json_of_KubeletInfo (fst (fst ?r)))"
    "KubeletCmdLine (fst (fst ?r)) = ''/usr/bin/kubelet --kubeconfig=/k.conf ''" by code_simp+
  have "SenseKubeletInfo (e_os ?e) (e_unit ?e) (e_ca ?e) (nameCache (start_server '''')) =
      ((fst (fst ?r), None), snd ?r)"
    using facts(1) by (simp add: sample_env_def start_server_def prod_eq_iff)
  from kubelet_report_roundtrip [OF this facts(2)] facts(3) show ?thesis
    by (auto simp: seen_KubeletInfo_def)
qed

text \<open>
  C4: the same for the control plane, the information of the API server's process included,
  whose fields the reply shows among those of the API server.
\<close>

theorem control_plane_report_roundtrip:
  assumes "fst (SenseControlPlaneInfo (e_os e) (e_codecs e) (nameCache s)) = Inr info"
    and "json_utf8 (json_of_ControlPlaneInfo info)"
  shows "\<exists>w. fst (serve e s ControlPlane_H new_response) = Inr w \<and> r_status w = Some 200 \<and>
    Option.bind (json_read (r_body w)) client_ControlPlaneInfo = Some (seen_ControlPlaneInfo info)"
  using control_plane_report.reply [of "json_bytes (json_pointer json_of_ControlPlaneInfo)" "Some info" info
      json_error "''SenseControlPlaneInfo''"] assms
  by (simp add: serve_def err_of_def split_beta json_bytes_def json_pointer_def)

lemma control_plane_report_roundtrip_witness:
  "\<exists>w. fst (serve (sample_env\<lparr>e_os := host_of [(''/host_fs/etc/kubernetes/admin.conf'', file_node 0x180 (0, 0) ''k'')]\<rparr>)
        (start_server '''') ControlPlane_H new_response) = Inr w \<and>
     Option.bind (Option.bind (json_read (r_body w)) client_ControlPlaneInfo) (map_option FPath \<circ> AdminConfigFile) =
       Some ''/etc/kubernetes/admin.conf''"
proof -
  let ?os = "host_of [(''/host_fs/etc/kubernetes/admin.conf'', file_node 0x180 (0, 0) ''k'')]"
  let ?e = "sample_env\<lparr>e_os := ?os\<rparr>"
  let ?r = "fst (SenseControlPlaneInfo ?os no_codecs Map.empty)"
  have "case ?r of Inl _ \<Rightarrow> False | Inr i \<Rightarrow> json_utf8 (json_of_ControlPlaneInfo i) \<and>
      map_option FPath (AdminConfigFile i) = Some ''/etc/kubernetes/admin.conf''" by code_simp
  then obtain i where i: "?r = Inr i" "json_utf8 (json_of_ControlPlaneInfo i)"
    "map_option FPath (AdminConfigFile i) = Some ''/etc/kubernetes/admin.conf''" by (auto split: sum.splits)
  from i(1) have "fst (SenseControlPlaneInfo (e_os ?e) (e_codecs ?e) (nameCache (start_server ''''))) = Inr i"
    by (simp add: sample_env_def start_server_def)
  from control_plane_report_roundtrip [OF this i(2)] obtain w
    where w: "fst (serve ?e (start_server '''') ControlPlane_H new_response) = Inr w"
      "Option.bind (json_read (r_body w)) client_ControlPlaneInfo = Some (seen_ControlPlaneInfo i)" by blast
  have "Option.bind (Some (seen_ControlPlaneInfo i)) (map_option FPath \<circ> AdminConfigFile) =
      Some ''/etc/kubernetes/admin.conf''"
    using i(3) by (cases "AdminConfigFile i") (simp_all add: seen_ControlPlaneInfo_def seen_FileInfo_def)
  with w show ?thesis by metis
qed

text \<open>
  C23: a client that decodes the reply of a node that is no control plane as a control-plane report
  gets an empty report, under status 200: the error object decodes without an error.
\<close>

theorem worker_node_reads_as_empty_report:
  assumes "fst (SenseControlPlaneInfo (e_os e) (e_codecs e) (nameCache s)) = Inl err"
  shows "\<exists>w. fst (serve e s ControlPlane_H new_response) = Inr w \<and> r_status w = Some 200 \<and>
    json_read (r_body w) = Some (JObj [(''error'', JStr ''not a control plane node'')]) \<and>
    Option.bind (json_read (r_body w)) client_ControlPlaneInfo =
      Some \<lparr>APIServerInfo = None, ControllerManagerInfo = None, SchedulerInfo = None, EtcdConfigFile = None,
        EtcdDataDir = None, AdminConfigFile = None, PKIDIr = None, PKIFiles = []\<rparr>"
proof -
  let ?err = "SenseError None ''not a control plane node'' ''SenseControlPlaneInfo'' 200"
  let ?obj = "JObj [(''error'', JStr ''not a control plane node'')]"
  have err: "err = ?err" using SenseControlPlaneInfo_error [OF assms] by (simp add: not_control_plane_def)
  obtain w where w: "GenericSensorHandler (json_bytes (json_pointer json_of_ControlPlaneInfo)) json_error
      new_response None (Some ?err) ''SenseControlPlaneInfo'' = Some w"
    using generic_status_Some [of new_response ?err] by fastforce
  from generic_body_SenseError [OF this] have w': "r_status w = Some 200" "r_body w = json_text ?obj @ [NL]"
    by (simp_all add: json_error_def json_bytes_def)
  have "json_utf8 ?obj" by code_simp
  then have "json_read (r_body w) = Some ?obj" unfolding w'(2) by (simp only: json_read_text json_valid_text_id)
  moreover have "client_ControlPlaneInfo ?obj =
      Some \<lparr>APIServerInfo = None, ControllerManagerInfo = None, SchedulerInfo = None, EtcdConfigFile = None,
        EtcdDataDir = None, AdminConfigFile = None, PKIDIr = None, PKIFiles = []\<rparr>"
    by (simp add: client_ControlPlaneInfo_def get_ptr_def get_slice_def jget_def read_ptr_def read_slice_def)
  moreover have "fst (serve e s ControlPlane_H new_response) = Inr w"
    using w assms err by (simp add: serve_def err_of_def split_beta)
  ultimately show ?thesis using w'(1) by simp
qed

lemma worker_node_reads_as_empty_report_witness:
  "\<exists>w. fst (serve sample_env (start_server '''') ControlPlane_H new_response) = Inr w \<and> r_status w = Some 200"
proof -
  have "case fst (SenseControlPlaneInfo (host_of []) no_codecs Map.empty) of Inl _ \<Rightarrow> True | Inr _ \<Rightarrow> False"
    by code_simp
  then obtain err where "fst (SenseControlPlaneInfo (e_os sample_env) (e_codecs sample_env)
      (nameCache (start_server ''''))) = Inl err"
    by (auto simp: sample_env_def start_server_def split: sum.splits)
  from worker_node_reads_as_empty_report [OF this] show ?thesis by blast
qed

end
