(* ===== verification/Main_Program.thy ===== *)
theory Main_Program
  imports Reply_Contents
begin

text \<open>
  The program of \<open>sensor.go\<close>: the server and the chain of handlers a request goes through, what it
  logs and traces of it, the debug listener, and \<open>main\<close> with its start, its signals and its shutdown.

  Third-party parts of the chain are parameters: \<open>recover\<close> is the reply of the router's recovery
  to a panic, \<open>url_text\<close> prints the URL of a redirect.  The telemetry wrapper passes requests
  through and names a span for those its filter lets in.
\<close>

subsection \<open>A request through the chain\<close>

record request =
  q_method :: string
  q_path :: string
  q_uri :: string
  q_remote :: string
  q_body :: "bytes \<times> goerr option"
  q_slow :: bool

definition http_NotFound :: "response \<Rightarrow> response option" where
  "http_NotFound = http_Error ''404 page not found'' 404"

fun html_escape :: "string \<Rightarrow> string" where
  "html_escape [] = []"
| "html_escape (c # s) =
     (if c = CHR ''&'' then ''&amp;'' else if c = CHR ''<'' then ''&lt;'' else if c = CHR ''>'' then ''&gt;''
      else if c = CHR 0x22 then ''&#34;'' else if c = CHR 0x27 then ''&#39;'' else [c]) @ html_escape s"

text \<open>The mux's redirect to the clean path.\<close>

definition http_Redirect :: "string \<Rightarrow> string \<Rightarrow> response \<Rightarrow> response option" where
  "http_Redirect method target w =
     (let w = header_Set ''Location'' target w;
          w = (if method \<in> {''GET'', ''HEAD''} then header_Set ''Content-Type'' ''text/html; charset=utf-8'' w else w)
      in Option.bind (WriteHeader 301 w)
           (\<lambda>w. if method = ''GET''
                then Write_body (''<a href='' @ [CHR 0x22] @ html_escape target @ [CHR 0x22] @
                       ''>Moved Permanently</a>.'' @ [NL, NL]) w
                else Some w))"

text \<open>
  The default mux of Go 1.24, with the handlers of \<open>initHTTPHandlers\<close>, on the path it is given:
  the request for the server as a whole is refused, and the path of a \<open>CONNECT\<close> is not cleaned.
  No file of the repository registers another handler: \<open>net/http/pprof\<close> is imported nowhere.  Paths
  are taken to be their own escaped forms, and requests to be of HTTP/1.1.
\<close>

definition mux_serve ::
  "(string \<Rightarrow> string) \<Rightarrow> 'c env \<Rightarrow> server \<Rightarrow> request \<Rightarrow> string \<Rightarrow> response \<Rightarrow> reply \<times> server" where
  "mux_serve url_text e s r path w =
     (if q_uri r = ''*'' then (returned (WriteHeader 400 (header_Set ''Connection'' ''close'' w)), s)
      else case (if q_method r = ''CONNECT''
                 then (case map_of routes path of Some h \<Rightarrow> Handle h | None \<Rightarrow> NotFound)
                 else mux_dispatch path) of
        Handle h \<Rightarrow> serve e s h w
      | Redirect p \<Rightarrow> (returned (http_Redirect (q_method r) (url_text p) w), s)
      | NotFound \<Rightarrow> (returned (http_NotFound w), s))"

text \<open>The span of a request has the request's URI as its name.\<close>

definition spanName :: "string \<Rightarrow> request \<Rightarrow> string" where
  "spanName operation r = q_uri r"

definition spans_of :: "string \<Rightarrow> request \<Rightarrow> string list" where
  "spans_of path r = (if traced filteredEndPoints path then [spanName '''' r] else [])"

text \<open>
  What \<open>filterNLogHTTPErrors\<close> logs of a request, with the copy of the body that its writer made.
  The time of the request is left out.
\<close>

record log_entry =
  l_method :: string
  l_uri :: string
  l_remote :: string
  l_request :: bytes
  l_status :: int
  l_size :: nat
  l_response :: bytes

definition log_of :: "request \<Rightarrow> response \<Rightarrow> log_entry" where
  "log_of r blw =
     \<lparr>l_method = q_method r, l_uri = q_uri r, l_remote = q_remote r, l_request = fst (q_body r),
      l_status = (case r_status blw of Some c \<Rightarrow> c | None \<Rightarrow> 0), l_size = length (r_body blw),
      l_response = (case resBody blw of Some copy \<Rightarrow> copy | None \<Rightarrow> [])\<rparr>"

text \<open>
  The filter reads the whole body before it hands the request on, with a writer that copies.  The
  reply for an unreadable body goes to the writer below and is not copied.  The result is the
  writer below and the log entry.
\<close>

definition filterNLogHTTPErrors ::
  "request \<Rightarrow> (bytes \<Rightarrow> response \<Rightarrow> reply) \<Rightarrow> response \<Rightarrow> stop + (response \<times> log_entry option)" where
  "filterNLogHTTPErrors r next_handler rw =
     (let blw = (case snd (q_body r) of
            Some err \<Rightarrow>
              returned (map_option (\<lambda>w. w\<lparr>resBody := Some []\<rparr>)
                (Option.bind (WriteHeader 400 rw) (Write_body (''Cannot read body: '' @ err_text err))))
          | None \<Rightarrow> next_handler (fst (q_body r)) (rw\<lparr>resBody := Some []\<rparr>))
      in case blw of
           Inl st \<Rightarrow> Inl st
         | Inr blw \<Rightarrow>
             (let status = (case r_status blw of Some c \<Rightarrow> c | None \<Rightarrow> 0)
              in Inr (blw\<lparr>resBody := resBody rw\<rparr>,
                   if status < 200 \<or> status \<ge> 300 \<or> q_slow r then Some (log_of r blw) else None)))"

text \<open>What becomes of a request; no reply is one that is still waited for.\<close>

record outcome =
  o_reply :: "response option"
  o_log :: "log_entry option"
  o_spans :: "string list"
  o_server :: server

text \<open>
  \<open>initHTTPRouter\<close>: lower-case path, recovery, filter, telemetry, mux.  A panic unwinds the filter
  before it logs.  Panics come before anything is written, so the recovery gets the new reply.
\<close>

definition handle_request ::
  "(response \<Rightarrow> response) \<Rightarrow> (string \<Rightarrow> string) \<Rightarrow> (string \<Rightarrow> string) \<Rightarrow> 'c env \<Rightarrow> server \<Rightarrow> request \<Rightarrow> outcome" where
  "handle_request recover url_text uni e s r =
     (let path = CaselessMatcher uni (q_path r);
          next = mux_serve url_text e s r path;
          ran = (snd (q_body r) = None);
          (reply, logged) =
            (case filterNLogHTTPErrors r (\<lambda>body w. fst (next w)) new_response of
               Inr (w, logged) \<Rightarrow> (Some w, logged)
             | Inl Panics \<Rightarrow> (Some (recover new_response), None)
             | Inl Unfinished \<Rightarrow> (None, None))
      in \<lparr>o_reply = reply, o_log = logged,
          o_spans = (if ran then spans_of path r else []),
          o_server = (if ran then snd (next (new_response\<lparr>resBody := Some []\<rparr>)) else s)\<rparr>)"






subsection \<open>main\<close>

datatype chain = FullChain | BareMux

datatype action =
    Init_Logger
  | Init_Otel string string string string string
  | Init_Zap
  | Init_Router
  | Init_Handlers
  | Go_Listen string chain
  | Notify "string list"
  | Shutdown_Server nat
  | Log_Shutdown_Error
  | Cancel_Context
  | Sync_Zap
  | Shutdown_Otel

text \<open>\<open>os.Getenv\<close>: the empty string for a variable that is not set.\<close>

definition os_Getenv :: "(string \<Rightarrow> string option) \<Rightarrow> string \<Rightarrow> string" where
  "os_Getenv env k = (case env k of None \<Rightarrow> [] | Some v \<Rightarrow> v)"

definition listeningPort :: int where "listeningPort = 7888"

definition shutdown_signals :: "string list" where
  "shutdown_signals = [''SIGINT'', ''SIGINT'', ''SIGTERM'', ''SIGHUP'', ''SIGQUIT'']"

definition main_start :: "(string \<Rightarrow> string option) \<Rightarrow> string \<Rightarrow> action list" where
  "main_start env version =
     [Init_Logger] @
     (case env ''OTEL_COLLECTOR_SVC'' of
        None \<Rightarrow> []
      | Some otelHost \<Rightarrow>
          [Init_Otel ''host-scanner'' (os_Getenv env version) (os_Getenv env ''ACCOUNT_ID'')
             (os_Getenv env ''CLUSTER_NAME'') otelHost]) @
     [Init_Zap, Init_Router, Init_Handlers] @
     (if strings_Contains (os_Getenv env ''CADB_DEBUG'') ''pprof'' then [Go_Listen '':6060'' BareMux] else []) @
     [Go_Listen ('':'' @ strconv_Itoa listeningPort) FullChain, Notify shutdown_signals]"

text \<open>After the signal: the shutdown, then the deferred calls from the last to the first.\<close>

definition main_stop :: "(string \<Rightarrow> string option) \<Rightarrow> bool \<Rightarrow> action list" where
  "main_stop env shutdown_failed =
     [Shutdown_Server 61] @ (if shutdown_failed then [Log_Shutdown_Error] else []) @
     [Cancel_Context, Sync_Zap] @
     (if env ''OTEL_COLLECTOR_SVC'' = None then [] else [Shutdown_Otel])"

text \<open>
  The process once it has started: it waits for a signal that it asked for, then shuts down, which
  takes up to the 61 seconds of the context; further signals of these kinds are dropped.  Signals
  that end a Go program which did not ask for them, and fatal errors of the runtime, end the
  process without its deferred calls at any time; other signals do nothing.  The goroutine of the
  server drops the error of \<open>ListenAndServe\<close>, so a port that cannot be bound is an event without a
  consequence.
\<close>

datatype phase = Waiting | Stopping | Stopped | Killed

record process_state =
  ps_phase :: phase
  ps_listening :: bool
  ps_actions :: "action list"

datatype process_event = Signal string | Listen_Fails | Fatal_Error | Shutdown_Returns bool

definition fatal_signals :: "string list" where
  "fatal_signals =
     [''SIGKILL'', ''SIGABRT'', ''SIGILL'', ''SIGTRAP'', ''SIGSYS'', ''SIGSTKFLT'', ''SIGBUS'', ''SIGFPE'', ''SIGSEGV'']"

definition process_start :: "(string \<Rightarrow> string option) \<Rightarrow> string \<Rightarrow> process_state" where
  "process_start env version = \<lparr>ps_phase = Waiting, ps_listening = True, ps_actions = main_start env version\<rparr>"

definition kill_process :: "process_state \<Rightarrow> process_state" where
  "kill_process p = p\<lparr>ps_phase := Killed, ps_listening := False\<rparr>"

fun process_step :: "(string \<Rightarrow> string option) \<Rightarrow> process_state \<Rightarrow> process_event \<Rightarrow> process_state" where
  "process_step env p ev =
     (if ps_phase p \<in> {Stopped, Killed} then p
      else case ev of
        Signal sig \<Rightarrow>
          if sig \<in> set shutdown_signals
          then (if ps_phase p = Waiting then p\<lparr>ps_phase := Stopping, ps_listening := False\<rparr> else p)
          else if sig \<in> set fatal_signals then kill_process p else p
      | Fatal_Error \<Rightarrow> kill_process p
      | Listen_Fails \<Rightarrow> p\<lparr>ps_listening := False\<rparr>
      | Shutdown_Returns failed \<Rightarrow>
          if ps_phase p = Stopping then p\<lparr>ps_phase := Stopped, ps_actions := ps_actions p @ main_stop env failed\<rparr>
          else p)"

definition process_run :: "(string \<Rightarrow> string option) \<Rightarrow> process_state \<Rightarrow> process_event list \<Rightarrow> process_state" where
  "process_run env p evs = foldl (process_step env) p evs"


subsection \<open>Lemmas\<close>

text \<open>A writer whose copy is the body so far, and a status that lets a body through.\<close>

definition teed :: "response \<Rightarrow> bool" where
  "teed w \<longleftrightarrow> resBody w = Some (r_body w) \<and> (\<forall>c. r_status w = Some c \<longrightarrow> body_allowed c)"

text \<open>
  A handler that is given the writer \<open>w\<close> answers with one of the codes, and what it writes is
  copied.
\<close>

definition replies :: "int set \<Rightarrow> response \<Rightarrow> response option \<Rightarrow> bool" where
  "replies codes w r \<longleftrightarrow>
     (\<exists>w' c. r = Some w' \<and> r_status w' = Some c \<and> c \<in> codes \<and> (teed w \<longrightarrow> teed w'))"

definition mux_codes :: "int set" where "mux_codes = {200, 301, 400, 404, 500, 503}"

lemma mux_codes_allowed: "c \<in> mux_codes \<Longrightarrow> 200 \<le> c \<and> c \<le> 999 \<and> body_allowed c"
  by (auto simp: mux_codes_def body_allowed_def)

lemma mux_codes_in [simp]:
  "200 \<in> mux_codes" "301 \<in> mux_codes" "400 \<in> mux_codes" "404 \<in> mux_codes" "500 \<in> mux_codes" "503 \<in> mux_codes"
  by (simp_all add: mux_codes_def)

lemma replies_header_Set [simp]: "replies codes (header_Set k v w) r \<longleftrightarrow> replies codes w r"
  by (simp add: replies_def teed_def header_Set_def)

lemma header_Set_status [simp]: "r_status (header_Set k v w) = r_status w"
  by (simp add: header_Set_def)

lemma replies_WriteHeader:
  "r_status w = None \<Longrightarrow> c \<in> mux_codes \<Longrightarrow> replies mux_codes w (WriteHeader c w)"
  using mux_codes_allowed [of c] by (simp add: replies_def teed_def)

lemma replies_then:
  assumes "replies mux_codes w r" "\<And>w c. r_status w = Some c \<Longrightarrow> c \<in> mux_codes \<Longrightarrow> replies mux_codes w (f w)"
  shows "replies mux_codes w (Option.bind r f)"
proof -
  obtain w' c where w': "r = Some w'" "r_status w' = Some c" "c \<in> mux_codes" "teed w \<longrightarrow> teed w'"
    using assms(1) by (auto simp: replies_def)
  with assms(2) [of w' c] show ?thesis by (auto simp: replies_def)
qed

lemma replies_Some: "r_status w = Some c \<Longrightarrow> c \<in> mux_codes \<Longrightarrow> replies mux_codes w (Some w)"
  by (simp add: replies_def)

lemma replies_Write:
  "r_status w = Some c \<Longrightarrow> c \<in> mux_codes \<Longrightarrow> replies mux_codes w (Write_body b w)"
  using mux_codes_allowed [of c] by (auto simp: replies_def teed_def write_defs split: option.split)

lemma replies_json_Encode:
  "r_status w = Some c \<Longrightarrow> c \<in> mux_codes \<Longrightarrow> replies mux_codes w (json_Encode r w)"
  by (cases r) (simp_all add: json_Encode_def replies_Write replies_Some)

lemma replies_http_Error:
  assumes "r_status w = None" "c \<in> mux_codes"
  shows "replies mux_codes w (http_Error msg c w)"
proof -
  let ?w = "header_Set ''X-Content-Type-Options'' ''nosniff'' (header_Set ''Content-Type'' ''text/plain; charset=utf-8'' w)"
  have "replies mux_codes ?w (WriteHeader c ?w)" by (rule replies_WriteHeader) (use assms in simp_all)
  then have "replies mux_codes ?w (http_Error msg c w)"
    unfolding http_Error_def by (rule replies_then) (rule replies_Write)
  then show ?thesis by simp
qed

lemma replies_generic:
  assumes "r_status w = None" "\<forall>e. err = Some e \<longrightarrow> error_status e \<in> mux_codes"
  shows "replies mux_codes w (GenericSensorHandler enc enc_err w resp err name)"
proof (cases err)
  case None
  then show ?thesis using assms
    by (auto simp: GenericSensorHandler_def simp del: WriteHeader_new
        intro!: replies_then replies_WriteHeader replies_json_Encode)
next
  case (Some e)
  then show ?thesis using assms
    by (cases e) (auto simp: GenericSensorHandler_def simp del: WriteHeader_new intro!: replies_then replies_WriteHeader replies_json_Encode replies_http_Error)
qed

lemma replies_raw: "r_status w = None \<Longrightarrow> replies mux_codes w (raw_handler t w content)"
  by (cases content) (auto simp: raw_handler_def simp del: WriteHeader_new intro!: replies_http_Error replies_then replies_WriteHeader replies_Write)

lemma replies_probe:
  "r_status w = Some c \<Longrightarrow> c \<in> mux_codes \<Longrightarrow> replies mux_codes w (Write_body b (header_Set k v w))"
  using replies_Write [of "header_Set k v w" c b] by simp

text \<open>Everything but the kernel walk replies; that may panic, or outlast its fuel.\<close>

definition ends_in :: "'c env \<Rightarrow> response \<Rightarrow> reply \<Rightarrow> bool" where
  "ends_in e w r \<longleftrightarrow>
     (case r of
        Inr w' \<Rightarrow> replies mux_codes w (Some w')
      | Inl Panics \<Rightarrow> True
      | Inl Unfinished \<Rightarrow> SenseKernelVariables (e_fuel e) (e_os e) = Inl WalkFuel)"

lemma ends_in_returned: "replies mux_codes w r \<Longrightarrow> ends_in e w (returned r)"
  by (cases r) (simp_all add: ends_in_def replies_def)

lemma ends_in_kernel:
  "r_status w = None \<Longrightarrow> ends_in e w (LinuxKernelVariablesHandler enc enc_err (e_fuel e) (e_os e) w)"
  using SenseKernelVariables_error [of "e_fuel e" "e_os e"]
  by (auto simp: LinuxKernelVariablesHandler_def ends_in_def [of _ _ "Inl _"] split: sum.split walk_exit.split
      intro!: ends_in_returned replies_generic)

lemma serve_ends:
  assumes "r_status w = None"
  shows "ends_in e w (fst (serve e s h w))"
proof (cases h)
  case Healthz
  with assms show ?thesis
    by (auto simp: serve_def healthzHandler_def simp del: WriteHeader_new
        intro!: ends_in_returned replies_then replies_WriteHeader replies_probe)
next
  case Readyz
  with assms show ?thesis
    by (auto simp: serve_def readyzHandler_def simp del: WriteHeader_new
        intro!: ends_in_returned replies_http_Error replies_then replies_WriteHeader replies_probe)
next
  case KubeletInfo_H
  with assms SenseKubeletInfo_error [of "e_os e" "e_unit e" "e_ca e" "nameCache s"] show ?thesis
    by (auto simp: serve_def split_beta intro!: ends_in_returned replies_generic)
next
  case KubeProxy_H
  with assms SenseKubeProxyInfo_error [of "e_os e" "nameCache s"] show ?thesis
    by (auto simp: serve_def split_beta intro!: ends_in_returned replies_generic)
next
  case ControlPlane_H
  with assms err_of_control_plane [of "e_os e" "e_codecs e" "nameCache s"] show ?thesis
    by (auto simp: serve_def split_beta not_control_plane_def intro!: ends_in_returned replies_generic)
next
  case CNI_H
  with assms SenseCNIInfo_no_error [of "e_os e" "e_toml e" "nameCache s"] show ?thesis
    by (auto simp: serve_def split_beta intro!: ends_in_returned replies_generic)
qed (use assms in \<open>auto simp: serve_def ends_in_kernel osReleaseHandler_def kernelVersionHandler_def versionHandler_def
    SenseLinuxSecurityHardening_def SenseOpenPorts_def SenseCloudProviderInfo_def err_of_def Let_def
    split: prod.split sum.splits intro!: ends_in_returned replies_generic replies_raw\<close>)

lemma replies_http_Redirect:
  assumes "r_status w = None"
  shows "replies mux_codes w (http_Redirect m u w)"
proof -
  let ?l = "header_Set ''Location'' u w"
  let ?w = "if m \<in> {''GET'', ''HEAD''} then header_Set ''Content-Type'' ''text/html; charset=utf-8'' ?l else ?l"
  have "replies mux_codes ?w (http_Redirect m u w)"
    unfolding http_Redirect_def Let_def
    by (intro replies_then replies_WriteHeader) (use assms in \<open>auto intro: replies_Write replies_Some\<close>)
  then show ?thesis by (simp split: if_splits)
qed

lemma mux_serve_ends:
  assumes "r_status w = None"
  shows "ends_in e w (fst (mux_serve url_text e s r path w))"
proof -
  have "replies mux_codes w (WriteHeader 400 (header_Set ''Connection'' ''close'' w))"
    using replies_WriteHeader [of "header_Set ''Connection'' ''close'' w" 400] assms by simp
  moreover have "replies mux_codes w (http_NotFound w)"
    using replies_http_Error [OF assms] by (simp add: http_NotFound_def)
  ultimately show ?thesis
    using serve_ends [OF assms, of e s] replies_http_Redirect [OF assms]
    by (auto simp: mux_serve_def simp del: WriteHeader_new split: dispatch.split intro!: ends_in_returned)
qed




text \<open>The three ends of a request in the chain.\<close>

abbreviation copying :: response where "copying \<equiv> new_response\<lparr>resBody := Some []\<rparr>"

lemma copying_simps [simp]: "r_status copying = None" "teed copying"
  by (simp_all add: teed_def new_response_def)

lemma unreadable_body:
  assumes "snd (q_body r) = Some err"
  shows "\<exists>w. o_reply (handle_request recover url_text uni e s r) = Some w \<and> r_status w = Some 400"
  using assms
  by (auto simp: handle_request_def filterNLogHTTPErrors_def write_defs body_allowed_def new_response_def Let_def)

lemma replied:
  assumes "snd (q_body r) = None"
    and "fst (mux_serve url_text e s r (CaselessMatcher uni (q_path r)) copying) = Inr w"
  shows "o_reply (handle_request recover url_text uni e s r) = Some (w\<lparr>resBody := None\<rparr>) \<and>
    o_log (handle_request recover url_text uni e s r) =
      (if case r_status w of None \<Rightarrow> True | Some c \<Rightarrow> c < 200 \<or> 300 \<le> c \<or> q_slow r
       then Some (log_of r w) else None) \<and>
    (\<exists>c. r_status w = Some c \<and> c \<in> mux_codes) \<and> resBody w = Some (r_body w)"
proof -
  have "replies mux_codes copying (Some w)"
    using mux_serve_ends [of copying e url_text s r "CaselessMatcher uni (q_path r)"] assms(2) by (simp add: ends_in_def)
  then show ?thesis using assms
    by (auto simp: handle_request_def filterNLogHTTPErrors_def replies_def teed_def Let_def)
qed

lemma not_replied:
  assumes "snd (q_body r) = None"
    and "fst (mux_serve url_text e s r (CaselessMatcher uni (q_path r)) copying) = Inl st"
  shows "o_reply (handle_request recover url_text uni e s r) =
      (if st = Panics then Some (recover new_response) else None) \<and>
    o_log (handle_request recover url_text uni e s r) = None \<and>
    (st = Panics \<or> SenseKernelVariables (e_fuel e) (e_os e) = Inl WalkFuel)"
  using mux_serve_ends [of copying e url_text s r "CaselessMatcher uni (q_path r)"] assms
  by (cases st) (auto simp: handle_request_def filterNLogHTTPErrors_def ends_in_def Let_def)


subsection \<open>Properties\<close>


definition sample_request :: "string \<Rightarrow> request" where
  "sample_request path =
     \<lparr>q_method = ''GET'', q_path = path, q_uri = path, q_remote = ''127.0.0.1:4242'', q_body = ([], None), q_slow = False\<rparr>"

definition sample_recover :: "response \<Rightarrow> response" where
  "sample_recover w = w\<lparr>r_status := Some 500\<rparr>"


text \<open>
  C38: a request whose reply has a status of the 200s is not logged, unless it was slow: then it
  is logged as failed, with the whole body of the reply, which the filter's writer has copied.
\<close>

theorem successful_replies_are_logged_when_slow:
  assumes "r_status (recover new_response) = Some 500"
    and "o_reply (handle_request recover url_text uni e s r) = Some w"
    and "r_status w = Some c" "200 \<le> c" "c < 300"
  shows "o_log (handle_request recover url_text uni e s r) =
    (if q_slow r
     then Some \<lparr>l_method = q_method r, l_uri = q_uri r, l_remote = q_remote r, l_request = fst (q_body r),
       l_status = c, l_size = length (r_body w), l_response = r_body w\<rparr>
     else None)"
proof -
  have body: "snd (q_body r) = None"
    using unreadable_body [of r _ recover url_text uni e s] assms(2-5) by (cases "snd (q_body r)") auto
  show ?thesis
  proof (cases "fst (mux_serve url_text e s r (CaselessMatcher uni (q_path r)) copying)")
    case (Inl st)
    with not_replied [OF body Inl, of recover] assms show ?thesis by (simp split: if_splits)
  next
    case (Inr blw)
    with replied [OF body Inr, of recover] assms show ?thesis by (auto simp: log_of_def)
  qed
qed

lemma successful_replies_are_logged_when_slow_witness:
  "map_option l_response (o_log (handle_request sample_recover id id sample_env (start_server ''v1'')
      ((sample_request ''/VERSION'')\<lparr>q_slow := True\<rparr>))) = Some (CHR 0x22 # ''v1'' @ [CHR 0x22, NL])"
proof -
  let ?r = "(sample_request ''/VERSION'')\<lparr>q_slow := True\<rparr>"
  have "r_status (sample_recover new_response) = Some 500" by (simp add: sample_recover_def)
  moreover have "o_reply (handle_request sample_recover id id sample_env (start_server ''v1'') ?r) =
      Some \<lparr>r_header = [], r_status = Some 200, r_sent = [], r_body = CHR 0x22 # ''v1'' @ [CHR 0x22, NL], resBody = None\<rparr>"
    by code_simp
  ultimately show ?thesis
    using successful_replies_are_logged_when_slow [of sample_recover id id sample_env "start_server ''v1''" ?r]
    by (simp add: sample_request_def)
qed

text \<open>
  C39: a request that reaches the mux gets one span, with the request's URI as its name, unless
  its path is one of the probes' in any case; so no probe is ever traced.
\<close>

theorem probes_are_not_traced:
  "o_spans (handle_request recover url_text uni e s r) =
    (if snd (q_body r) = None \<and> CaselessMatcher uni (q_path r) \<notin> {''/healthz'', ''/readyz''}
     then [q_uri r] else [])"
  by (simp add: handle_request_def spans_of_def spanName_def filteredEndPoints_def healthzEP_def readyzEP_def
      Let_def split_beta)




subsection \<open>Facts about the process\<close>

text \<open>
  The deferred calls run once and only in a process that stops; nothing but a signal or a fatal
  error of the runtime ends the wait, also not a port that cannot be bound.
\<close>

lemma process_actions:
  assumes "ps_actions p = (if ps_phase p = Stopped then starts @ main_stop env failed else starts)"
  shows "\<exists>failed. ps_actions (process_run env p evs) =
    (if ps_phase (process_run env p evs) = Stopped then starts @ main_stop env failed else starts)"
  using assms
proof (induction evs arbitrary: p failed)
  case Nil
  then show ?case by (auto simp: process_run_def)
next
  case (Cons ev evs)
  have "\<exists>failed. ps_actions (process_step env p ev) =
      (if ps_phase (process_step env p ev) = Stopped then starts @ main_stop env failed else starts)"
    using Cons.prems by (cases ev) (auto simp: kill_process_def)
  then obtain failed' where "ps_actions (process_step env p ev) =
      (if ps_phase (process_step env p ev) = Stopped then starts @ main_stop env failed' else starts)" ..
  from Cons.IH [OF this] show ?case by (simp add: process_run_def del: process_step.simps)
qed

lemma process_waits:
  assumes "Fatal_Error \<notin> set evs" "\<forall>sig \<in> set (shutdown_signals @ fatal_signals). Signal sig \<notin> set evs"
    and "ps_phase p = Waiting"
  shows "ps_phase (process_run env p evs) = Waiting"
  using assms
proof (induction evs arbitrary: p)
  case (Cons ev evs)
  have "ps_phase (process_step env p ev) = Waiting"
    using Cons.prems by (cases ev) auto
  then show ?case using Cons.IH [of "process_step env p ev"] Cons.prems(1,2)
    by (simp add: process_run_def del: process_step.simps)
qed (simp add: process_run_def)

end
