(* ===== verification/Http_Client.thy ===== *)
theory Http_Client
  imports Prelude
begin

text \<open>
  \<open>GetHttpClient\<close> of \<open>sensor/internal/utils/globals.go\<close>: the double-checked creation of the one
  HTTP client, called by any number of request goroutines.  Each call is a program counter
  over the statements of the function, each step is one access to the shared variables, and
  goroutines interleave in any order (sequentially consistent memory; the first check reads the
  variable outside the lock).
\<close>

text \<open>
  \<open>Absent\<close> is no call.  \<open>Check\<close>, \<open>Lock\<close>, \<open>Recheck\<close> and \<open>Create\<close> are the statements; \<open>Load\<close> evaluates the result,
  with the flag saying whether the deferred unlock is pending; \<open>Unlock\<close> runs it.
\<close>

datatype pc = Absent | Check | Lock | Recheck | Create | Load bool | Unlock "nat option" | Done "nat option"

text \<open>Clients are numbered in the order of their allocation; \<open>None\<close> is the nil pointer.\<close>

record client_state =
  httpClient :: "nat option"
  lock_holder :: "nat option"
  allocated :: nat
  threads :: "nat \<Rightarrow> pc"

text \<open>The start with \<open>n\<close> calls, before the first statement of each.\<close>

definition init_state :: "nat \<Rightarrow> client_state" where
  "init_state n =
     \<lparr>httpClient = None, lock_holder = None, allocated = 0, threads = (\<lambda>t. if t < n then Check else Absent)\<rparr>"

definition goto :: "client_state \<Rightarrow> nat \<Rightarrow> pc \<Rightarrow> client_state" where
  "goto s t p = s\<lparr>threads := (threads s)(t := p)\<rparr>"

text \<open>The next step of goroutine \<open>t\<close>; \<open>None\<close> when it waits for the lock or has returned.\<close>

definition GetHttpClient_step :: "client_state \<Rightarrow> nat \<Rightarrow> client_state option" where
  "GetHttpClient_step s t =
     (case threads s t of
        Absent \<Rightarrow> None
      | Check \<Rightarrow> Some (goto s t (if httpClient s = None then Lock else Load False))
      | Lock \<Rightarrow>
          (if lock_holder s = None then Some (goto (s\<lparr>lock_holder := Some t\<rparr>) t Recheck) else None)
      | Recheck \<Rightarrow> Some (goto s t (if httpClient s = None then Create else Load True))
      | Create \<Rightarrow>
          Some (goto (s\<lparr>httpClient := Some (allocated s), allocated := allocated s + 1\<rparr>) t (Load True))
      | Load locked \<Rightarrow> Some (goto s t (if locked then Unlock (httpClient s) else Done (httpClient s)))
      | Unlock r \<Rightarrow> Some (goto (s\<lparr>lock_holder := None\<rparr>) t (Done r))
      | Done r \<Rightarrow> None)"

inductive reachable :: "client_state \<Rightarrow> bool" where
  init: "reachable (init_state n)"
| step: "reachable s \<Longrightarrow> GetHttpClient_step s t = Some s' \<Longrightarrow> reachable s'"

text \<open>A schedule names the goroutine that moves next; one that cannot move is passed over.\<close>

definition run_schedule :: "client_state \<Rightarrow> nat list \<Rightarrow> client_state" where
  "run_schedule s ts = foldl (\<lambda>s t. case GetHttpClient_step s t of Some s' \<Rightarrow> s' | None \<Rightarrow> s) s ts"

lemma reachable_run: "reachable s \<Longrightarrow> reachable (run_schedule s ts)"
  unfolding run_schedule_def
proof (induction ts arbitrary: s)
  case (Cons t ts)
  then show ?case by (cases "GetHttpClient_step s t") (auto intro: reachable.step)
qed simp


subsection \<open>The invariant\<close>

fun holds_lock :: "pc \<Rightarrow> bool" where
  "holds_lock Recheck \<longleftrightarrow> True"
| "holds_lock Create \<longleftrightarrow> True"
| "holds_lock (Load locked) \<longleftrightarrow> locked"
| "holds_lock (Unlock r) \<longleftrightarrow> True"
| "holds_lock _ \<longleftrightarrow> False"

definition pc_ok :: "nat option \<Rightarrow> pc \<Rightarrow> bool" where
  "pc_ok client p \<longleftrightarrow>
     (p = Create \<longrightarrow> client = None) \<and> (\<forall>b. p = Load b \<longrightarrow> client \<noteq> None) \<and>
     (\<forall>r. p = Unlock r \<or> p = Done r \<longrightarrow> r = Some 0)"

definition client_inv :: "client_state \<Rightarrow> bool" where
  "client_inv s \<longleftrightarrow>
     (httpClient s, allocated s) \<in> {(None, 0), (Some 0, 1)} \<and>
     (\<forall>t. holds_lock (threads s t) \<longleftrightarrow> lock_holder s = Some t) \<and>
     (\<forall>t. pc_ok (httpClient s) (threads s t))"

lemma pc_ok_simps [simp]:
  "pc_ok c Absent" "pc_ok c Check" "pc_ok c Lock" "pc_ok c Recheck" "pc_ok c Create \<longleftrightarrow> c = None"
  "pc_ok c (Load b) \<longleftrightarrow> c \<noteq> None" "pc_ok c (Unlock r) \<longleftrightarrow> r = Some 0" "pc_ok c (Done r) \<longleftrightarrow> r = Some 0"
  by (auto simp: pc_ok_def)

lemma client_inv_init: "client_inv (init_state n)"
  by (simp add: client_inv_def init_state_def)

lemma pc_ok_created: "pc_ok None p \<Longrightarrow> p \<noteq> Create \<Longrightarrow> pc_ok (Some 0) p"
  by (cases p) auto

lemma client_inv_step:
  assumes inv: "client_inv s" and step: "GetHttpClient_step s t = Some s'"
  shows "client_inv s'"
proof -
  have pc: "pc_ok (httpClient s) (threads s t)"
    and lock: "holds_lock (threads s t) \<longleftrightarrow> lock_holder s = Some t"
    and heap: "(httpClient s, allocated s) \<in> {(None, 0), (Some 0, 1)}"
    using inv by (simp_all add: client_inv_def)
  have others: "pc_ok (httpClient s) (threads s u)" "holds_lock (threads s u) \<longleftrightarrow> lock_holder s = Some u" for u
    using inv by (simp_all add: client_inv_def)
  show ?thesis
  proof (cases "threads s t")
    case Create
    then have now: "lock_holder s = Some t" "httpClient s = None" "allocated s = 0"
      using pc lock heap by auto
    then have "threads s u \<noteq> Create" if "u \<noteq> t" for u using others(2) [of u] that by auto
    then have "pc_ok (Some 0) (threads s u)" if "u \<noteq> t" for u
      using that others(1) [of u] now(2) pc_ok_created by simp
    then show ?thesis using step Create now others(2)
      by (auto simp: client_inv_def GetHttpClient_step_def goto_def split: if_splits)
  qed (use step pc lock heap others in
      \<open>auto simp: client_inv_def GetHttpClient_step_def goto_def split: if_splits\<close>)
qed

lemma reachable_client_inv: "reachable s \<Longrightarrow> client_inv s"
  by (induction rule: reachable.induct) (auto intro: client_inv_init client_inv_step)


subsection \<open>Every call returns\<close>

text \<open>A run in which each goroutine named can move.\<close>

fun run_exactly :: "client_state \<Rightarrow> nat list \<Rightarrow> client_state option" where
  "run_exactly s [] = Some s"
| "run_exactly s (t # ts) =
     (case GetHttpClient_step s t of None \<Rightarrow> None | Some s' \<Rightarrow> run_exactly s' ts)"

lemma run_exactly_reachable: "run_exactly s ts = Some s' \<Longrightarrow> reachable s \<Longrightarrow> reachable s'"
  by (induction ts arbitrary: s) (auto split: option.splits intro: reachable.step)

text \<open>The steps a call can still take at most.\<close>

fun rank :: "pc \<Rightarrow> nat" where
  "rank Check = 6"
| "rank Lock = 5"
| "rank Recheck = 4"
| "rank Create = 3"
| "rank (Load locked) = 2"
| "rank (Unlock r) = 1"
| "rank _ = 0"

definition remaining :: "nat \<Rightarrow> client_state \<Rightarrow> nat" where
  "remaining n s = (\<Sum>t < n. rank (threads s t))"

text \<open>A step moves its own call only, to a place nearer to the end.\<close>

lemma step_threads:
  assumes "GetHttpClient_step s t = Some s'"
  obtains p where "threads s' = (threads s)(t := p)" "p \<noteq> Absent" "threads s t \<noteq> Absent" "rank p < rank (threads s t)"
  using assms that
  by (cases "threads s t") (auto simp: GetHttpClient_step_def goto_def split: if_splits)

definition callers :: "nat \<Rightarrow> client_state \<Rightarrow> bool" where
  "callers n s \<longleftrightarrow> (\<forall>t. threads s t = Absent \<longleftrightarrow> n \<le> t)"

lemma callers_step: "GetHttpClient_step s t = Some s' \<Longrightarrow> callers n s \<Longrightarrow> t < n \<and> callers n s'"
proof (erule step_threads)
  fix p assume "threads s' = (threads s)(t := p)" "p \<noteq> Absent" "threads s t \<noteq> Absent" "callers n s"
  then show "t < n \<and> callers n s'" unfolding callers_def by (metis fun_upd_apply not_le)
qed

lemma run_exactly_callers: "run_exactly s ts = Some s' \<Longrightarrow> callers n s \<Longrightarrow> callers n s'"
  by (induction ts arbitrary: s) (auto split: option.splits dest: callers_step)

lemma remaining_step:
  assumes "GetHttpClient_step s t = Some s'" "t < n"
  shows "remaining n s' < remaining n s"
  unfolding remaining_def
proof (rule sum_strict_mono_ex1)
  from assms(1) obtain p where p: "threads s' = (threads s)(t := p)" "rank p < rank (threads s t)"
    by (rule step_threads)
  then show "\<forall>u \<in> {..<n}. rank (threads s' u) \<le> rank (threads s u)" by simp
  from p show "\<exists>u \<in> {..<n}. rank (threads s' u) < rank (threads s u)" using assms(2) by (intro bexI [of _ t]) auto
qed simp

lemma run_exactly_remaining:
  "run_exactly s ts = Some s' \<Longrightarrow> callers n s \<Longrightarrow> remaining n s' + length ts \<le> remaining n s"
proof (induction ts arbitrary: s)
  case (Cons t ts)
  then obtain s1 where s1: "GetHttpClient_step s t = Some s1" "run_exactly s1 ts = Some s'"
    by (auto split: option.splits)
  from callers_step [OF s1(1) Cons.prems(2)] have "t < n" "callers n s1" by simp_all
  with Cons.IH [OF s1(2)] remaining_step [OF s1(1)] show ?case by fastforce
qed simp

lemma holder_moves:
  assumes "client_inv s" "lock_holder s = Some u"
  shows "GetHttpClient_step s u \<noteq> None"
proof -
  have "holds_lock (threads s u)" using assms by (simp add: client_inv_def)
  then show ?thesis by (cases "threads s u") (auto simp: GetHttpClient_step_def)
qed

lemma stuck_returned:
  assumes "client_inv s" "callers n s" "\<forall>t. GetHttpClient_step s t = None" "t < n"
  shows "threads s t = Done (Some 0)"
proof -
  have free: "lock_holder s = None" using holder_moves [OF assms(1)] assms(3) by fastforce
  have "threads s t \<noteq> Absent" using assms(2,4) by (auto simp: callers_def)
  moreover have "GetHttpClient_step s t = None" using assms(3) by blast
  moreover have "pc_ok (httpClient s) (threads s t)" using assms(1) by (simp add: client_inv_def)
  ultimately show ?thesis using free by (cases "threads s t") (auto simp: GetHttpClient_step_def)
qed


subsection \<open>Properties\<close>

text \<open>
  C19: in every interleaving of any number of callers at most one client is allocated, and every
  call that returns returns that one and not nil.
\<close>

theorem at_most_one_http_client:
  assumes "reachable s"
  shows "allocated s \<le> 1 \<and> (\<forall>t r. threads s t = Done r \<longrightarrow> r = Some 0)"
proof -
  have inv: "client_inv s" by (rule reachable_client_inv [OF assms])
  then have "pc_ok (httpClient s) (threads s t)" for t by (simp add: client_inv_def)
  then have "r = Some 0" if "threads s t = Done r" for t r using that by (metis pc_ok_simps(8))
  with inv show ?thesis by (auto simp: client_inv_def)
qed

lemma at_most_one_http_client_witness:
  "let s = run_schedule (init_state 2) [0, 1, 0, 1, 0, 0, 0, 1, 0, 1, 1, 1, 1]
   in allocated s \<le> 1 \<and> threads s 0 = Done (Some 0) \<and> threads s 1 = Done (Some 0)"
proof -
  let ?s = "run_schedule (init_state 2) [0, 1, 0, 1, 0, 0, 0, 1, 0, 1, 1, 1, 1]"
  have "reachable ?s" by (intro reachable_run reachable.init)
  then have "allocated ?s \<le> 1 \<and> (\<forall>t r. threads ?s t = Done r \<longrightarrow> r = Some 0)"
    by (rule at_most_one_http_client)
  moreover have "\<exists>r. threads ?s 0 = Done r" "\<exists>r. threads ?s 1 = Done r"
    by (simp_all add: run_schedule_def init_state_def GetHttpClient_step_def goto_def)
  ultimately show ?thesis unfolding Let_def by blast
qed

text \<open>
  C20: in every interleaving every call returns: a run of \<open>n\<close> calls has at most six steps for
  each, and when none can move any more, all of them have returned the client.
\<close>

theorem http_client_calls_return:
  assumes "run_exactly (init_state n) ts = Some s"
  shows "length ts \<le> 6 * n \<and>
    ((\<forall>t. GetHttpClient_step s t = None) \<longrightarrow> (\<forall>t < n. threads s t = Done (Some 0)))"
proof (intro conjI impI allI)
  have "remaining n s + length ts \<le> remaining n (init_state n)"
    using assms by (rule run_exactly_remaining) (simp add: init_state_def callers_def)
  then show "length ts \<le> 6 * n" by (simp add: remaining_def init_state_def)
next
  fix t assume stuck: "\<forall>t. GetHttpClient_step s t = None" and t: "t < n"
  have callers: "callers n s" using assms by (rule run_exactly_callers) (simp add: init_state_def callers_def)
  have inv: "client_inv s" using assms reachable_client_inv reachable.init run_exactly_reachable by blast
  show "threads s t = Done (Some 0)" by (rule stuck_returned [OF inv callers stuck t])
qed

lemma http_client_calls_return_witness:
  "let ts = [0, 1, 0, 0, 0, 0, 0, 1, 1, 1, 1]
   in \<exists>s. run_exactly (init_state 2) ts = Some s \<and> length ts \<le> 12 \<and>
     threads s 0 = Done (Some 0) \<and> threads s 1 = Done (Some 0)"
proof -
  let ?ts = "[0, 1, 0, 0, 0, 0, 0, 1, 1, 1, 1]"
  have "run_exactly (init_state 2) ?ts \<noteq> None"
    by (simp add: init_state_def GetHttpClient_step_def goto_def)
  then obtain s where s: "run_exactly (init_state 2) ?ts = Some s" by blast
  have "\<forall>t. GetHttpClient_step s t = None"
  proof
    fix t
    have "threads s t = (if t < 2 then Done (Some 0) else Absent)"
      using s by (auto simp: init_state_def GetHttpClient_step_def goto_def less_2_cases_iff)
    then show "GetHttpClient_step s t = None" by (simp add: GetHttpClient_step_def)
  qed
  with http_client_calls_return [OF s] s show ?thesis by (simp add: Let_def)
qed

end
