(* ===== verification/Cache_Race.thy ===== *)
theory Cache_Race
  imports Name_Cache
begin

text \<open>
  The cache of names as the goroutines of the server share it.  \<open>getUserName\<close> and \<open>getGroupName\<close>
  take no lock, and Go's maps are not safe for concurrent use.  Here each step is one access of
  Go's map routines to shared memory, in the order of the runtime of Go 1.24:

  \<^item> a read of a map that has no entries answers at once; else it tests the map's writing flag,
    and a flag that is set is fatal; then, in a step of its own, it takes the entry;
  \<^item> a write tests the flag, toggles it, puts the key in with a zero element, toggles the flag back
    (fatal when another write has done so already), and only then, after the runtime's routine
    has returned, stores the element, the two maps of an item one after the other.

  So the detection of races is not complete: a write may begin between the two steps of a read,
  and an element may be read before it is stored.  When a write makes the map grow, a routine
  that is between two steps goes on in the old table: its read may miss the entry and its store
  be lost.  A step has a flag that says so, set at will in an interleaving of several calls.
  Memory is sequentially consistent, and a string is stored at once.

  \<open>call_step\<close> is one step of one call, \<open>race_reach\<close> the states that calls in any number and any
  interleaving lead to.  What holds in every interleaving is proved by rule induction; a call
  that runs alone is shown to do what \<open>getUserName\<close> and \<open>getGroupName\<close> do on the abstract cache.
\<close>

subsection \<open>One call\<close>

datatype kind = Users | Groups

record call =
  c_kind :: kind
  c_id :: int
  c_root :: string

definition c_key :: "call \<Rightarrow> string" where "c_key cl = strconv_Itoa (c_id cl)"

datatype target = Outer | Inner nat

text \<open>
  The variable and the maps it leads to: for each root directory the item, with references to its
  two inner maps (\<open>None\<close> is the nil map), the contents of the inner maps, the next reference, and
  of each map the number of entries and the writing flag.
\<close>

record shared =
  items :: "string \<Rightarrow> (nat option \<times> nat option) option"
  heap :: "nat \<Rightarrow> string \<Rightarrow> string option"
  fresh :: nat
  used :: "target \<Rightarrow> nat"
  writing :: "target \<Rightarrow> bool"
  fatal :: bool

definition start_shared :: shared where
  "start_shared = \<lparr>items = Map.empty, heap = (\<lambda>_. Map.empty), fresh = 0, used = (\<lambda>_. 0),
     writing = (\<lambda>_. False), fatal = False\<rparr>"

text \<open>Where a call is: the names say what comes next.\<close>

datatype stage = Check_Flag | Set_Flag | Put_Key | Clear_Flag

datatype call_pc =
    Begin
  | Read_Item
  | Probe nat
  | Read_Name nat
  | Lookup
  | Ensure string
  | Read_Ensure string
  | Create string
  | Put_Item stage nat nat string
  | Fill_Users nat nat string
  | Fill_Groups nat string
  | Fetch string
  | Read_Fetch string
  | Put_Name stage nat string
  | Fill_Name nat string
  | Returned "string result"
  | Panicked

fun ref_of :: "kind \<Rightarrow> nat option \<times> nat option \<Rightarrow> nat option" where
  "ref_of Users (u, g) = u"
| "ref_of Groups (u, g) = g"

fun lookup_name :: "os_view \<Rightarrow> kind \<Rightarrow> int \<Rightarrow> string \<Rightarrow> string result" where
  "lookup_name os Users i root = lookupUsernameByUID os i root"
| "lookup_name os Groups i root = LookupGroupnameByGID os i root"

text \<open>The beginning of a read, and the steps of a write up to the return of the map routine.\<close>

definition map_read :: "target \<Rightarrow> call_pc \<Rightarrow> call_pc \<Rightarrow> call_pc \<Rightarrow> shared \<Rightarrow> call_pc \<times> shared" where
  "map_read t here absent next sh =
     (if used sh t = 0 then (absent, sh)
      else if writing sh t then (here, sh\<lparr>fatal := True\<rparr>)
      else (next, sh))"

definition toggle :: "target \<Rightarrow> shared \<Rightarrow> shared" where
  "toggle t sh = sh\<lparr>writing := (writing sh)(t := \<not> writing sh t)\<rparr>"

fun map_assign ::
  "target \<Rightarrow> (shared \<Rightarrow> shared) \<Rightarrow> (stage \<Rightarrow> call_pc) \<Rightarrow> call_pc \<Rightarrow> stage \<Rightarrow> shared \<Rightarrow> call_pc \<times> shared" where
  "map_assign t put here next Check_Flag sh =
     (if writing sh t then (here Check_Flag, sh\<lparr>fatal := True\<rparr>) else (here Set_Flag, sh))"
| "map_assign t put here next Set_Flag sh = (here Put_Key, toggle t sh)"
| "map_assign t put here next Put_Key sh = (here Clear_Flag, put sh)"
| "map_assign t put here next Clear_Flag sh =
     (if writing sh t then (next, toggle t sh) else (here Clear_Flag, sh\<lparr>fatal := True\<rparr>))"

text \<open>A key that is new gets the zero element.\<close>

definition put_item :: "string \<Rightarrow> shared \<Rightarrow> shared" where
  "put_item root sh =
     (if items sh root \<noteq> None then sh
      else sh\<lparr>items := (items sh)(root \<mapsto> (None, None)), used := (used sh)(Outer := Suc (used sh Outer))\<rparr>)"

definition put_name :: "nat \<Rightarrow> string \<Rightarrow> shared \<Rightarrow> shared" where
  "put_name r key sh =
     (if heap sh r key \<noteq> None then sh
      else sh\<lparr>heap := (heap sh)(r := (heap sh r)(key \<mapsto> [])),
              used := (used sh)(Inner r := Suc (used sh (Inner r)))\<rparr>)"

fun call_step :: "os_view \<Rightarrow> call \<Rightarrow> bool \<Rightarrow> call_pc \<Rightarrow> shared \<Rightarrow> call_pc \<times> shared" where
  "call_step os cl moved Begin sh = map_read Outer Begin Lookup Read_Item sh"
| "call_step os cl moved Read_Item sh =
     (case (if moved then None else items sh (c_root cl)) of
        None \<Rightarrow> (Lookup, sh)
      | Some refs \<Rightarrow> (case ref_of (c_kind cl) refs of None \<Rightarrow> (Lookup, sh) | Some r \<Rightarrow> (Probe r, sh)))"
| "call_step os cl moved (Probe r) sh = map_read (Inner r) (Probe r) Lookup (Read_Name r) sh"
| "call_step os cl moved (Read_Name r) sh =
     (case (if moved then None else heap sh r (c_key cl)) of
        None \<Rightarrow> (Lookup, sh)
      | Some name \<Rightarrow> (Returned (Inr name), sh))"
| "call_step os cl moved Lookup sh =
     (case lookup_name os (c_kind cl) (c_id cl) (c_root cl) of
        Inl err \<Rightarrow> (Returned (Inl err), sh)
      | Inr name \<Rightarrow> (Ensure name, sh))"
| "call_step os cl moved (Ensure name) sh = map_read Outer (Ensure name) (Create name) (Read_Ensure name) sh"
| "call_step os cl moved (Read_Ensure name) sh =
     (case (if moved then None else items sh (c_root cl)) of
        None \<Rightarrow> (Create name, sh)
      | Some refs \<Rightarrow> (Fetch name, sh))"
| "call_step os cl moved (Create name) sh =
     (Put_Item Check_Flag (fresh sh) (Suc (fresh sh)) name, sh\<lparr>fresh := Suc (Suc (fresh sh))\<rparr>)"
| "call_step os cl moved (Put_Item st u g name) sh =
     map_assign Outer (put_item (c_root cl)) (\<lambda>st. Put_Item st u g name) (Fill_Users u g name) st sh"
| "call_step os cl moved (Fill_Users u g name) sh =
     (Fill_Groups g name,
      if moved then sh
      else sh\<lparr>items := (items sh)(c_root cl := map_option (\<lambda>(u', g'). (Some u, g')) (items sh (c_root cl)))\<rparr>)"
| "call_step os cl moved (Fill_Groups g name) sh =
     (Fetch name,
      if moved then sh
      else sh\<lparr>items := (items sh)(c_root cl := map_option (\<lambda>(u', g'). (u', Some g)) (items sh (c_root cl)))\<rparr>)"
| "call_step os cl moved (Fetch name) sh = map_read Outer (Fetch name) Panicked (Read_Fetch name) sh"
| "call_step os cl moved (Read_Fetch name) sh =
     (case (if moved then None else items sh (c_root cl)) of
        None \<Rightarrow> (Panicked, sh)
      | Some refs \<Rightarrow>
          (case ref_of (c_kind cl) refs of
             None \<Rightarrow> (Panicked, sh)
           | Some r \<Rightarrow> (Put_Name Check_Flag r name, sh)))"
| "call_step os cl moved (Put_Name st r name) sh =
     map_assign (Inner r) (put_name r (c_key cl)) (\<lambda>st. Put_Name st r name) (Fill_Name r name) st sh"
| "call_step os cl moved (Fill_Name r name) sh =
     (Returned (Inr name),
      if moved then sh else sh\<lparr>heap := (heap sh)(r := (heap sh r)(c_key cl \<mapsto> name))\<rparr>)"
| "call_step os cl moved (Returned res) sh = (Returned res, sh)"
| "call_step os cl moved Panicked sh = (Panicked, sh)"


subsection \<open>All calls\<close>

record world =
  procs :: "nat \<Rightarrow> call_pc"
  mem :: shared

definition start_world :: world where
  "start_world = \<lparr>procs = (\<lambda>_. Begin), mem = start_shared\<rparr>"

definition schedule :: "os_view \<Rightarrow> (nat \<Rightarrow> call) \<Rightarrow> nat \<Rightarrow> bool \<Rightarrow> world \<Rightarrow> world" where
  "schedule os calls g moved w =
     (case call_step os (calls g) moved (procs w g) (mem w) of
        (pc, sh) \<Rightarrow> \<lparr>procs = (procs w)(g := pc), mem = sh\<rparr>)"

text \<open>A fatal error ends the process, so no call goes on after it.\<close>

inductive race_reach :: "os_view \<Rightarrow> (nat \<Rightarrow> call) \<Rightarrow> world \<Rightarrow> bool" for os calls where
  start: "race_reach os calls start_world"
| step: "race_reach os calls w \<Longrightarrow> \<not> fatal (mem w) \<Longrightarrow> race_reach os calls (schedule os calls g moved w)"

text \<open>A run, in the order of the goroutines named, in which no map grows.\<close>

fun race_run :: "os_view \<Rightarrow> (nat \<Rightarrow> call) \<Rightarrow> world \<Rightarrow> nat list \<Rightarrow> world" where
  "race_run os calls w [] = w"
| "race_run os calls w (g # gs) =
     (if fatal (mem w) then w else race_run os calls (schedule os calls g False w) gs)"

lemma race_run_reach: "race_reach os calls w \<Longrightarrow> race_reach os calls (race_run os calls w gs)"
  by (induction gs arbitrary: w) (auto intro: race_reach.step)


lemmas race_defs = start_world_def start_shared_def schedule_def map_read_def toggle_def put_item_def put_name_def


subsection \<open>What the memory means\<close>

text \<open>
  \<open>owner\<close> says which map of which root directory a reference stands for.  References below
  \<open>fresh\<close> have an owner for good; the items of a root point to maps of that root, and every name
  in a map is the one its files give, or still the empty one.
\<close>

type_synonym owner = "nat \<Rightarrow> (kind \<times> string) option"

definition key_name :: "os_view \<Rightarrow> kind \<Rightarrow> string \<Rightarrow> string \<Rightarrow> string result" where
  "key_name os k root key =
     (case k of Users \<Rightarrow> user_by_key os (root, key) | Groups \<Rightarrow> group_by_key os (root, key))"


definition refs_ok :: "owner \<Rightarrow> shared \<Rightarrow> bool" where
  "refs_ok ow sh \<longleftrightarrow>
     (\<forall>root refs k r. items sh root = Some refs \<longrightarrow> ref_of k refs = Some r \<longrightarrow> ow r = Some (k, root)) \<and>
     (\<forall>r. ow r \<noteq> None \<longrightarrow> r < fresh sh) \<and>
     (\<forall>r. ow r = None \<longrightarrow> heap sh r = Map.empty)"

definition names_ok :: "os_view \<Rightarrow> owner \<Rightarrow> shared \<Rightarrow> bool" where
  "names_ok os ow sh \<longleftrightarrow>
     (\<forall>r k root key name. ow r = Some (k, root) \<longrightarrow> heap sh r key = Some name \<longrightarrow>
        (\<exists>n. key_name os k root key = Inr n \<and> (name = n \<or> name = [])))"

definition mem_inv :: "os_view \<Rightarrow> owner \<Rightarrow> shared \<Rightarrow> bool" where
  "mem_inv os ow sh \<longleftrightarrow> refs_ok ow sh \<and> names_ok os ow sh"

lemmas mem_inv_defs = mem_inv_def refs_ok_def names_ok_def



text \<open>What one call does to the memory, the others can live with: owners stay.\<close>

definition extends :: "owner \<Rightarrow> owner \<Rightarrow> bool" where
  "extends ow ow' \<longleftrightarrow> (\<forall>r. ow r \<noteq> None \<longrightarrow> ow' r = ow r)"

lemma extends_refl [simp]: "extends ow ow" by (simp add: extends_def)


lemma fresh_unowned:
  assumes "refs_ok ow sh" shows "ow (fresh sh) = None" "ow (Suc (fresh sh)) = None"
proof -
  have "r < fresh sh" if "ow r \<noteq> None" for r using assms that by (auto simp: refs_ok_def)
  from this [of "fresh sh"] this [of "Suc (fresh sh)"] show "ow (fresh sh) = None" "ow (Suc (fresh sh)) = None"
    by (metis less_irrefl, metis not_less_eq less_SucI)
qed

lemma mem_inv_flags [simp]:
  "mem_inv os ow (sh\<lparr>fatal := b\<rparr>) = mem_inv os ow sh"
  "mem_inv os ow (toggle t sh) = mem_inv os ow sh"
  by (simp_all add: mem_inv_defs toggle_def)




lemma ref_of_kind: "ref_of k (u, g) = (case k of Users \<Rightarrow> u | Groups \<Rightarrow> g)"
  by (cases k) simp_all








subsection \<open>A call that runs alone\<close>

fun call_run :: "nat \<Rightarrow> os_view \<Rightarrow> call \<Rightarrow> call_pc \<times> shared \<Rightarrow> call_pc \<times> shared" where
  "call_run 0 os cl s = s"
| "call_run (Suc n) os cl s = call_run n os cl (call_step os cl False (fst s) (snd s))"

lemma call_run_add: "call_run (m + n) os cl s = call_run n os cl (call_run m os cl s)"
  by (induction m arbitrary: s) simp_all

lemma Returned_stays [simp]: "call_run m os cl (Returned res, sh) = (Returned res, sh)"
  by (induction m) simp_all

text \<open>A call gets from one place to another in at most so many steps.\<close>

definition gets :: "nat \<Rightarrow> os_view \<Rightarrow> call \<Rightarrow> call_pc \<times> shared \<Rightarrow> call_pc \<times> shared \<Rightarrow> bool" where
  "gets n os cl s s' \<longleftrightarrow> (\<exists>m \<le> n. call_run m os cl s = s')"

lemma getsI: "call_run m os cl s = s' \<Longrightarrow> m \<le> n \<Longrightarrow> gets n os cl s s'"
  by (auto simp: gets_def)

lemma gets_refl: "gets n os cl s s"
  unfolding gets_def by (intro exI [of _ 0]) simp

lemma gets_step: "gets n os cl (call_step os cl False pc sh) s' \<Longrightarrow> gets (Suc n) os cl (pc, sh) s'"
  unfolding gets_def by (metis Suc_le_mono call_run.simps(2) fst_conv snd_conv)

lemma gets_trans: "gets m os cl s s' \<Longrightarrow> gets n os cl s' s'' \<Longrightarrow> gets (m + n) os cl s s''"
  unfolding gets_def by (metis add_mono call_run_add)

lemma gets_Returned: "gets n os cl s (Returned res, sh) \<Longrightarrow> n \<le> k \<Longrightarrow> call_run k os cl s = (Returned res, sh)"
  unfolding gets_def by (metis Returned_stays call_run_add le_add_diff_inverse le_trans)

text \<open>The cache that the memory stands for; a nil map is an empty one.\<close>

definition contents :: "shared \<Rightarrow> nat option \<Rightarrow> string \<Rightarrow> string option" where
  "contents sh ref = (case ref of None \<Rightarrow> Map.empty | Some r \<Rightarrow> heap sh r)"

definition abs_cache :: "shared \<Rightarrow> userGroupCache" where
  "abs_cache sh root =
     map_option (\<lambda>refs. \<lparr>users_of = contents sh (ref_of Users refs), groups_of = contents sh (ref_of Groups refs)\<rparr>)
       (items sh root)"

fun request_of :: "call \<Rightarrow> name_req" where
  "request_of cl = (case c_kind cl of Users \<Rightarrow> UserReq (c_id cl) (c_root cl) | Groups \<Rightarrow> GroupReq (c_id cl) (c_root cl))"

text \<open>Between calls: no map is being written, every item has its two maps, the counts are right.\<close>

definition quiet :: "shared \<Rightarrow> bool" where
  "quiet sh \<longleftrightarrow>
     (\<forall>t. \<not> writing sh t) \<and> \<not> fatal sh \<and> (\<exists>ow. refs_ok ow sh) \<and>
     (\<forall>root refs k. items sh root = Some refs \<longrightarrow> ref_of k refs \<noteq> None) \<and>
     (used sh Outer = 0 \<longrightarrow> items sh = Map.empty) \<and> (\<forall>r. used sh (Inner r) = 0 \<longrightarrow> heap sh r = Map.empty)"

lemma quiet_flags: "quiet sh \<Longrightarrow> \<not> writing sh t" "quiet sh \<Longrightarrow> \<not> fatal sh"
  by (simp_all add: quiet_def)

lemma quiet_used:
  "quiet sh \<Longrightarrow> items sh root = Some refs \<Longrightarrow> used sh Outer \<noteq> 0"
  "quiet sh \<Longrightarrow> heap sh r key = Some name \<Longrightarrow> used sh (Inner r) \<noteq> 0"
  by (auto simp: quiet_def)

lemma quiet_ref:
  assumes "quiet sh" "items sh root = Some refs"
  obtains r where "ref_of k refs = Some r"
  using assms that unfolding quiet_def by blast

text \<open>The sequential operation, for both kinds at once.\<close>

definition item_map :: "kind \<Rightarrow> userGroupCacheItem \<Rightarrow> string \<Rightarrow> string option" where
  "item_map k item = (case k of Users \<Rightarrow> users_of item | Groups \<Rightarrow> groups_of item)"

definition store_in :: "kind \<Rightarrow> string \<Rightarrow> string \<Rightarrow> userGroupCacheItem \<Rightarrow> userGroupCacheItem" where
  "store_in k key name item =
     (case k of
        Users \<Rightarrow> item\<lparr>users_of := (users_of item)(key \<mapsto> name)\<rparr>
      | Groups \<Rightarrow> item\<lparr>groups_of := (groups_of item)(key \<mapsto> name)\<rparr>)"

definition cached :: "userGroupCache \<Rightarrow> call \<Rightarrow> string option" where
  "cached c cl = Option.bind (c (c_root cl)) (\<lambda>item. item_map (c_kind cl) item (c_key cl))"

lemma name_step_request:
  "name_step os c (request_of cl) =
     (case cached c cl of
        Some name \<Rightarrow> (Inr name, c)
      | None \<Rightarrow>
          (case lookup_name os (c_kind cl) (c_id cl) (c_root cl) of
             Inl err \<Rightarrow> (Inl err, c)
           | Inr name \<Rightarrow>
               (Inr name, c(c_root cl \<mapsto> store_in (c_kind cl) (c_key cl) name
                  (case c (c_root cl) of None \<Rightarrow> empty_item | Some item \<Rightarrow> item)))))"
  by (cases "c_kind cl"; cases "c (c_root cl)")
    (auto simp: getUserName_def getGroupName_def item_map_def store_in_def cached_def c_key_def Let_def
      split: option.splits sum.splits)

lemma cached_abs:
  "cached (abs_cache sh) cl =
     Option.bind (items sh (c_root cl)) (\<lambda>refs. contents sh (ref_of (c_kind cl) refs) (c_key cl))"
  by (cases "items sh (c_root cl)"; cases "c_kind cl") (simp_all add: cached_def abs_cache_def item_map_def)

text \<open>The first part of a call: the name from the cache, or a lookup.\<close>

lemma run_cached:
  assumes "quiet sh" "cached (abs_cache sh) cl = Some name"
  shows "gets 4 os cl (Begin, sh) (Returned (Inr name), sh)"
proof -
  from assms(2) obtain refs where refs: "items sh (c_root cl) = Some refs"
    "contents sh (ref_of (c_kind cl) refs) (c_key cl) = Some name"
    by (auto simp: cached_abs split: bind_splits)
  from quiet_ref [OF assms(1) refs(1)] obtain r where r: "ref_of (c_kind cl) refs = Some r" by blast
  with refs(2) have name: "heap sh r (c_key cl) = Some name" by (simp add: contents_def)
  have "call_run 4 os cl (Begin, sh) = (Returned (Inr name), sh)"
    using refs(1) r name quiet_flags [OF assms(1)] quiet_used(1) [OF assms(1) refs(1)] quiet_used(2) [OF assms(1) name]
    by (simp add: eval_nat_numeral map_read_def)
  then show ?thesis by (auto intro: getsI simp del: call_run.simps)
qed

lemma run_not_cached:
  assumes "quiet sh" "cached (abs_cache sh) cl = None"
  shows "gets 4 os cl (Begin, sh) (Lookup, sh)"
proof (cases "items sh (c_root cl)")
  case None
  have "call_run 1 os cl (Begin, sh) = (Lookup, sh) \<or> call_run 2 os cl (Begin, sh) = (Lookup, sh)"
    using None quiet_flags [OF assms(1)] by (simp add: eval_nat_numeral map_read_def)
  then show ?thesis by (auto intro: getsI simp del: call_run.simps)
next
  case (Some refs)
  from quiet_ref [OF assms(1) Some] obtain r where r: "ref_of (c_kind cl) refs = Some r" by blast
  with assms(2) Some have "heap sh r (c_key cl) = None" by (simp add: cached_abs contents_def)
  then have "call_run 3 os cl (Begin, sh) = (Lookup, sh) \<or> call_run 4 os cl (Begin, sh) = (Lookup, sh)"
    using Some r quiet_flags [OF assms(1)] quiet_used(1) [OF assms(1) Some]
    by (simp add: eval_nat_numeral map_read_def)
  then show ?thesis by (auto intro: getsI simp del: call_run.simps)
qed

text \<open>The second part: the item of the root, then the name in its map.\<close>

definition with_item :: "string \<Rightarrow> shared \<Rightarrow> shared" where
  "with_item root sh =
     sh\<lparr>items := (items sh)(root \<mapsto> (Some (fresh sh), Some (Suc (fresh sh)))), fresh := Suc (Suc (fresh sh)),
        used := (used sh)(Outer := Suc (used sh Outer))\<rparr>"

lemma run_ensure:
  assumes "quiet sh" "items sh (c_root cl) = None"
  shows "gets 9 os cl (Ensure name, sh) (Fetch name, with_item (c_root cl) sh)"
proof -
  have restored: "(writing sh)(Outer := False) = writing sh" using quiet_flags(1) [OF assms(1)] by (intro fun_upd_idem) simp
  have first: "gets 2 os cl (Ensure name, sh) (Create name, sh)"
  proof -
    have "call_run 1 os cl (Ensure name, sh) = (Create name, sh) \<or> call_run 2 os cl (Ensure name, sh) = (Create name, sh)"
      using assms quiet_flags [OF assms(1)] by (simp add: eval_nat_numeral map_read_def)
    then show ?thesis by (auto intro: getsI simp del: call_run.simps)
  qed
  have "call_run 7 os cl (Create name, sh) = (Fetch name, with_item (c_root cl) sh)"
    using assms(2) quiet_flags [OF assms(1)]
    by (simp add: eval_nat_numeral toggle_def put_item_def with_item_def restored)
  then have "gets 7 os cl (Create name, sh) (Fetch name, with_item (c_root cl) sh)" by (rule getsI) simp
  from gets_trans [OF first this] show ?thesis by simp
qed

lemma quiet_with_item:
  assumes "quiet sh" "items sh root = None"
  shows "quiet (with_item root sh)" and "abs_cache (with_item root sh) = (abs_cache sh)(root \<mapsto> empty_item)"
    and "items (with_item root sh) root = Some (Some (fresh sh), Some (Suc (fresh sh)))"
proof -
  from assms(1) obtain ow where ow: "refs_ok ow sh" by (auto simp: quiet_def)
  note unowned = fresh_unowned [OF ow]
  have "refs_ok (ow(fresh sh \<mapsto> (Users, root), Suc (fresh sh) \<mapsto> (Groups, root))) (with_item root sh)"
    using ow unowned assms(2)
    by (auto simp: refs_ok_def with_item_def less_SucI ref_of_kind split: if_split_asm kind.splits)
  moreover have "\<forall>root' refs k. items (with_item root sh) root' = Some refs \<longrightarrow> ref_of k refs \<noteq> None"
    using assms(1) by (auto simp: quiet_def with_item_def ref_of_kind split: kind.splits)
  ultimately show "quiet (with_item root sh)"
    using assms(1) by (auto simp: quiet_def with_item_def)
  have "heap sh (fresh sh) = Map.empty" "heap sh (Suc (fresh sh)) = Map.empty"
    using ow unowned by (simp_all add: refs_ok_def)
  then have "contents sh (Some (fresh sh)) = Map.empty" "contents sh (Some (Suc (fresh sh))) = Map.empty"
    by (simp_all add: contents_def)
  moreover have "contents (with_item root sh) = contents sh"
    by (simp add: fun_eq_iff contents_def with_item_def split: option.split)
  moreover have "items (with_item root sh) = (items sh)(root \<mapsto> (Some (fresh sh), Some (Suc (fresh sh))))"
    by (simp add: with_item_def)
  ultimately show "abs_cache (with_item root sh) = (abs_cache sh)(root \<mapsto> empty_item)"
    by (intro ext) (simp add: abs_cache_def empty_item_def)
  show "items (with_item root sh) root = Some (Some (fresh sh), Some (Suc (fresh sh)))"
    by (simp add: with_item_def)
qed

definition with_name :: "nat \<Rightarrow> string \<Rightarrow> string \<Rightarrow> shared \<Rightarrow> shared" where
  "with_name r key name sh =
     sh\<lparr>heap := (heap sh)(r := (heap sh r)(key \<mapsto> name)),
        used := (if heap sh r key = None then (used sh)(Inner r := Suc (used sh (Inner r))) else used sh)\<rparr>"

lemma run_store:
  assumes "quiet sh" "items sh (c_root cl) = Some refs" "ref_of (c_kind cl) refs = Some r"
  shows "gets 7 os cl (Fetch name, sh) (Returned (Inr name), with_name r (c_key cl) name sh)"
proof -
  have restored: "(writing sh)(Inner r := False) = writing sh" using quiet_flags(1) [OF assms(1)] by (intro fun_upd_idem) simp
  have "call_run 7 os cl (Fetch name, sh) = (Returned (Inr name), with_name r (c_key cl) name sh)"
    using assms(2,3) quiet_flags [OF assms(1)] quiet_used(1) [OF assms(1,2)]
    by (simp add: eval_nat_numeral map_read_def toggle_def put_name_def with_name_def restored)
  then show ?thesis by (rule getsI) simp
qed

lemma quiet_with_name:
  assumes "quiet sh" "items sh root = Some refs" "ref_of k refs = Some r"
  shows "quiet (with_name r key name sh)" and
    "abs_cache (with_name r key name sh) =
       (abs_cache sh)(root \<mapsto> store_in k key name (the (abs_cache sh root)))"
proof -
  from assms(1) obtain ow where ow: "refs_ok ow sh" by (auto simp: quiet_def)
  have owner: "items sh root' = Some refs' \<Longrightarrow> ref_of k' refs' = Some r' \<Longrightarrow> ow r' = Some (k', root')" for root' refs' k' r'
    using ow unfolding refs_ok_def by blast
  have same: "items (with_name r key name sh) = items sh" by (simp add: with_name_def)
  have "refs_ok ow (with_name r key name sh)"
    using ow owner [OF assms(2,3)] by (auto simp: refs_ok_def with_name_def)
  moreover have "heap sh r' = Map.empty" if "used sh (Inner r') = 0" for r'
    using assms(1) that by (auto simp: quiet_def)
  then have "heap (with_name r key name sh) r' = Map.empty" if "used (with_name r key name sh) (Inner r') = 0" for r'
    using that by (auto simp: with_name_def split: if_splits)
  ultimately show "quiet (with_name r key name sh)"
    using assms(1) unfolding quiet_def same by (auto simp: with_name_def split: if_splits)
  have stored: "contents (with_name r key name sh) (ref_of k' refs') =
      (if root' = root \<and> k' = k then (contents sh (ref_of k' refs'))(key \<mapsto> name) else contents sh (ref_of k' refs'))"
    if "items sh root' = Some refs'" for root' refs' k'
  proof (cases "ref_of k' refs'")
    case None
    with that assms quiet_ref [OF assms(1) that, of k'] show ?thesis by auto
  next
    case (Some r')
    have "r' = r \<longleftrightarrow> root' = root \<and> k' = k"
      using owner [OF that Some] owner [OF assms(2,3)] that Some assms(2,3) by auto
    with Some show ?thesis by (auto simp: contents_def with_name_def)
  qed
  show "abs_cache (with_name r key name sh) = (abs_cache sh)(root \<mapsto> store_in k key name (the (abs_cache sh root)))"
  proof
    fix root'
    show "abs_cache (with_name r key name sh) root' =
        ((abs_cache sh)(root \<mapsto> store_in k key name (the (abs_cache sh root)))) root'"
      using assms(2) stored [of root'] unfolding abs_cache_def same
      by (cases "items sh root'"; cases k) (auto simp: store_in_def)
  qed
qed

text \<open>A call that is not interrupted does what the operation does on the abstract cache.\<close>

lemma call_run_alone:
  assumes "quiet sh"
  shows "\<exists>sh'. call_run 21 os cl (Begin, sh) = (Returned (fst (name_step os (abs_cache sh) (request_of cl))), sh') \<and>
    abs_cache sh' = snd (name_step os (abs_cache sh) (request_of cl)) \<and> quiet sh'"
proof (cases "cached (abs_cache sh) cl")
  case (Some name)
  from gets_Returned [OF run_cached [OF assms Some], of 21] Some assms show ?thesis
    by (simp add: name_step_request del: request_of.simps)
next
  case None
  note start = run_not_cached [OF assms None, of os]
  show ?thesis
  proof (cases "lookup_name os (c_kind cl) (c_id cl) (c_root cl)")
    case (Inl err)
    then have "gets 1 os cl (Lookup, sh) (Returned (Inl err), sh)" by (intro getsI [of 1]) simp_all
    from gets_Returned [OF gets_trans [OF start this], of 21] None Inl assms show ?thesis
      by (simp add: name_step_request del: request_of.simps)
  next
    case (Inr name)
    then have "gets 1 os cl (Lookup, sh) (Ensure name, sh)" by (intro getsI [of 1]) simp_all
    note ensure = gets_trans [OF start this]
    show ?thesis
    proof (cases "items sh (c_root cl)")
      case None
      let ?sh = "with_item (c_root cl) sh"
      note item = quiet_with_item [OF assms None]
      from quiet_ref [OF item(1,3)] obtain r where r: "ref_of (c_kind cl) (Some (fresh sh), Some (Suc (fresh sh))) = Some r"
        by blast
      from gets_trans [OF gets_trans [OF ensure run_ensure [OF assms None]] run_store [OF item(1,3) r]]
      have run: "call_run 21 os cl (Begin, sh) = (Returned (Inr name), with_name r (c_key cl) name ?sh)"
        by (rule gets_Returned) simp
      have "abs_cache sh (c_root cl) = None" using None by (simp add: abs_cache_def)
      with run quiet_with_name [OF item(1,3) r, of "c_key cl" name] Inr \<open>cached (abs_cache sh) cl = None\<close> item(2)
      show ?thesis by (simp add: name_step_request del: request_of.simps)
    next
      case (Some refs)
      from quiet_ref [OF assms Some] obtain r where r: "ref_of (c_kind cl) refs = Some r" by blast
      have "call_run 2 os cl (Ensure name, sh) = (Fetch name, sh)"
        using Some quiet_flags [OF assms] quiet_used(1) [OF assms Some] by (simp add: eval_nat_numeral map_read_def)
      then have "gets 2 os cl (Ensure name, sh) (Fetch name, sh)" by (rule getsI) simp
      from gets_trans [OF gets_trans [OF ensure this] run_store [OF assms Some r]]
      have run: "call_run 21 os cl (Begin, sh) = (Returned (Inr name), with_name r (c_key cl) name sh)"
        by (rule gets_Returned) simp
      have "abs_cache sh (c_root cl) \<noteq> None" using Some by (simp add: abs_cache_def)
      with run quiet_with_name [OF assms Some r, of "c_key cl" name] Inr \<open>cached (abs_cache sh) cl = None\<close>
      show ?thesis by (auto simp: name_step_request simp del: request_of.simps)
    qed
  qed
qed

text \<open>Calls one after the other, each on the host of its time.\<close>

fun serial_run :: "shared \<Rightarrow> (os_view \<times> call) list \<Rightarrow> call_pc list \<times> shared" where
  "serial_run sh [] = ([], sh)"
| "serial_run sh ((os, cl) # cls) =
     (case call_run 21 os cl (Begin, sh) of (pc, sh') \<Rightarrow>
       (case serial_run sh' cls of (pcs, sh'') \<Rightarrow> (pc # pcs, sh'')))"

lemma serial_run_refines:
  "quiet sh \<Longrightarrow> \<exists>sh'. serial_run sh cls =
     (map Returned (fst (name_run (abs_cache sh) (map (apsnd request_of) cls))), sh') \<and>
     abs_cache sh' = snd (name_run (abs_cache sh) (map (apsnd request_of) cls)) \<and> quiet sh'"
proof (induction cls arbitrary: sh)
  case (Cons ocl cls)
  obtain os cl where ocl: "ocl = (os, cl)" by fastforce
  from call_run_alone [OF Cons.prems, of os cl] obtain sh1 where
    one: "call_run 21 os cl (Begin, sh) = (Returned (fst (name_step os (abs_cache sh) (request_of cl))), sh1)"
    "abs_cache sh1 = snd (name_step os (abs_cache sh) (request_of cl))" "quiet sh1" by blast
  from Cons.IH [OF one(3)] one ocl show ?case by (auto simp: split_beta)
qed simp

lemma quiet_start [simp]: "quiet start_shared"
proof -
  have "refs_ok (\<lambda>_. None) start_shared" by (simp add: refs_ok_def start_shared_def)
  then show ?thesis by (auto simp: quiet_def start_shared_def)
qed

lemma abs_cache_start [simp]: "abs_cache start_shared = Map.empty"
  by (simp add: abs_cache_def start_shared_def fun_eq_iff)


subsection \<open>Properties\<close>


definition two_calls :: "nat \<Rightarrow> call" where
  "two_calls g = \<lparr>c_kind = (if g = 0 then Users else Groups), c_id = 0, c_root = ''/host_fs''\<rparr>"

definition names_host :: os_view where
  "names_host = host_of
     [(''/host_fs/etc/passwd'', file_node 0x1A4 (0, 0) (''root:x:0:0:r:/root:/bin/sh'' @ [NL])),
      (''/host_fs/etc/group'', file_node 0x1A4 (0, 0) (''wheel:x:0:'' @ [NL]))]"

lemma names_host_lookups:
  "lookup_name names_host Users 0 ''/host_fs'' = Inr ''root''"
  "lookup_name names_host Groups 0 ''/host_fs'' = Inr ''wheel''"
  by code_simp+


text \<open>
  C21: two requests at once can end the scanner: with the empty cache, any call whose lookup
  succeeds and any other call have an interleaving that reaches Go's fatal error for concurrent
  map access, from which no handler recovers.
\<close>

theorem concurrent_calls_can_crash:
  assumes "g \<noteq> h" and "lookup_name os (c_kind (calls g)) (c_id (calls g)) (c_root (calls g)) = Inr name"
  shows "\<exists>w. race_reach os calls w \<and> fatal (mem w)"
proof -
  have "fatal (mem (race_run os calls start_world (replicate 7 g @ [h])))"
    using assms by (simp add: eval_nat_numeral race_defs)
  moreover have "race_reach os calls (race_run os calls start_world (replicate 7 g @ [h]))"
    by (intro race_run_reach race_reach.start)
  ultimately show ?thesis by blast
qed

lemma concurrent_calls_can_crash_witness: "\<exists>w. race_reach names_host two_calls w \<and> fatal (mem w)"
proof (rule concurrent_calls_can_crash)
  show "(0 :: nat) \<noteq> 1" by simp
  show "lookup_name names_host (c_kind (two_calls 0)) (c_id (two_calls 0)) (c_root (two_calls 0)) = Inr ''root''"
    using names_host_lookups(1) by (simp add: two_calls_def)
qed

text \<open>
  C22: without a fatal error two requests for the same name, which the files have, can still go
  wrong: one can be answered with the empty name, since it finds the key before the other has
  stored the name, and one can panic, since it finds the item before its maps are in it.
\<close>

theorem concurrent_calls_can_lose_a_name:
  assumes "g \<noteq> h" and "calls h = calls g"
    and "lookup_name os (c_kind (calls g)) (c_id (calls g)) (c_root (calls g)) = Inr name"
  shows "(\<exists>w. race_reach os calls w \<and> \<not> fatal (mem w) \<and> procs w h = Returned (Inr [])) \<and>
    (\<exists>w. race_reach os calls w \<and> \<not> fatal (mem w) \<and> procs w h = Panicked)"
proof
  let ?w = "race_run os calls start_world (replicate 16 g @ replicate 4 h)"
  have "\<not> fatal (mem ?w) \<and> procs ?w h = Returned (Inr [])"
    using assms by (cases "c_kind (calls g)") (simp_all add: eval_nat_numeral race_defs del: lookup_name.simps)
  moreover have "race_reach os calls ?w" by (intro race_run_reach race_reach.start)
  ultimately show "\<exists>w. race_reach os calls w \<and> \<not> fatal (mem w) \<and> procs w h = Returned (Inr [])" by blast
next
  let ?w = "race_run os calls start_world (replicate 8 g @ replicate 7 h)"
  have "\<not> fatal (mem ?w) \<and> procs ?w h = Panicked"
    using assms by (cases "c_kind (calls g)") (simp_all add: eval_nat_numeral race_defs del: lookup_name.simps)
  moreover have "race_reach os calls ?w" by (intro race_run_reach race_reach.start)
  ultimately show "\<exists>w. race_reach os calls w \<and> \<not> fatal (mem w) \<and> procs w h = Panicked" by blast
qed

lemma concurrent_calls_can_lose_a_name_witness:
  "\<exists>w. race_reach names_host (\<lambda>_. two_calls 0) w \<and> \<not> fatal (mem w) \<and> procs w 1 = Returned (Inr [])"
proof -
  have "(0 :: nat) \<noteq> 1" "lookup_name names_host (c_kind (two_calls 0)) (c_id (two_calls 0)) (c_root (two_calls 0)) = Inr ''root''"
    using names_host_lookups(1) by (simp_all add: two_calls_def)
  with concurrent_calls_can_lose_a_name [of 0 1 "\<lambda>_. two_calls 0" names_host "''root''"] show ?thesis by simp
qed

text \<open>
  C10: calls that do not overlap never reach a fatal error, and on the state that the references
  stand for they are exactly \<open>getUserName\<close> and \<open>getGroupName\<close>, also when the host changes in between.
\<close>

theorem serial_calls_refine_the_cache:
  "\<exists>sh. serial_run start_shared cls =
     (map Returned (fst (name_run Map.empty (map (apsnd request_of) cls))), sh) \<and>
     abs_cache sh = snd (name_run Map.empty (map (apsnd request_of) cls)) \<and> \<not> fatal sh"
  using serial_run_refines [OF quiet_start, of cls] by (auto simp: quiet_def)

end
