(* ===== verification/Spec2Isabelle.thy ===== *)
theory Spec2Isabelle
  imports Main_Program Http_Client Cache_Race
begin

text \<open>
  Verification of the Kubescape host scanner, a Go program that runs on each node of a Kubernetes
  cluster with the host's file system mounted at \<open>/host_fs\<close>, and answers HTTP
  requests about the node: how the kubelet, kube-proxy, the control plane and the CNI are
  configured, with the permissions, owners and, for some, contents of their files, and the node's
  kernel, ports, and cloud. Paths below are those of the repository.

  How a request runs. \<open>sensor.go\<close> starts the server and chains the handlers: the path
  in lower case, recovery from panics, the filter that logs failures, the telemetry, the default
  mux; only \<open>OPTIONS *\<close> is answered before the chain. A handler of
  \<open>httphandlers.go\<close> calls one sensor (\<open>sensor/*.go\<close>) and encodes its
  result as JSON. A sensor finds a process by its executable's name, takes the paths of its files
  from its arguments or from defaults, and describes each file below the root directory of that
  process or below \<open>/host_fs\<close> (\<open>sensor/internal/utils\<close>). The owner's
  names come from the \<open>passwd\<close> and \<open>group\<close> files of that root, through a
  cache that lives as long as the process. This cache, the build version, the readiness flag and
  the HTTP client are the state that requests share.

  What a model value is. Strings and bytes are lists of 8-bit characters. A Go pair of result and
  error is a sum (\<open>'a result\<close>), an operation on a response writer that panics is
  \<open>None\<close>, a handler that panics or outlasts the fuel of the model is one of two
  values of \<open>stop\<close>, and errors are the datatype \<open>goerr\<close>. The host is a
  value \<open>os_view\<close>, which says what each call to \<open>os\<close> answers; a request
  sees one such value, different requests may see different ones. The cache is passed through
  every operation that uses it. Integers of fixed width are words where the width can be seen
  (process ids, mode bits, owner ids).

  The theories, from the bottom:

  \<^item> \<open>Prelude\<close>, \<open>Go_Strings\<close>, \<open>Go_Strconv\<close>,
    \<open>Go_Path\<close>, \<open>Go_Bufio\<close>, \<open>Go_Json\<close>,
    \<open>Host_OS\<close>: what the program uses of Go's library. A lemma for each: lexical
    normal form of paths, printing and reading of numbers, the lines of a chunked reader, base64,
    and a JSON reader that undoes the writer.
  \<^item> \<open>Colon_File\<close>, \<open>User_Lookup\<close>: \<open>readColonFile\<close> and
    the lookups of \<open>osuserswrapper.go\<close>; they are searches among parsed rows. The
    interface between the reader and its line functions is the locale
    \<open>colon_line_func\<close>.
  \<^item> \<open>Name_Cache\<close>, \<open>Cache_Race\<close>: the cache of names of requests
    that do not overlap, an instance of the locale \<open>memo_cache_pair\<close>, and the same
    two functions for goroutines that do, each step one access of Go's map routines to memory.
  \<^item> \<open>Proc\<close>, \<open>File_Info\<close>, \<open>Verbose_Walk\<close>,
    \<open>Service_Files\<close>, \<open>Container_Runtime\<close>: \<open>process.go\<close>,
    \<open>utils.go\<close>, \<open>verboseutils.go\<close>, \<open>service.go\<close> and
    \<open>containerruntime.go\<close>. The locale \<open>info_source\<close> is what describing a
    file promises about the cache.
  \<^item> \<open>Encryption_Config\<close>, \<open>Control_Plane\<close>,
    \<open>Node_Agents\<close>, \<open>Node_Sensors\<close>, \<open>Http_Client\<close>: the
    sensors, the redaction of secrets, and the shared HTTP client.
  \<^item> \<open>Report_Json\<close>, \<open>Report_Types\<close>: the JSON that the struct tags
    define, the shape of each report, a decoding client, and that every sensor makes well-formed
    reports.
  \<^item> \<open>Http_Server\<close>, \<open>Reply_Contents\<close>, \<open>Main_Program\<close>:
    handlers and routing, the documents that clients get (locale \<open>report_type\<close>), the
    chain of handlers, and \<open>main\<close> as a state machine.
  \<^item> this theory: the server as a whole, over histories of requests.

  What is shown. On one state of the host, replies do not depend on what earlier requests left in
  the cache (C1, C13, C14); a stale name stays for ever when the host changes (C29). What is
  reported of the encryption configuration does not depend on its secrets (C2, C6, C9), with one
  exception that C37 shows. Each reply of status 200 is a document of its endpoint's shape, and
  the reports of the kubelet and the control plane are read back as the sensors made them (C3, C4,
  C8). Names are right or empty under every interleaving (C5), but requests at once can end the
  process, lose a name or panic (C21, C22); calls that do not overlap are exact (C10). A request
  that overlaps with no other is answered (C7). The lookups, the walks and the sensors do what
  their specifications say (C11, C12, C15 to C18, C24 to C28, C30, C31, C36). The HTTP client is
  created once, and every call returns it (C19, C20). The rest is what the handlers, the log, the
  telemetry and the debug listener do with errors, paths and probes (C23, C32 to C35, C38 to C40).

  Fuel and bounds. The listing of \<open>Verbose_Walk\<close> recurses on the ten levels of
  \<open>maxRecursionDepth\<close>. The walk over the kernel variables has no limit in the code:
  its fuel is a parameter of a request, any fuel from the depth of the tree on gives the same
  result, and C25 shows that it does not run out there; outlasting it is told apart from a panic
  and from a reply. The JSON reader's fuel is the length of its text, which its round trip shows
  to be enough. A call of \<open>Cache_Race\<close> that runs alone takes at most 21 steps, and a
  run of calls for the HTTP client six for each call. All other recursions are structural or have
  a proved measure.

  Parameters. Third-party code is an argument of the definitions: the TOML, YAML and Kubernetes
  codecs, the D-Bus and systemd packages, the parser of \<open>/proc/net\<close> and its
  connection type, the reply to a metadata request, the router's recovery reply, the printing of a
  redirect URL, and lower case of text that is not ASCII.

  The codecs are arbitrary functions: no property assumes that one undoes the other.

  Not modelled: \<open>initLogger\<close> and log records other than the one of a failed or slow
  request, which no reply depends on; the export of telemetry; open files and connections as
  resources; time, other than whether a request was slow; a walk without end, on a tree of
  unbounded depth; the percent-encoded forms of a path that the mux tells apart; and tests,
  manifests and scripts, which are not part of the program.
\<close>

subsection \<open>The server as a whole\<close>

lemma serve_keeps_cache:
  assumes "cache_agrees (e_os e) (nameCache s)"
  shows "cache_agrees (e_os e) (nameCache (snd (serve e s h w)))"
proof (cases h)
  case KubeletInfo_H
  from cache_blindD(2) [OF cache_blind_kubelet assms, of "e_unit e" "e_ca e"] KubeletInfo_H
  show ?thesis by (simp add: serve_def split_beta)
next
  case KubeProxy_H
  from cache_blindD(2) [OF cache_blind_kubeproxy assms] KubeProxy_H
  show ?thesis by (simp add: serve_def split_beta)
next
  case ControlPlane_H
  from cache_blindD(2) [OF cache_blind_control_plane assms, of "e_codecs e"] ControlPlane_H
  show ?thesis by (simp add: serve_def split_beta)
next
  case CNI_H
  from cache_blindD(2) [OF cache_blind_cni assms, of "e_toml e"] CNI_H
  show ?thesis by (simp add: serve_def split_beta)
qed (use assms in \<open>simp_all add: serve_def split: prod.split\<close>)

lemma serve_version:
  "BuildVersion (snd (serve e s h w)) =
     (if h = Version_H \<and> BuildVersion s = [] then ''unknown'' else BuildVersion s)"
  by (cases h) (simp_all add: serve_def versionHandler_def split: prod.split)

lemma serve_ignores_cache:
  assumes "cache_agrees (e_os e) (nameCache s)"
  shows "fst (serve e s h w) = fst (serve e (s\<lparr>nameCache := Map.empty\<rparr>) h w)"
proof (cases h)
  case KubeletInfo_H
  from cache_blindD(1) [OF cache_blind_kubelet assms, of "e_unit e" "e_ca e"] KubeletInfo_H
  show ?thesis by (simp add: serve_def split_beta)
next
  case KubeProxy_H
  from cache_blindD(1) [OF cache_blind_kubeproxy assms] KubeProxy_H
  show ?thesis by (simp add: serve_def split_beta)
next
  case ControlPlane_H
  from cache_blindD(1) [OF cache_blind_control_plane assms, of "e_codecs e"] ControlPlane_H
  show ?thesis by (simp add: serve_def split_beta)
next
  case CNI_H
  from cache_blindD(1) [OF cache_blind_cni assms, of "e_toml e"] CNI_H
  show ?thesis by (simp add: serve_def split_beta)
qed (simp_all add: serve_def split: prod.split)

text \<open>Requests on one state of the host, and the goroutine that makes the server ready.\<close>

definition event_on :: "'c env \<Rightarrow> handler option \<Rightarrow> 'c event" where
  "event_on e ev = (case ev of None \<Rightarrow> GoReady | Some h \<Rightarrow> Request e h)"

text \<open>
  A server that has just started, with what a history shows of itself: whether it is ready, and
  that a version request has named the version which was not set.
\<close>

definition fresh_server :: "string \<Rightarrow> handler option list \<Rightarrow> server" where
  "fresh_server v evs =
     \<lparr>BuildVersion = (if v = [] \<and> Some Version_H \<in> set evs then ''unknown'' else v),
      isReady = (None \<in> set evs), nameCache = Map.empty\<rparr>"

lemma server_run_requests:
  assumes "cache_agrees (e_os e) (nameCache s)"
  shows "cache_agrees (e_os e) (nameCache (snd (server_run s (map (event_on e) evs)))) \<and>
    isReady (snd (server_run s (map (event_on e) evs))) = (isReady s \<or> None \<in> set evs) \<and>
    BuildVersion (snd (server_run s (map (event_on e) evs))) =
      (if BuildVersion s = [] \<and> Some Version_H \<in> set evs then ''unknown'' else BuildVersion s)"
  using assms
proof (induction evs arbitrary: s)
  case (Cons ev evs)
  show ?case
  proof (cases ev)
    case None
    then show ?thesis using Cons.IH [of "s\<lparr>isReady := True\<rparr>"] Cons.prems
      by (simp add: event_on_def split_beta)
  next
    case (Some h)
    let ?s = "snd (serve e s h new_response)"
    have "snd (server_run s (map (event_on e) (ev # evs))) = snd (server_run ?s (map (event_on e) evs))"
      using Some by (simp add: event_on_def split_beta)
    then show ?thesis
      using Some Cons.IH [OF serve_keeps_cache [OF Cons.prems, of h new_response]]
        isReady_serve [of e s h new_response] serve_version [of e s h new_response] by auto
  qed
qed simp

text \<open>
  C1: on one state of the host no reply depends on what earlier requests left in the cache of names:
  after any requests, in any order with the readiness goroutine, each request gets the reply of
  a server that has just started.  Only two things of the history show, in that server's
  readiness and in its version, which a version request sets when it was not set.
\<close>

theorem replies_do_not_depend_on_history:
  "fst (serve e (snd (server_run (start_server v) (map (event_on e) evs))) h w) =
    fst (serve e (fresh_server v evs) h w)"
proof -
  let ?s = "snd (server_run (start_server v) (map (event_on e) evs))"
  have start: "cache_agrees (e_os e) (nameCache (start_server v))" by (simp add: start_server_def)
  note after = server_run_requests [OF start, of evs]
  then have "?s\<lparr>nameCache := Map.empty\<rparr> = fresh_server v evs"
    by (simp add: fresh_server_def start_server_def)
  with after serve_ignores_cache [of e ?s h w] show ?thesis by simp
qed

end
